(* ===== verification/Prelude.thy ===== *)
theory Prelude
  imports Main "HOL-Library.Sublist"
begin

text \<open>
  Shared vocabulary of the development. JavaScript strings are modelled as HOL
  \<open>string\<close>s (lists of bytes): every non-ASCII character of the sources is written as
  its UTF-8 byte sequence, so that the literals below are byte-for-byte those of the
  TypeScript files. The regular expressions of the program only test the ASCII bytes
  \<open><\<close>, \<open>>\<close> and line feed, which never occur inside a multi-byte UTF-8 sequence, so
  byte-level matching agrees with JavaScript's UTF-16 matching on them.
  The prelude also holds the named theorem collections and the generic list lemmas
  the component theories share.
\<close>

named_theorems doc_ops "unfolding rules of the document-store operations"
named_theorems gateway_ops "unfolding rules of the AI gateway operations"
named_theorems app_ops "unfolding rules of the editor's event handlers"

text \<open>
  The one runtime error the modelled code can raise: a \<open>TypeError\<close> from reading
  a property of \<open>undefined\<close> or \<open>null\<close>.
\<close>

datatype js_error = TypeError

type_synonym html = string
type_synonym section_id = string
type_synonym year = nat

subsection \<open>Characters of the Portuguese literals\<close>

abbreviation a_acute :: string where "a_acute \<equiv> [CHR 0xC3, CHR 0xA1]"
abbreviation a_tilde :: string where "a_tilde \<equiv> [CHR 0xC3, CHR 0xA3]"
abbreviation c_cedil :: string where "c_cedil \<equiv> [CHR 0xC3, CHR 0xA7]"
abbreviation e_acute :: string where "e_acute \<equiv> [CHR 0xC3, CHR 0xA9]"
abbreviation e_circ :: string where "e_circ \<equiv> [CHR 0xC3, CHR 0xAA]"
abbreviation i_acute :: string where "i_acute \<equiv> [CHR 0xC3, CHR 0xAD]"
abbreviation o_tilde :: string where "o_tilde \<equiv> [CHR 0xC3, CHR 0xB5]"

abbreviation lf :: char where "lf \<equiv> CHR 0x0A"
abbreviation nl :: string where "nl \<equiv> [CHR 0x0A]"
abbreviation dq :: string where "dq \<equiv> [CHR 0x22]"
abbreviation spaces :: "nat \<Rightarrow> string" where "spaces n \<equiv> replicate n (CHR '' '')"

subsection \<open>Generic list lemmas\<close>

text \<open>Indentation of template literals, \<open>spaces 12\<close>, unfolds by the simplifier.\<close>

lemma replicate_numeral [simp]: "replicate (numeral k) x = x # replicate (pred_numeral k) x"
  by (simp add: numeral_eq_Suc)

text \<open>
  Updating the elements of a list that satisfy a predicate, the shape of every
  \<open>sections.map(s => s.id === id ? {...s, content} : s)\<close> of the editor.
\<close>

lemma map_map_if_same [simp]:
  "(\<And>x. f (g x) = f x) \<Longrightarrow> map f (map (\<lambda>x. if P x then g x else x) xs) = map f xs"
  by (induction xs) auto

lemma length_map_if [simp]:
  "length (map (\<lambda>x. if P x then g x else x) xs) = length xs"
  by simp

lemma find_map_if_other:
  "(\<And>x. Q (g x) = Q x) \<Longrightarrow> (\<And>x. Q x \<Longrightarrow> \<not> P x) \<Longrightarrow>
   find Q (map (\<lambda>x. if P x then g x else x) xs) = find Q xs"
  by (induction xs) auto

lemma find_map_if_same:
  "(\<And>x. P (g x) = P x) \<Longrightarrow>
   find P (map (\<lambda>x. if P x then g x else x) xs) = map_option g (find P xs)"
  by (induction xs) auto

text \<open>An element of a list without duplicates occurs in it exactly once.\<close>

lemma length_filter_distinct_member:
  "distinct xs \<Longrightarrow> x \<in> set xs \<Longrightarrow> length (filter (\<lambda>y. y = x) xs) = 1"
  by (induction xs) (auto simp: filter_empty_conv)

end
