(* ===== verification/Types.thy ===== *)
theory Types
  imports Prelude
begin

text \<open>
  The data model of \<open>src/types.ts\<close>: the enum \<open>SectionType\<close> as a datatype with the
  source's constructors, the interfaces \<open>Section\<close>, \<open>Project\<close>, \<open>ReviewFeedback\<close>,
  \<open>ImprovementSuggestions\<close> and \<open>FinalReview\<close> as records. Field names that clash
  with HOL constants or with a field of another record carry a prefix
  (\<open>sec_id\<close> for \<open>Section.id\<close>, \<open>proj_title\<close> for \<open>Project.title\<close>); the record of
  \<open>Section\<close> is called \<open>doc_section\<close> because \<open>section\<close> is an Isar keyword.
  The enum's declaration order is the document order of ABNT (pre-textual, textual,
  post-textual elements); \<open>section_type\<close> is made a linear order by that rank, so the
  library's \<open>sorted\<close> applies to a project's list of section types.
\<close>

datatype section_type = PRE_TEXTUAL | TEXTUAL | POST_TEXTUAL

record doc_section =
  sec_id :: section_id
  sec_title :: string
  content :: html
  sec_type :: section_type

datatype template = Monografia | Artigo

record project =
  proj_id :: string
  proj_title :: string
  author :: string
  template :: template
  sections :: "doc_section list"

record review_feedback =
  abntCompliance :: string
  originality :: string
  cohesion :: string
  grammar :: string

record improvement_suggestions =
  clarity :: string
  depth :: string
  conclusion :: string
  resultsPresentation :: string

record final_review =
  feedback :: review_feedback
  suggestions :: improvement_suggestions

subsection \<open>The enum's numeric values and their order\<close>

text \<open>A TypeScript numeric enum numbers its members from 0 in declaration order.\<close>

primrec section_type_value :: "section_type \<Rightarrow> nat" where
  "section_type_value PRE_TEXTUAL = 0"
| "section_type_value TEXTUAL = 1"
| "section_type_value POST_TEXTUAL = 2"

lemma section_type_value_inj: "section_type_value a = section_type_value b \<longleftrightarrow> a = b"
  by (cases a; cases b) simp_all

instantiation section_type :: linorder
begin

definition less_eq_section_type :: "section_type \<Rightarrow> section_type \<Rightarrow> bool" where
  "less_eq_section_type a b \<longleftrightarrow> section_type_value a \<le> section_type_value b"

definition less_section_type :: "section_type \<Rightarrow> section_type \<Rightarrow> bool" where
  "less_section_type a b \<longleftrightarrow> section_type_value a < section_type_value b"

instance
  by standard (auto simp: less_eq_section_type_def less_section_type_def section_type_value_inj)

end

lemma section_type_order [simp]:
  "PRE_TEXTUAL < TEXTUAL" "TEXTUAL < POST_TEXTUAL" "PRE_TEXTUAL < POST_TEXTUAL"
  by (simp_all add: less_section_type_def)

end
