(* ===== verification/JsString.thy ===== *)
theory JsString
  imports Prelude
begin

text \<open>
  The JavaScript string builtins the editor calls, at the level of detail the code
  relies on. A regular expression literal with the \<open>g\<close> flag is modelled by its
  matcher at a position: \<open>m s = Some n\<close> when the expression matches a prefix of \<open>s\<close>
  of length \<open>Suc n\<close> (all three literals of the program match at least one character),
  \<open>None\<close> when it matches no prefix. \<open>String.prototype.replace\<close> and
  \<open>String.prototype.match\<close> with a global expression scan left to right, take the
  match at the leftmost position and continue after it.
\<close>

type_synonym matcher = "string \<Rightarrow> nat option"

subsection \<open>Global replace and global match\<close>

fun js_replace_all :: "matcher \<Rightarrow> string \<Rightarrow> string \<Rightarrow> string" where
  "js_replace_all m r [] = []"
| "js_replace_all m r (c # cs) =
     (case m (c # cs) of
        None \<Rightarrow> c # js_replace_all m r cs
      | Some n \<Rightarrow> r @ js_replace_all m r (drop n cs))"

text \<open>\<open>(s.match(re) || []).length\<close>: the number of matches a global scan finds.\<close>

fun js_match_count :: "matcher \<Rightarrow> string \<Rightarrow> nat" where
  "js_match_count m [] = 0"
| "js_match_count m (c # cs) =
     (case m (c # cs) of
        None \<Rightarrow> js_match_count m cs
      | Some n \<Rightarrow> Suc (js_match_count m (drop n cs)))"

subsection \<open>The regular expression literals of the program\<close>

text \<open>
  \<open>/<[^>]*>?/gm\<close> (\<open>src/App.tsx\<close>, lines 78 and 91): a \<open><\<close>, then greedily every
  byte that is not \<open>>\<close> (line feeds included: a negated class matches them, and the
  \<open>m\<close> flag only changes \<open>^\<close> and \<open>$\<close>), then the \<open>>\<close> if there is one. The greedy
  star never needs to backtrack, because \<open>>?\<close> also matches the empty string.
\<close>

fun re_tag :: matcher where
  "re_tag [] = None"
| "re_tag (c # cs) =
     (if c = CHR ''<''
      then Some (length (takeWhile (\<lambda>d. d \<noteq> CHR ''>'') cs)
                 + (if CHR ''>'' \<in> set cs then 1 else 0))
      else None)"

text \<open>\<open>/<figure/g\<close> (\<open>src/App.tsx\<close>, line 55): the literal seven bytes.\<close>

definition re_figure :: matcher where
  "re_figure s = (if take 7 s = ''<figure'' then Some 6 else None)"

text \<open>\<open>/\n/g\<close> (\<open>src/App.tsx\<close>, line 94): one line feed.\<close>

fun re_newline :: matcher where
  "re_newline [] = None"
| "re_newline (c # cs) = (if c = lf then Some 0 else None)"

subsection \<open>Decimal rendering of numbers and trimming\<close>

text \<open>
  A template literal \<open>${n}\<close> of a non-negative integer number renders its decimal
  digits without leading zeros.
\<close>

fun js_nat_str :: "nat \<Rightarrow> string" where
  "js_nat_str n =
     (if n < 10 then [char_of (48 + n)]
      else js_nat_str (n div 10) @ [char_of (48 + n mod 10)])"

declare js_nat_str.simps [simp del]

text \<open>Reading decimal digits back, as \<open>Number(s)\<close> does on such a string.\<close>

definition dec_value :: "string \<Rightarrow> nat" where
  "dec_value s = foldl (\<lambda>acc c. 10 * acc + (of_char c - 48)) 0 s"

text \<open>
  \<open>String.prototype.trim\<close>: leading and trailing white space and line terminators.
  Only the ASCII ones are modelled (tab, line feed, vertical tab, form feed, carriage
  return, space); the Unicode space characters beyond ASCII are not.
\<close>

definition js_is_space :: "char \<Rightarrow> bool" where
  "js_is_space c \<longleftrightarrow> of_char c \<in> {9, 10, 11, 12, 13, 32 :: nat}"

definition js_trim :: "string \<Rightarrow> string" where
  "js_trim s = rev (dropWhile js_is_space (rev (dropWhile js_is_space s)))"

text \<open>\<open>Array.prototype.join\<close> on an array of strings.\<close>

fun js_join :: "string \<Rightarrow> string list \<Rightarrow> string" where
  "js_join sep [] = []"
| "js_join sep [x] = x"
| "js_join sep (x # y # xs) = x @ sep @ js_join sep (y # xs)"

subsection \<open>Executable forms of the three scans\<close>

text \<open>
  Stripping tags is a two-state scanner: outside a tag every byte is copied and a
  \<open><\<close> becomes one space; inside a tag every byte is dropped up to and including
  the closing \<open>>\<close>.
\<close>

fun strip_scan :: "bool \<Rightarrow> string \<Rightarrow> string" where
  "strip_scan _ [] = []"
| "strip_scan False (c # cs) =
     (if c = CHR ''<'' then CHR '' '' # strip_scan True cs else c # strip_scan False cs)"
| "strip_scan True (c # cs) =
     (if c = CHR ''>'' then strip_scan False cs else strip_scan True cs)"

definition replace_chars :: "char \<Rightarrow> string \<Rightarrow> string \<Rightarrow> string" where
  "replace_chars c r s = concat (map (\<lambda>d. if d = c then r else [d]) s)"

text \<open>
  No match of \<open>/<figure/\<close> starts in a short suffix of \<open>a\<close> and ends in \<open>b\<close>.
\<close>

definition no_figure_straddle :: "string \<Rightarrow> string \<Rightarrow> bool" where
  "no_figure_straddle a b \<longleftrightarrow>
     (\<forall>s. suffix s a \<longrightarrow> s \<noteq> [] \<longrightarrow> length s < 7 \<longrightarrow> take 7 (s @ b) \<noteq> ''<figure'')"

subsection \<open>Lemmas\<close>

lemma js_replace_all_no_match:
  "(\<And>s. m s = None) \<Longrightarrow> js_replace_all m r t = t"
  by (induction t) auto

lemma js_match_count_no_match:
  "(\<And>s. s \<noteq> [] \<Longrightarrow> suffix s t \<Longrightarrow> m s = None) \<Longrightarrow> js_match_count m t = 0"
proof (induction m t rule: js_match_count.induct)
  case (2 m c cs)
  then have "m (c # cs) = None" by simp
  with 2 show ?case by (auto simp: suffix_ConsI)
qed simp

lemma strip_scan_True:
  "strip_scan True cs = strip_scan False (drop 1 (dropWhile (\<lambda>d. d \<noteq> CHR ''>'') cs))"
  by (induction cs) auto

lemma drop_takeWhile_length:
  "drop (length (takeWhile P cs) + k) cs = drop k (dropWhile P cs)"
  by (induction cs) auto

lemma re_tag_drop:
  assumes "re_tag (CHR ''<'' # cs) = Some n"
  shows "drop n cs = drop 1 (dropWhile (\<lambda>d. d \<noteq> CHR ''>'') cs)"
proof (cases "CHR ''>'' \<in> set cs")
  case True
  with assms show ?thesis
    using drop_takeWhile_length [where P = "\<lambda>d. d \<noteq> CHR ''>''" and k = 1 and cs = cs]
    by simp
next
  case False
  then have nil: "dropWhile (\<lambda>d. d \<noteq> CHR ''>'') cs = []"
    by (auto simp: dropWhile_eq_Nil_conv)
  from False assms show ?thesis
    using drop_takeWhile_length [where P = "\<lambda>d. d \<noteq> CHR ''>''" and k = 0 and cs = cs]
    by (simp add: nil)
qed

lemma js_replace_all_re_tag:
  "js_replace_all re_tag [CHR '' ''] s = strip_scan False s"
proof (induction re_tag "[CHR '' '']" s rule: js_replace_all.induct)
  case (2 c cs)
  show ?case
  proof (cases "c = CHR ''<''")
    case True
    then obtain n where n: "re_tag (c # cs) = Some n" by simp
    with True have "drop n cs = drop 1 (dropWhile (\<lambda>d. d \<noteq> CHR ''>'') cs)"
      by (simp add: re_tag_drop)
    with 2 True n show ?thesis by (simp add: strip_scan_True)
  next
    case False
    with 2 show ?thesis by simp
  qed
qed simp

lemma strip_scan_no_lt: "CHR ''<'' \<notin> set (strip_scan b s)"
  by (induction b s rule: strip_scan.induct) auto

lemma strip_scan_length: "length (strip_scan b s) \<le> length s"
  by (induction b s rule: strip_scan.induct) auto

lemma strip_scan_id: "CHR ''<'' \<notin> set s \<Longrightarrow> strip_scan False s = s"
  by (induction s) auto

lemma js_replace_all_re_newline:
  "js_replace_all re_newline r s = replace_chars lf r s"
  by (induction s) (auto simp: replace_chars_def)

lemma replace_chars_append [simp]:
  "replace_chars c r (a @ b) = replace_chars c r a @ replace_chars c r b"
  by (simp add: replace_chars_def)

lemma replace_chars_id: "c \<notin> set s \<Longrightarrow> replace_chars c r s = s"
  by (induction s) (auto simp: replace_chars_def)

subsubsection \<open>Counting \<open><figure\<close> across a concatenation\<close>

text \<open>
  A match of \<open>/<figure/\<close> in \<open>a @ b\<close> either lies in \<open>a\<close>, or lies in \<open>b\<close>, or
  starts in a short suffix of \<open>a\<close> and ends in \<open>b\<close>. The last case needs \<open>a\<close> to
  end with a proper prefix of \<open><figure\<close> and \<open>b\<close> to start with the rest.
\<close>

lemma figure_straddle:
  assumes "s \<noteq> []" "length s < 7" "take 7 (s @ b) = ''<figure''"
  shows "last s \<in> set ''<figur'' \<and> b \<noteq> [] \<and> hd b \<in> set ''figure''"
proof -
  obtain k where k: "length s = Suc k" "k < 6"
    using assms(1,2) by (cases "length s") auto
  with assms(3) have "s @ take (6 - k) b = ''<figure''"
    by simp
  then have s: "s = take (Suc k) ''<figure''" and b: "take (6 - k) b = drop (Suc k) ''<figure''"
    using k(1) by (metis append_eq_conv_conj)+
  from k(2) have "0 < 6 - k" "Suc k < length ''<figure''" by simp_all
  then have h1: "hd (take (6 - k) b) = hd b"
    by simp
  have h2: "take (6 - k) b \<noteq> []"
    using b k(2) by simp
  have "hd b = hd (drop (Suc k) ''<figure'')"
    using h1 b by metis
  also have "\<dots> = ''<figure'' ! Suc k"
    by (rule hd_drop_conv_nth) fact
  finally have b': "b \<noteq> [] \<and> hd b = ''<figure'' ! Suc k"
    using h2 by auto
  from s k(2) have s': "last s = ''<figure'' ! k"
    by (simp add: last_conv_nth)
  from k(2) have "k = 0 \<or> k = 1 \<or> k = 2 \<or> k = 3 \<or> k = 4 \<or> k = 5" by arith
  with b' s' show ?thesis by (elim disjE) simp_all
qed

lemma suffix_last: "suffix s a \<Longrightarrow> s \<noteq> [] \<Longrightarrow> last s = last a"
  by (auto simp: suffix_def)

lemma no_figure_straddle_head:
  "b = [] \<or> hd b \<notin> set ''figure'' \<Longrightarrow> no_figure_straddle a b"
  using figure_straddle unfolding no_figure_straddle_def by blast

lemma no_figure_straddle_last:
  "a \<noteq> [] \<Longrightarrow> last a \<notin> set ''<figur'' \<Longrightarrow> no_figure_straddle a b"
  using figure_straddle suffix_last unfolding no_figure_straddle_def by metis

lemma no_figure_straddle_suffix:
  "no_figure_straddle a b \<Longrightarrow> suffix a' a \<Longrightarrow> no_figure_straddle a' b"
  unfolding no_figure_straddle_def by (meson suffix_order.order_trans)

lemma re_figure_append:
  assumes "no_figure_straddle (c # cs) b"
  shows "re_figure ((c # cs) @ b) = re_figure (c # cs)"
proof (cases "length (c # cs) < 7")
  case True
  have "take 7 ((c # cs) @ b) \<noteq> ''<figure''"
    using assms True suffix_order.refl [of "c # cs"]
    unfolding no_figure_straddle_def by blast
  moreover have "take 7 (c # cs) \<noteq> ''<figure''"
  proof -
    from True have "take 7 (c # cs) = c # cs" by simp
    moreover from True have "length (c # cs) \<noteq> length ''<figure''" by simp
    ultimately show ?thesis by metis
  qed
  ultimately show ?thesis by (simp only: re_figure_def if_False)
next
  case False
  then show ?thesis by (simp add: re_figure_def)
qed

lemma re_figure_Some:
  assumes "re_figure s = Some n"
  shows "n = 6 \<and> 7 \<le> length s"
proof -
  from assms have t: "take 7 s = ''<figure''" and n: "n = 6"
    by (auto simp: re_figure_def split: if_splits)
  from t have "length (take 7 s) = 7" by simp
  with n show ?thesis by simp
qed

lemma js_match_count_figure_append:
  "no_figure_straddle a b \<Longrightarrow>
   js_match_count re_figure (a @ b) = js_match_count re_figure a + js_match_count re_figure b"
proof (induction re_figure a rule: js_match_count.induct)
  case (2 c cs)
  have "suffix cs (c # cs)" by (rule suffix_ConsI) (rule suffix_order.refl)
  with "2.prems" have sub1: "no_figure_straddle cs b"
    by (rule no_figure_straddle_suffix)
  have "suffix (drop 6 cs) (c # cs)" by (rule suffix_ConsI) (rule suffix_drop)
  with "2.prems" have sub2: "no_figure_straddle (drop 6 cs) b"
    by (rule no_figure_straddle_suffix)
  have eq: "re_figure (c # cs @ b) = re_figure (c # cs)"
    using re_figure_append [OF "2.prems"] by simp
  show ?case
  proof (cases "re_figure (c # cs)")
    case None
    from None eq have "js_match_count re_figure (c # cs @ b) = js_match_count re_figure (cs @ b)"
      by simp
    also have "\<dots> = js_match_count re_figure cs + js_match_count re_figure b"
      by (rule "2.hyps"(1) [OF None sub1])
    finally show ?thesis using None by simp
  next
    case (Some n)
    from re_figure_Some [OF Some] have n: "n = 6" and len: "6 \<le> length cs" by simp_all
    from Some eq n have "js_match_count re_figure (c # cs @ b) = Suc (js_match_count re_figure (drop 6 (cs @ b)))"
      by simp
    also from len have "drop 6 (cs @ b) = drop 6 cs @ b" by simp
    also have "js_match_count re_figure (drop 6 cs @ b) = js_match_count re_figure (drop 6 cs) + js_match_count re_figure b"
      using "2.hyps"(2) [OF Some] n sub2 by simp
    finally show ?thesis using Some n by simp
  qed
qed simp

lemma js_match_count_figure_no_lt:
  assumes "CHR ''<'' \<notin> set s"
  shows "js_match_count re_figure s = 0"
proof (rule js_match_count_no_match)
  fix t assume "t \<noteq> []" "suffix t s"
  with assms have "hd t \<noteq> CHR ''<''"
    by (metis hd_in_set set_mono_suffix subsetD)
  then show "re_figure t = None"
    by (cases t) (simp_all add: re_figure_def)
qed

subsubsection \<open>Decimal digits\<close>

lemma js_nat_str_digits:
  "c \<in> set (js_nat_str n) \<Longrightarrow> 48 \<le> (of_char c :: nat) \<and> (of_char c :: nat) \<le> 57"
proof (induction n rule: js_nat_str.induct)
  case (1 n)
  show ?case
  proof (cases "n < 10")
    case True
    with "1.prems" show ?thesis by (simp add: js_nat_str.simps [of n] of_char_of)
  next
    case False
    with "1.prems" "1.IH" show ?thesis by (auto simp: js_nat_str.simps [of n] of_char_of)
  qed
qed

lemma js_nat_str_no_markup:
  "CHR ''<'' \<notin> set (js_nat_str n)" "CHR ''>'' \<notin> set (js_nat_str n)"
  using js_nat_str_digits [of "CHR ''<''" n] js_nat_str_digits [of "CHR ''>''" n] by auto

lemma js_nat_str_not_Nil [simp]: "js_nat_str n \<noteq> []"
  by (simp add: js_nat_str.simps [of n])

lemma dec_value_snoc: "dec_value (s @ [c]) = 10 * dec_value s + (of_char c - 48)"
  by (simp add: dec_value_def)

lemma dec_value_js_nat_str: "dec_value (js_nat_str n) = n"
proof (induction n rule: js_nat_str.induct)
  case (1 n)
  show ?case
  proof (cases "n < 10")
    case True
    then show ?thesis by (simp add: js_nat_str.simps [of n] dec_value_def)
  next
    case False
    with "1.IH" have "dec_value (js_nat_str (n div 10)) = n div 10" by simp
    with False show ?thesis
      by (simp add: js_nat_str.simps [of n] dec_value_snoc)
  qed
qed

lemma js_nat_str_inj: "js_nat_str m = js_nat_str n \<longleftrightarrow> m = n"
  by (metis dec_value_js_nat_str)

end
