(* ===== verification/Document.thy ===== *)
theory Document
  imports Types JsString
begin

text \<open>
  The document store of \<open>src/App.tsx\<close>: the project seeded at start-up
  (\<open>initialProject\<close>), the lookup of the active section, and the handlers that
  replace the project by a new value (\<open>handleProjectMetaChange\<close>,
  \<open>handleSectionContentChange\<close>, \<open>insertHtmlAtEnd\<close>, \<open>handleInsertImage\<close>).
  The React state \<open>project\<close> is the argument and the result of each handler; the
  functional updates \<open>setProject(prev => ...)\<close> become functions \<open>project \<Rightarrow> project\<close>.
  \<open>editorRef.current.innerHTML\<close>, the live markup of the editing surface, is an
  argument of type \<open>html option\<close> (\<open>None\<close> when the ref is not attached).
\<close>

subsection \<open>The seeded project\<close>

definition initial_project :: project where
  "initial_project =
    \<lparr>proj_id = ''1'', proj_title = [], author = [], template = Monografia,
     sections = [
       \<lparr>sec_id = ''s1'', sec_title = ''Capa'',
        content = ''<h2>[Seu Nome Completo]</h2><h1>[T'' @ i_acute @ ''tulo do Trabalho]</h1><p>[Cidade]</p><p>[Ano]</p>'',
        sec_type = PRE_TEXTUAL\<rparr>,
       \<lparr>sec_id = ''s2'', sec_title = ''Resumo'',
        content = ''<p>Escreva aqui o resumo do seu trabalho...</p>'',
        sec_type = PRE_TEXTUAL\<rparr>,
       \<lparr>sec_id = ''s3'', sec_title = ''Introdu'' @ c_cedil @ a_tilde @ ''o'',
        content = ''<p>A introdu'' @ c_cedil @ a_tilde @ ''o do trabalho aborda o contexto do tema...</p>'',
        sec_type = TEXTUAL\<rparr>,
       \<lparr>sec_id = ''s4'', sec_title = ''Desenvolvimento'',
        content = ''<p>O desenvolvimento aprofunda os conceitos, an'' @ a_acute @ ''lises e resultados...</p>'',
        sec_type = TEXTUAL\<rparr>,
       \<lparr>sec_id = ''s5'', sec_title = ''Conclus'' @ a_tilde @ ''o'',
        content = ''<p>A conclus'' @ a_tilde @ ''o resume os principais pontos e sugere futuras pesquisas...</p>'',
        sec_type = TEXTUAL\<rparr>,
       \<lparr>sec_id = ''s6'', sec_title = ''Refer'' @ e_circ @ ''ncias'',
        content = ''<p>Insira aqui suas refer'' @ e_circ @ ''ncias bibliogr'' @ a_acute @ ''ficas...</p>'',
        sec_type = POST_TEXTUAL\<rparr>]\<rparr>"

text \<open>\<open>useState(project.sections[2].id)\<close>: the third section is active at start.\<close>

definition initial_active_id :: section_id where
  "initial_active_id = sec_id (sections initial_project ! 2)"

subsection \<open>The active section\<close>

text \<open>
  \<open>project.sections.find(s => s.id === activeSectionId)!\<close>: the non-null assertion
  exists only for the type checker; at run time \<open>find\<close> yields \<open>undefined\<close> when no
  section has the id, which is \<open>None\<close> here.
\<close>

definition active_section :: "project \<Rightarrow> section_id \<Rightarrow> doc_section option" where
  "active_section p aid = find (\<lambda>s. sec_id s = aid) (sections p)"

subsection \<open>Handlers that replace the project\<close>

datatype meta_field = Title | Author

fun handleProjectMetaChange :: "meta_field \<Rightarrow> string \<Rightarrow> project \<Rightarrow> project" where
  "handleProjectMetaChange Title v p = p\<lparr>proj_title := v\<rparr>"
| "handleProjectMetaChange Author v p = p\<lparr>author := v\<rparr>"

definition handleSectionContentChange :: "section_id \<Rightarrow> html \<Rightarrow> project \<Rightarrow> project" where
  "handleSectionContentChange aid c p =
     p\<lparr>sections := map (\<lambda>s. if sec_id s = aid then s\<lparr>content := c\<rparr> else s) (sections p)\<rparr>"

text \<open>
  \<open>insertHtmlAtEnd\<close> appends to the markup read from the editing surface, not to the
  content stored in the project; it does nothing when the ref is not attached.
\<close>

definition insertHtmlAtEnd :: "html option \<Rightarrow> section_id \<Rightarrow> html \<Rightarrow> project \<Rightarrow> project" where
  "insertHtmlAtEnd editor aid h p =
     (case editor of
        None \<Rightarrow> p
      | Some cur \<Rightarrow> handleSectionContentChange aid (cur @ h) p)"

subsection \<open>Figures\<close>

definition figure_count :: "doc_section \<Rightarrow> nat" where
  "figure_count sec = js_match_count re_figure (content sec) + 1"

definition image_html :: "string \<Rightarrow> nat \<Rightarrow> year \<Rightarrow> html" where
  \<open>image_html url n y =
     nl @ spaces 12 @ ''<figure class="my-4 text-center" contenteditable="false">'' @ nl
     @ spaces 16 @ ''<img src="'' @ url @ ''" alt="Imagem '' @ js_nat_str n
     @ ''" class="max-w-md h-auto mx-auto rounded-md border border-gray-300 dark:border-gray-600" />'' @ nl
     @ spaces 16 @ ''<figcaption class="mt-2 text-sm text-gray-600 dark:text-gray-400" contenteditable="true">'' @ nl
     @ spaces 20 @ ''Figura '' @ js_nat_str n @ '' - Descreva a imagem aqui.'' @ nl
     @ spaces 20 @ ''<br />'' @ nl
     @ spaces 20 @ ''Fonte: O autor ('' @ js_nat_str y @ '').'' @ nl
     @ spaces 16 @ ''</figcaption>'' @ nl
     @ spaces 12 @ ''</figure>'' @ nl
     @ spaces 12 @ ''<p><br></p>''\<close>

text \<open>
  \<open>handleInsertImage\<close> numbers the figure from the \<open>activeSection\<close> its closure
  captured (reading \<open>.content\<close> of \<open>undefined\<close> is a \<open>TypeError\<close>), and appends
  through \<open>insertHtmlAtEnd\<close> of the same closure.
\<close>

definition handleInsertImage ::
  "doc_section option \<Rightarrow> section_id \<Rightarrow> html option \<Rightarrow> string \<Rightarrow> year \<Rightarrow> project \<Rightarrow> js_error + project" where
  "handleInsertImage sec aid editor url y p =
     (case sec of
        None \<Rightarrow> Inl TypeError
      | Some s \<Rightarrow> Inr (insertHtmlAtEnd editor aid (image_html url (figure_count s) y) p))"

text \<open>
  The fragments of the template literal between its interpolations, used to count the
  \<open><figure\<close> markers of an inserted figure.
\<close>

definition fig_open :: html where
  \<open>fig_open = nl @ spaces 12 @ ''<figure class="my-4 text-center" contenteditable="false">'' @ nl
     @ spaces 16 @ ''<img src="''\<close>

definition fig_alt :: html where
  \<open>fig_alt = ''" alt="Imagem ''\<close>

definition fig_caption :: html where
  \<open>fig_caption = ''" class="max-w-md h-auto mx-auto rounded-md border border-gray-300 dark:border-gray-600" />'' @ nl
     @ spaces 16 @ ''<figcaption class="mt-2 text-sm text-gray-600 dark:text-gray-400" contenteditable="true">'' @ nl
     @ spaces 20 @ ''Figura ''\<close>

definition fig_source :: html where
  \<open>fig_source = '' - Descreva a imagem aqui.'' @ nl @ spaces 20 @ ''<br />'' @ nl
     @ spaces 20 @ ''Fonte: O autor (''\<close>

definition fig_close :: html where
  \<open>fig_close = '').'' @ nl @ spaces 16 @ ''</figcaption>'' @ nl @ spaces 12 @ ''</figure>'' @ nl
     @ spaces 12 @ ''<p><br></p>''\<close>

subsection \<open>Markup built from model text\<close>

text \<open>\<open>x.replace(/<[^>]*>?/gm, ' ')\<close> (lines 78 and 91).\<close>

definition strip_html :: "string \<Rightarrow> string" where
  "strip_html s = js_replace_all re_tag [CHR '' ''] s"

text \<open>\<open>`<p>${newText.replace(/\n/g, '</p><p>')}</p>`\<close> (line 94).\<close>

definition text_paragraphs :: "string \<Rightarrow> html" where
  "text_paragraphs t = ''<p>'' @ js_replace_all re_newline ''</p><p>'' t @ ''</p>''"

text \<open>
  The text of the final review (lines 73 to 76): the textual sections, each as its
  title in an \<open><h2>\<close> followed by its content, joined by \<open><hr>\<close>.
\<close>

definition review_full_text :: "project \<Rightarrow> html" where
  "review_full_text p =
     js_join ''<hr>''
       (map (\<lambda>s. ''<h2>'' @ sec_title s @ ''</h2>'' @ content s)
          (filter (\<lambda>s. sec_type s = TEXTUAL) (sections p)))"

subsection \<open>Invariants and abstraction\<close>

text \<open>
  Section ids are unique, and the outline of a project (ids, titles and types of its
  sections, in order) is what no handler may change: the handlers only rewrite
  contents and the project's meta data.
\<close>

definition wf_project :: "project \<Rightarrow> bool" where
  "wf_project p \<longleftrightarrow> distinct (map sec_id (sections p))"

definition outline :: "project \<Rightarrow> (section_id \<times> string \<times> section_type) list" where
  "outline p = map (\<lambda>s. (sec_id s, sec_title s, sec_type s)) (sections p)"

text \<open>The abstract view of the store: section id to content.\<close>

definition contents :: "project \<Rightarrow> section_id \<rightharpoonup> html" where
  "contents p = map_of (map (\<lambda>s. (sec_id s, content s)) (sections p))"

subsection \<open>Lemmas\<close>

lemmas doc_defs [doc_ops] = handleSectionContentChange_def insertHtmlAtEnd_def
  handleInsertImage_def active_section_def

lemma outline_handleSectionContentChange [simp]:
  "outline (handleSectionContentChange aid c p) = outline p"
  by (simp add: outline_def handleSectionContentChange_def)

lemma ids_handleSectionContentChange [simp]:
  "map sec_id (sections (handleSectionContentChange aid c p)) = map sec_id (sections p)"
  by (simp add: handleSectionContentChange_def)

lemma meta_handleSectionContentChange [simp]:
  "proj_title (handleSectionContentChange aid c p) = proj_title p"
  "author (handleSectionContentChange aid c p) = author p"
  by (simp_all add: handleSectionContentChange_def)

lemma sections_handleProjectMetaChange [simp]:
  "sections (handleProjectMetaChange f v p) = sections p"
  by (cases f) simp_all

lemma outline_insertHtmlAtEnd [simp]:
  "outline (insertHtmlAtEnd e aid h p) = outline p"
  by (simp add: insertHtmlAtEnd_def split: option.split)

lemma ids_insertHtmlAtEnd [simp]:
  "map sec_id (sections (insertHtmlAtEnd e aid h p)) = map sec_id (sections p)"
  by (simp add: insertHtmlAtEnd_def split: option.split)

lemma wf_project_outline: "outline p' = outline p \<Longrightarrow> wf_project p' = wf_project p"
  unfolding wf_project_def outline_def
  by (metis (no_types, lifting) list.map_comp fst_conv comp_apply map_eq_conv)

lemma outline_map_sec_type: "outline p = outline q \<Longrightarrow> map sec_type (sections p) = map sec_type (sections q)"
  unfolding outline_def by (drule arg_cong [where f = "map (\<lambda>(a, b, c). c)"]) (simp add: comp_def)

lemma outline_map_sec_id: "outline p = outline q \<Longrightarrow> map sec_id (sections p) = map sec_id (sections q)"
  unfolding outline_def by (drule arg_cong [where f = "map fst"]) (simp add: comp_def)

lemma active_section_handleSectionContentChange_same [simp]:
  "active_section (handleSectionContentChange aid c p) aid =
   map_option (\<lambda>s. s\<lparr>content := c\<rparr>) (active_section p aid)"
  unfolding active_section_def handleSectionContentChange_def
  by (simp add: find_map_if_same)

lemma active_section_handleSectionContentChange_other:
  "j \<noteq> aid \<Longrightarrow> active_section (handleSectionContentChange aid c p) j = active_section p j"
  unfolding active_section_def handleSectionContentChange_def
  by (simp add: find_map_if_other)

lemma active_section_Some: "active_section p aid = Some s \<Longrightarrow> s \<in> set (sections p) \<and> sec_id s = aid"
  by (auto simp: active_section_def find_Some_iff)

lemma active_section_None_iff: "active_section p aid = None \<longleftrightarrow> aid \<notin> set (map sec_id (sections p))"
  by (auto simp: active_section_def find_None_iff)

lemma active_section_handleProjectMetaChange [simp]:
  "active_section (handleProjectMetaChange f v p) aid = active_section p aid"
  by (simp add: active_section_def)

lemma map_of_map_update:
  "map_of (map (\<lambda>s. (sec_id s, content s))
     (map (\<lambda>s. if sec_id s = aid then s\<lparr>content := c\<rparr> else s) xs)) =
   (if aid \<in> set (map sec_id xs) then (map_of (map (\<lambda>s. (sec_id s, content s)) xs))(aid \<mapsto> c)
    else map_of (map (\<lambda>s. (sec_id s, content s)) xs))"
  by (induction xs) (auto simp: fun_upd_twist)

lemma contents_handleSectionContentChange_other:
  "k \<noteq> aid \<Longrightarrow> contents (handleSectionContentChange aid c p) k = contents p k"
proof -
  assume k: "k \<noteq> aid"
  have s: "sections (handleSectionContentChange aid c p) =
           map (\<lambda>s. if sec_id s = aid then s\<lparr>content := c\<rparr> else s) (sections p)"
    by (simp add: handleSectionContentChange_def)
  show ?thesis
    by (simp only: contents_def s map_of_map_update) (simp add: k)
qed

lemma contents_insertHtmlAtEnd_other:
  "k \<noteq> aid \<Longrightarrow> contents (insertHtmlAtEnd e aid h p) k = contents p k"
  by (cases e) (simp_all add: insertHtmlAtEnd_def contents_handleSectionContentChange_other)

lemma contents_handleInsertImage_other:
  "handleInsertImage sec aid e url y p = Inr p' \<Longrightarrow> k \<noteq> aid \<Longrightarrow> contents p' k = contents p k"
  by (auto simp: handleInsertImage_def contents_insertHtmlAtEnd_other split: option.splits)

text \<open>
  C15: \<open>handleSectionContentChange\<close> refines the abstract store (section id to content): it updates the content of the active id when a section has that id, and changes nothing otherwise.
\<close>

lemma contents_handleSectionContentChange:
  "contents (handleSectionContentChange aid c p) =
   (if aid \<in> set (map sec_id (sections p)) then (contents p)(aid \<mapsto> c) else contents p)"
proof -
  have s: "sections (handleSectionContentChange aid c p) =
           map (\<lambda>s. if sec_id s = aid then s\<lparr>content := c\<rparr> else s) (sections p)"
    by (simp add: handleSectionContentChange_def)
  show ?thesis
    by (simp only: contents_def s map_of_map_update)
qed

lemma count_figure_split_last:
  "a \<noteq> [] \<Longrightarrow> last a \<notin> set ''<figur'' \<Longrightarrow>
   js_match_count re_figure (a @ b) = js_match_count re_figure a + js_match_count re_figure b"
  by (intro js_match_count_figure_append no_figure_straddle_last)

lemma count_figure_split_hd:
  "x \<noteq> [] \<Longrightarrow> hd x \<notin> set ''figure'' \<Longrightarrow>
   js_match_count re_figure (a @ x @ r) = js_match_count re_figure a + js_match_count re_figure (x @ r)"
  by (intro js_match_count_figure_append no_figure_straddle_head) simp

lemma count_figure_split_hd_end:
  "x \<noteq> [] \<Longrightarrow> hd x \<notin> set ''figure'' \<Longrightarrow>
   js_match_count re_figure (a @ x) = js_match_count re_figure a + js_match_count re_figure x"
  by (intro js_match_count_figure_append no_figure_straddle_head) simp

lemma image_html_fragments:
  "image_html url n y =
   fig_open @ url @ fig_alt @ js_nat_str n @ fig_caption @ js_nat_str n @ fig_source @ js_nat_str y @ fig_close"
  by (simp add: image_html_def fig_open_def fig_alt_def fig_caption_def fig_source_def fig_close_def)

lemma fig_fragment_ends:
  "fig_open \<noteq> [] \<and> last fig_open \<notin> set ''<figur''"
  "fig_alt \<noteq> [] \<and> hd fig_alt \<notin> set ''figure'' \<and> last fig_alt \<notin> set ''<figur''"
  "fig_caption \<noteq> [] \<and> hd fig_caption \<notin> set ''figure'' \<and> last fig_caption \<notin> set ''<figur''"
  "fig_source \<noteq> [] \<and> hd fig_source \<notin> set ''figure'' \<and> last fig_source \<notin> set ''<figur''"
  "fig_close \<noteq> [] \<and> hd fig_close \<notin> set ''figure''"
  by (simp_all add: fig_open_def fig_alt_def fig_caption_def fig_source_def fig_close_def)

lemma fig_fragment_counts:
  "js_match_count re_figure fig_open = 1" "js_match_count re_figure fig_alt = 0"
  "js_match_count re_figure fig_caption = 0" "js_match_count re_figure fig_source = 0"
  "js_match_count re_figure fig_close = 0"
  by (simp_all add: fig_open_def fig_alt_def fig_caption_def fig_source_def fig_close_def re_figure_def)

lemma image_html_figures:
  assumes "CHR ''<'' \<notin> set url"
  shows "js_match_count re_figure (image_html url n y) = 1"
proof -
  note e = fig_fragment_ends
  have "js_match_count re_figure (image_html url n y) =
        js_match_count re_figure fig_open + js_match_count re_figure url
        + js_match_count re_figure fig_alt + js_match_count re_figure (js_nat_str n)
        + js_match_count re_figure fig_caption + js_match_count re_figure (js_nat_str n)
        + js_match_count re_figure fig_source + js_match_count re_figure (js_nat_str y)
        + js_match_count re_figure fig_close"
    unfolding image_html_fragments
    by (simp only: count_figure_split_last [OF conjunct1 [OF e(1)] conjunct2 [OF e(1)]]
        count_figure_split_hd [OF conjunct1 [OF e(2)] conjunct1 [OF conjunct2 [OF e(2)]]]
        count_figure_split_last [OF conjunct1 [OF e(2)] conjunct2 [OF conjunct2 [OF e(2)]]]
        count_figure_split_hd [OF conjunct1 [OF e(3)] conjunct1 [OF conjunct2 [OF e(3)]]]
        count_figure_split_last [OF conjunct1 [OF e(3)] conjunct2 [OF conjunct2 [OF e(3)]]]
        count_figure_split_hd [OF conjunct1 [OF e(4)] conjunct1 [OF conjunct2 [OF e(4)]]]
        count_figure_split_last [OF conjunct1 [OF e(4)] conjunct2 [OF conjunct2 [OF e(4)]]]
        count_figure_split_hd_end [OF conjunct1 [OF e(5)] conjunct2 [OF e(5)]]
        append_assoc add.assoc)
  with assms show ?thesis
    by (simp add: fig_fragment_counts js_match_count_figure_no_lt js_nat_str_no_markup)
qed
lemma active_section_insertHtmlAtEnd [simp]:
  "active_section (insertHtmlAtEnd (Some cur) aid h p) aid =
   map_option (\<lambda>s. s\<lparr>content := cur @ h\<rparr>) (active_section p aid)"
  by (simp add: insertHtmlAtEnd_def)

lemma insertHtmlAtEnd_None [simp]: "insertHtmlAtEnd None aid h p = p"
  by (simp add: insertHtmlAtEnd_def)

text \<open>
  C14: appending fragments one after the other through \<open>insertHtmlAtEnd\<close>, while the editing surface shows the stored content, leaves the active section with its old content followed by the fragments in call order; the content only grows.
\<close>

lemma insertHtmlAtEnd_sequence:
  "active_section p aid = Some s \<Longrightarrow>
   active_section (fold (\<lambda>h q. insertHtmlAtEnd (map_option content (active_section q aid)) aid h q) hs p) aid =
   Some (s\<lparr>content := content s @ concat hs\<rparr>)"
proof (induction hs arbitrary: p s)
  case Nil
  then show ?case by simp
next
  case (Cons h hs)
  let ?q = "insertHtmlAtEnd (Some (content s)) aid h p"
  from Cons.prems have "active_section ?q aid = Some (s\<lparr>content := content s @ h\<rparr>)"
    by simp
  from Cons.IH [OF this] Cons.prems show ?case by simp
qed

lemma image_html_head: "image_html url n y \<noteq> [] \<and> hd (image_html url n y) = lf"
  by (simp add: image_html_def)

lemma figure_count_append_image:
  "CHR ''<'' \<notin> set url \<Longrightarrow>
   figure_count (s\<lparr>content := content s @ image_html url n y\<rparr>) = figure_count s + 1"
  using count_figure_split_hd_end [of "image_html url n y" "content s"] image_html_head
    image_html_figures
  by (simp add: figure_count_def)

text \<open>
  C16: the tag stripping of the editor, \<open>s.replace(/<[^>]*>?/gm, ' ')\<close>, equals a two-state scanner that copies text, turns each \<open><\<close> into one space and drops the tag up to its \<open>>\<close>.
\<close>

lemma strip_html_scan: "strip_html s = strip_scan False s"
  by (simp add: strip_html_def js_replace_all_re_tag)

lemma text_paragraphs_replace_chars:
  "text_paragraphs t = ''<p>'' @ replace_chars lf ''</p><p>'' t @ ''</p>''"
  by (simp add: text_paragraphs_def js_replace_all_re_newline)

lemma filter_map_if_other:
  "(\<And>x. x \<in> set xs \<Longrightarrow> P x \<Longrightarrow> \<not> Q x) \<Longrightarrow> (\<And>x. P (g x) = P x) \<Longrightarrow>
   filter P (map (\<lambda>x. if Q x then g x else x) xs) = filter P xs"
  by (induction xs) auto

text \<open>
  C18: editing a pre-textual or post-textual section does not change the text the final review sends: only the textual sections enter it.
\<close>

lemma review_full_text_non_textual:
  assumes "wf_project p" "active_section p aid = Some s" "sec_type s \<noteq> TEXTUAL"
  shows "review_full_text (handleSectionContentChange aid c p) = review_full_text p"
proof -
  have "\<And>x. x \<in> set (sections p) \<Longrightarrow> sec_id x = aid \<Longrightarrow> x = s"
    using assms(1,2) active_section_Some [OF assms(2)]
    by (auto simp: wf_project_def dest: inj_onD [OF distinct_map [THEN iffD1, THEN conjunct2]])
  with assms(3) have "filter (\<lambda>x. sec_type x = TEXTUAL)
      (map (\<lambda>x. if sec_id x = aid then x\<lparr>content := c\<rparr> else x) (sections p)) =
      filter (\<lambda>x. sec_type x = TEXTUAL) (sections p)"
    by (intro filter_map_if_other) auto
  then show ?thesis
    by (simp add: review_full_text_def handleSectionContentChange_def)
qed

text \<open>
  C8: inserting an image into a section whose content holds \<open>k\<close> figure markers labels it \<open>Figura k+1\<close> and appends the figure markup, after which the section holds \<open>k+1\<close> markers, when the image URL contains no \<open><\<close> (true of every data URL).
\<close>

lemma handleInsertImage_numbering:
  assumes "active_section p aid = Some s" "CHR ''<'' \<notin> set url"
  shows "\<exists>p' s'. handleInsertImage (Some s) aid (Some (content s)) url y p = Inr p' \<and>
           active_section p' aid = Some s' \<and>
           content s' = content s @ image_html url (js_match_count re_figure (content s) + 1) y \<and>
           figure_count s' = figure_count s + 1"
proof -
  let ?h = "image_html url (figure_count s) y"
  let ?p' = "insertHtmlAtEnd (Some (content s)) aid ?h p"
  let ?s' = "s\<lparr>content := content s @ ?h\<rparr>"
  have a: "handleInsertImage (Some s) aid (Some (content s)) url y p = Inr ?p'"
    by (simp add: handleInsertImage_def)
  have b: "active_section ?p' aid = Some ?s'"
    using assms(1) by simp
  have c: "figure_count ?s' = figure_count s + 1"
    using assms(2) by (rule figure_count_append_image)
  have d: "content ?s' = content s @ image_html url (js_match_count re_figure (content s) + 1) y"
    by (simp add: figure_count_def)
  from a b c d show ?thesis by blast
qed

lemma initial_project_props:
  "wf_project initial_project"
  "sorted (map sec_type (sections initial_project))"
  "active_section initial_project initial_active_id = Some (sections initial_project ! 2)"
  "sec_type (sections initial_project ! 2) = TEXTUAL"
  "\<forall>s \<in> set (sections initial_project). js_match_count re_figure (content s) = 0"
  by (simp_all add: wf_project_def initial_project_def initial_active_id_def active_section_def
      re_figure_def less_eq_section_type_def)

text \<open>
  C17: the text sent to the provider after stripping contains no \<open><\<close> at all, and is never longer than the markup it came from.
\<close>

lemma strip_html_no_markup:
  "CHR ''<'' \<notin> set (strip_html s) \<and> length (strip_html s) \<le> length s"
  by (simp add: strip_html_def js_replace_all_re_tag strip_scan_no_lt strip_scan_length)

lemma strip_scan_paragraph_breaks:
  "CHR ''<'' \<notin> set t \<Longrightarrow>
   strip_scan False (replace_chars lf ''</p><p>'' t @ u) = replace_chars lf ''  '' t @ strip_scan False u"
  by (induction t) (auto simp: replace_chars_def)

text \<open>
  C21: the text a continuation inserts is recovered by the stripping the next prompt and the review apply: the paragraph markup becomes spaces, each line break two spaces, and the text is otherwise unchanged (when it contains no \<open><\<close>).
\<close>

lemma strip_text_paragraphs:
  "CHR ''<'' \<notin> set t \<Longrightarrow> strip_html (text_paragraphs t) = '' '' @ replace_chars lf ''  '' t @ '' ''"
  by (simp add: strip_html_def text_paragraphs_replace_chars js_replace_all_re_tag strip_scan_paragraph_breaks)

theorem insertHtmlAtEnd_sequence_witness:
  "active_section initial_project ''s3'' = Some (sections initial_project ! 2) \<and>
   active_section (fold (\<lambda>h q. insertHtmlAtEnd (map_option content (active_section q ''s3'')) ''s3'' h q)
      [''<p>a</p>'', ''<p>b</p>''] initial_project) ''s3'' =
   Some ((sections initial_project ! 2)\<lparr>content := content (sections initial_project ! 2) @ ''<p>a</p><p>b</p>''\<rparr>)"
proof -
  have a: "active_section initial_project ''s3'' = Some (sections initial_project ! 2)"
    by (simp add: active_section_def initial_project_def)
  from a insertHtmlAtEnd_sequence [OF a, of "[''<p>a</p>'', ''<p>b</p>'']"] show ?thesis by simp
qed

theorem handleInsertImage_numbering_witness:
  "active_section initial_project ''s3'' = Some (sections initial_project ! 2) \<and>
   CHR ''<'' \<notin> set ''data:image/png;base64,AAA'' \<and>
   (\<exists>p' s'. handleInsertImage (Some (sections initial_project ! 2)) ''s3''
        (Some (content (sections initial_project ! 2))) ''data:image/png;base64,AAA'' 2025 initial_project = Inr p' \<and>
      active_section p' ''s3'' = Some s' \<and>
      content s' = content (sections initial_project ! 2) @ image_html ''data:image/png;base64,AAA'' 1 2025 \<and>
      figure_count s' = figure_count (sections initial_project ! 2) + 1)"
proof -
  have a: "active_section initial_project ''s3'' = Some (sections initial_project ! 2)"
    by (simp add: active_section_def initial_project_def)
  have u: "CHR ''<'' \<notin> set ''data:image/png;base64,AAA''" by simp
  have z: "js_match_count re_figure (content (sections initial_project ! 2)) = 0"
    by (simp add: initial_project_def re_figure_def)
  from a u z handleInsertImage_numbering [OF a u, of 2025] show ?thesis by simp
qed

theorem review_full_text_non_textual_witness:
  "wf_project initial_project \<and> active_section initial_project ''s1'' = Some (sections initial_project ! 0) \<and>
   sec_type (sections initial_project ! 0) \<noteq> TEXTUAL \<and>
   review_full_text (handleSectionContentChange ''s1'' ''x'' initial_project) = review_full_text initial_project"
proof -
  have w: "wf_project initial_project" by (rule initial_project_props(1))
  have a: "active_section initial_project ''s1'' = Some (sections initial_project ! 0)"
    by (simp add: active_section_def initial_project_def)
  have t: "sec_type (sections initial_project ! 0) \<noteq> TEXTUAL" by (simp add: initial_project_def)
  from w a t review_full_text_non_textual [OF w a t] show ?thesis by blast
qed

theorem strip_text_paragraphs_witness:
  "CHR ''<'' \<notin> set (''a'' @ nl @ ''b'') \<and> strip_html (text_paragraphs (''a'' @ nl @ ''b'')) = '' a  b ''"
  using strip_text_paragraphs [of "''a'' @ nl @ ''b''"] by (simp add: replace_chars_def)

end
