(* ===== verification/Json.thy ===== *)
theory Json
  imports Prelude
begin

text \<open>
  JSON values and \<open>JSON.parse\<close>, which \<open>conductFinalReview\<close>
  (\<open>src/services/geminiService.ts\<close>) applies to the provider's reply. \<open>JSON.parse\<close>
  is a library function, modelled from the JSON grammar (ECMA-404): white space,
  literals, numbers, strings with escapes, arrays and objects. A number keeps its
  literal text; only whether it is zero matters to the program (JavaScript truthiness).
  A \<open>\u\<close> escape is decoded to the UTF-8 bytes of its code unit; a surrogate pair
  is not combined into one code point (not modelled). The parser is structural in a
  fuel argument; \<open>json_parse\<close> gives it one unit more than the length of the input,
  and every nested value consumes at least one byte.
\<close>

datatype json =
  JNull
| JBool bool
| JNum string
| JStr string
| JArr "json list"
| JObj "(string \<times> json) list"

subsection \<open>Lexical parts\<close>

definition json_is_ws :: "char \<Rightarrow> bool" where
  "json_is_ws c \<longleftrightarrow> c \<in> {CHR '' '', CHR 0x09, CHR 0x0A, CHR 0x0D}"

definition json_ws :: "string \<Rightarrow> string" where
  "json_ws s = dropWhile json_is_ws s"

definition is_digit :: "char \<Rightarrow> bool" where
  "is_digit c \<longleftrightarrow> 48 \<le> (of_char c :: nat) \<and> (of_char c :: nat) \<le> 57"

definition hex_value :: "char \<Rightarrow> nat option" where
  "hex_value c =
     (if is_digit c then Some (of_char c - 48)
      else if 97 \<le> (of_char c :: nat) \<and> (of_char c :: nat) \<le> 102 then Some (of_char c - 87)
      else if 65 \<le> (of_char c :: nat) \<and> (of_char c :: nat) \<le> 70 then Some (of_char c - 55)
      else None)"

definition parse_hex4 :: "string \<Rightarrow> nat option" where
  "parse_hex4 s =
     (if length s = 4 \<and> list_all (\<lambda>c. hex_value c \<noteq> None) s
      then Some (foldl (\<lambda>acc c. 16 * acc + (case hex_value c of Some d \<Rightarrow> d | None \<Rightarrow> 0)) 0 s)
      else None)"

definition utf8_encode :: "nat \<Rightarrow> string" where
  "utf8_encode cp =
     (if cp < 128 then [char_of cp]
      else if cp < 2048 then [char_of (192 + cp div 64), char_of (128 + cp mod 64)]
      else [char_of (224 + cp div 4096), char_of (128 + (cp div 64) mod 64), char_of (128 + cp mod 64)])"

definition json_escape :: "char \<Rightarrow> char option" where
  "json_escape e =
     (if e = CHR 0x22 then Some (CHR 0x22)
      else if e = CHR 0x5C then Some (CHR 0x5C)
      else if e = CHR ''/'' then Some (CHR ''/'')
      else if e = CHR ''b'' then Some (CHR 0x08)
      else if e = CHR ''f'' then Some (CHR 0x0C)
      else if e = CHR ''n'' then Some (CHR 0x0A)
      else if e = CHR ''r'' then Some (CHR 0x0D)
      else if e = CHR ''t'' then Some (CHR 0x09)
      else None)"

text \<open>The body of a string literal after its opening quote; \<open>acc\<close> is reversed.\<close>

fun parse_str_body :: "string \<Rightarrow> string \<Rightarrow> (string \<times> string) option" where
  "parse_str_body acc [] = None"
| "parse_str_body acc (c # cs) =
     (if c = CHR 0x22 then Some (rev acc, cs)
      else if c = CHR 0x5C then
        (case cs of
           [] \<Rightarrow> None
         | e # es \<Rightarrow>
             if e = CHR ''u'' then
               (case parse_hex4 (take 4 es) of
                  None \<Rightarrow> None
                | Some cp \<Rightarrow> parse_str_body (rev (utf8_encode cp) @ acc) (drop 4 es))
             else
               (case json_escape e of
                  None \<Rightarrow> None
                | Some d \<Rightarrow> parse_str_body (d # acc) es))
      else if of_char c < (32 :: nat) then None
      else parse_str_body (c # acc) cs)"

text \<open>\<open>-? (0 | [1-9][0-9]* ) (. [0-9]+)? ([eE] [+-]? [0-9]+)?\<close>, returning the literal.\<close>

definition parse_digits1 :: "string \<Rightarrow> (string \<times> string) option" where
  "parse_digits1 s = (let d = takeWhile is_digit s in if d = [] then None else Some (d, drop (length d) s))"

definition parse_int_part :: "string \<Rightarrow> (string \<times> string) option" where
  "parse_int_part s =
     (case s of
        [] \<Rightarrow> None
      | c # cs \<Rightarrow> if c = CHR ''0'' then Some ([c], cs) else if is_digit c then parse_digits1 s else None)"

definition parse_frac :: "string \<Rightarrow> (string \<times> string) option" where
  "parse_frac s =
     (case s of
        c # cs \<Rightarrow> if c = CHR ''.'' then map_option (\<lambda>(d, r). (c # d, r)) (parse_digits1 cs) else Some ([], s)
      | [] \<Rightarrow> Some ([], s))"

definition parse_exp :: "string \<Rightarrow> (string \<times> string) option" where
  "parse_exp s =
     (case s of
        c # cs \<Rightarrow>
          if c = CHR ''e'' \<or> c = CHR ''E'' then
            (case cs of
               d # ds \<Rightarrow>
                 if d = CHR ''+'' \<or> d = CHR ''-'' then map_option (\<lambda>(x, r). (c # d # x, r)) (parse_digits1 ds)
                 else map_option (\<lambda>(x, r). (c # x, r)) (parse_digits1 cs)
             | [] \<Rightarrow> None)
          else Some ([], s)
      | [] \<Rightarrow> Some ([], s))"

definition parse_number :: "string \<Rightarrow> (string \<times> string) option" where
  "parse_number s =
     (let (sg, s1) = (if s \<noteq> [] \<and> hd s = CHR ''-'' then (''-'', tl s) else ([], s)) in
      case parse_int_part s1 of
        None \<Rightarrow> None
      | Some (i, s2) \<Rightarrow>
          (case parse_frac s2 of
             None \<Rightarrow> None
           | Some (f, s3) \<Rightarrow>
               (case parse_exp s3 of
                  None \<Rightarrow> None
                | Some (e, s4) \<Rightarrow> Some (sg @ i @ f @ e, s4))))"

subsection \<open>Values\<close>

definition starts :: "char \<Rightarrow> string \<Rightarrow> bool" where
  "starts c s \<longleftrightarrow> s \<noteq> [] \<and> hd s = c"

fun parse_value :: "nat \<Rightarrow> string \<Rightarrow> (json \<times> string) option"
and parse_elems :: "nat \<Rightarrow> string \<Rightarrow> (json list \<times> string) option"
and parse_members :: "nat \<Rightarrow> string \<Rightarrow> ((string \<times> json) list \<times> string) option" where
  "parse_value 0 s = None"
| "parse_value (Suc f) s =
     (let t = json_ws s in
      if starts CHR ''{'' t then
        (if starts CHR ''}'' (json_ws (tl t)) then Some (JObj [], tl (json_ws (tl t)))
         else map_option (\<lambda>(kvs, r). (JObj kvs, r)) (parse_members f (tl t)))
      else if starts CHR ''['' t then
        (if starts CHR '']'' (json_ws (tl t)) then Some (JArr [], tl (json_ws (tl t)))
         else map_option (\<lambda>(vs, r). (JArr vs, r)) (parse_elems f (tl t)))
      else if starts (CHR 0x22) t then map_option (\<lambda>(x, r). (JStr x, r)) (parse_str_body [] (tl t))
      else if take 4 t = ''null'' then Some (JNull, drop 4 t)
      else if take 4 t = ''true'' then Some (JBool True, drop 4 t)
      else if take 5 t = ''false'' then Some (JBool False, drop 5 t)
      else map_option (\<lambda>(x, r). (JNum x, r)) (parse_number t))"
| "parse_elems 0 s = None"
| "parse_elems (Suc f) s =
     (case parse_value f s of
        None \<Rightarrow> None
      | Some (v, r) \<Rightarrow>
          (let r' = json_ws r in
           if starts CHR '','' r' then
             map_option (\<lambda>(vs, r''). (v # vs, r'')) (parse_elems f (tl r'))
           else if starts CHR '']'' r' then Some ([v], tl r')
           else None))"
| "parse_members 0 s = None"
| "parse_members (Suc f) s =
     (let t = json_ws s in
      if starts (CHR 0x22) t then
        (case parse_str_body [] (tl t) of
           None \<Rightarrow> None
         | Some (k, r) \<Rightarrow>
             (let r1 = json_ws r in
              if starts CHR '':'' r1 then
                (case parse_value f (tl r1) of
                   None \<Rightarrow> None
                 | Some (v, r2) \<Rightarrow>
                     (let r3 = json_ws r2 in
                      if starts CHR '','' r3 then
                        map_option (\<lambda>(kvs, r4). ((k, v) # kvs, r4)) (parse_members f (tl r3))
                      else if starts CHR ''}'' r3 then Some ([(k, v)], tl r3)
                      else None))
              else None))
      else None)"

text \<open>\<open>JSON.parse(s)\<close>: a value followed by white space only; \<open>None\<close> is the thrown \<open>SyntaxError\<close>.\<close>

definition json_parse :: "string \<Rightarrow> json option" where
  "json_parse s =
     (case parse_value (Suc (length s)) s of
        None \<Rightarrow> None
      | Some (v, r) \<Rightarrow> if json_ws r = [] then Some v else None)"

subsection \<open>JavaScript's view of a parsed value\<close>

text \<open>Truthiness: \<open>null\<close>, \<open>false\<close>, a zero number and the empty string are falsy.\<close>

fun json_truthy :: "json \<Rightarrow> bool" where
  "json_truthy JNull = False"
| "json_truthy (JBool b) = b"
| "json_truthy (JNum n) =
     list_ex (\<lambda>c. is_digit c \<and> c \<noteq> CHR ''0'') (takeWhile (\<lambda>c. c \<noteq> CHR ''e'' \<and> c \<noteq> CHR ''E'') n)"
| "json_truthy (JStr s) = (s \<noteq> [])"
| "json_truthy (JArr _) = True"
| "json_truthy (JObj _) = True"

text \<open>
  Property access \<open>v.k\<close>: on an object the last member with the key (\<open>JSON.parse\<close>
  keeps the last of duplicate keys); \<open>None\<close> is \<open>undefined\<close>. Reading a property of
  \<open>null\<close> is a \<open>TypeError\<close>; of any other primitive it yields \<open>undefined\<close> (the
  prototype properties of strings and arrays are not among the keys the program reads).
\<close>

fun json_get :: "json \<Rightarrow> string \<Rightarrow> js_error + json option" where
  "json_get JNull k = Inl TypeError"
| "json_get (JObj kvs) k = Inr (map_of (rev kvs) k)"
| "json_get _ k = Inr None"

subsection \<open>The fuel of the parser is enough\<close>

text \<open>
  \<open>fuel_ok p s x r\<close>: the parse of \<open>s\<close> into \<open>x\<close> with rest \<open>r\<close> consumes input, and
  every fuel of at least the number of consumed bytes gives it.
\<close>

definition fuel_ok :: "(nat \<Rightarrow> string \<Rightarrow> ('a \<times> string) option) \<Rightarrow> string \<Rightarrow> 'a \<Rightarrow> string \<Rightarrow> bool" where
  "fuel_ok p s x r \<longleftrightarrow> length r < length s \<and> (\<forall>g. length s - length r \<le> g \<longrightarrow> p g s = Some (x, r))"

subsubsection \<open>Every parser consumes input\<close>

lemma json_ws_length: "length (json_ws s) \<le> length s"
  by (simp add: json_ws_def length_dropWhile_le)

lemma parse_str_body_length: "parse_str_body acc s = Some (k, r) \<Longrightarrow> length r < length s"
proof (induction acc s rule: parse_str_body.induct)
  case (2 acc c cs)
  show ?case
  proof (cases "c = CHR 0x22 \<or> c \<noteq> CHR 0x5C")
    case True
    with "2.prems" "2.IH"(3) show ?thesis by (auto split: if_splits)
  next
    case False
    then obtain e es where cs: "cs = e # es" using "2.prems" by (cases cs) auto
    show ?thesis
    proof (cases "e = CHR ''u''")
      case True
      with False cs "2.prems" obtain cp where "parse_hex4 (take 4 es) = Some cp"
        "parse_str_body (rev (utf8_encode cp) @ acc) (drop 4 es) = Some (k, r)"
        by (auto split: option.splits)
      with "2.IH"(1) [OF _ _ cs True] False cs show ?thesis by fastforce
    next
      case e: False
      with False cs "2.prems" obtain d where "json_escape e = Some d"
        "parse_str_body (d # acc) es = Some (k, r)"
        by (auto split: option.splits)
      with "2.IH"(2) [OF _ _ cs e] False cs show ?thesis by fastforce
    qed
  qed
qed simp

lemma parse_digits1_length: "parse_digits1 s = Some (d, r) \<Longrightarrow> length r < length s"
  by (cases s) (auto simp: parse_digits1_def Let_def split: if_splits)

lemma parse_int_part_length: "parse_int_part s = Some (d, r) \<Longrightarrow> length r < length s"
  by (cases s) (auto simp: parse_int_part_def dest: parse_digits1_length split: if_splits)

lemma parse_frac_length: "parse_frac s = Some (d, r) \<Longrightarrow> length r \<le> length s"
  by (cases s) (auto simp: parse_frac_def dest: parse_digits1_length split: if_splits)

lemma parse_exp_length: "parse_exp s = Some (d, r) \<Longrightarrow> length r \<le> length s"
  by (cases s) (auto simp: parse_exp_def dest: parse_digits1_length split: if_splits list.splits)

lemma parse_number_length: "parse_number s = Some (x, r) \<Longrightarrow> length r < length s"
proof -
  assume h: "parse_number s = Some (x, r)"
  define s1 where "s1 = (if s \<noteq> [] \<and> hd s = CHR ''-'' then tl s else s)"
  have l1: "length s1 \<le> length s" by (simp add: s1_def)
  from h obtain i s2 f s3 e where "parse_int_part s1 = Some (i, s2)" "parse_frac s2 = Some (f, s3)"
    "parse_exp s3 = Some (e, r)"
    by (auto simp: parse_number_def s1_def split: if_splits option.splits prod.splits)
  with l1 show ?thesis
    by (auto dest!: parse_int_part_length parse_frac_length parse_exp_length)
qed

subsubsection \<open>Fuel bounded by the consumed bytes\<close>

lemma fuel_ok_intro:
  "length r < length s \<Longrightarrow> (\<And>g. length s - length r \<le> Suc g \<Longrightarrow> p (Suc g) s = Some (x, r)) \<Longrightarrow>
   fuel_ok p s x r"
  unfolding fuel_ok_def
proof (intro conjI allI impI)
  fix g assume l: "length r < length s" and s: "\<And>g. length s - length r \<le> Suc g \<Longrightarrow> p (Suc g) s = Some (x, r)"
    and g: "length s - length r \<le> g"
  from l g obtain g' where "g = Suc g'" by (cases g) auto
  with g s show "p g s = Some (x, r)" by simp
qed

lemma fuel_okD: "fuel_ok p s x r \<Longrightarrow> length s - length r \<le> g \<Longrightarrow> p g s = Some (x, r)"
  by (simp add: fuel_ok_def)

lemma fuel_ok_length: "fuel_ok p s x r \<Longrightarrow> length r < length s"
  by (simp add: fuel_ok_def)

lemma starts_length: "starts c t \<Longrightarrow> length (tl t) < length t"
  by (cases t) (auto simp: starts_def)

lemma take_eq_length: "take n t = w \<Longrightarrow> length w \<le> length t"
  by auto

lemma parse_value_step:
  assumes IHm: "\<And>s kvs r. parse_members f s = Some (kvs, r) \<Longrightarrow> fuel_ok parse_members s kvs r"
    and IHe: "\<And>s vs r. parse_elems f s = Some (vs, r) \<Longrightarrow> fuel_ok parse_elems s vs r"
    and h: "parse_value (Suc f) s = Some (v, r)"
  shows "fuel_ok parse_value s v r"
proof -
  let ?t = "json_ws s"
  have lt: "length ?t \<le> length s" by (rule json_ws_length)
  consider (oe) "starts CHR ''{'' ?t" "starts CHR ''}'' (json_ws (tl ?t))"
    | (ob) "starts CHR ''{'' ?t" "\<not> starts CHR ''}'' (json_ws (tl ?t))"
    | (ae) "\<not> starts CHR ''{'' ?t" "starts CHR ''['' ?t" "starts CHR '']'' (json_ws (tl ?t))"
    | (ar) "\<not> starts CHR ''{'' ?t" "starts CHR ''['' ?t" "\<not> starts CHR '']'' (json_ws (tl ?t))"
    | (sc) "\<not> starts CHR ''{'' ?t" "\<not> starts CHR ''['' ?t"
    by blast
  then show ?thesis
  proof cases
    case oe
    with h have r: "v = JObj []" "r = tl (json_ws (tl ?t))" by (simp_all add: Let_def)
    have "length r < length s"
      using r starts_length [OF oe(1)] starts_length [OF oe(2)] json_ws_length [of "tl ?t"] lt by simp
    then show ?thesis by (rule fuel_ok_intro) (use oe r in \<open>simp add: Let_def\<close>)
  next
    case ob
    with h obtain kvs where m: "parse_members f (tl ?t) = Some (kvs, r)" "v = JObj kvs"
      by (auto simp: Let_def)
    have ok: "fuel_ok parse_members (tl ?t) kvs r" by (rule IHm [OF m(1)])
    have l: "length (tl ?t) < length s" using starts_length [OF ob(1)] lt by simp
    show ?thesis
    proof (rule fuel_ok_intro)
      show "length r < length s" using fuel_ok_length [OF ok] l by simp
      fix g assume "length s - length r \<le> Suc g"
      with l have "length (tl ?t) - length r \<le> g" by simp
      with fuel_okD [OF ok] ob m(2) show "parse_value (Suc g) s = Some (v, r)" by (simp add: Let_def)
    qed
  next
    case ae
    with h have r: "v = JArr []" "r = tl (json_ws (tl ?t))" by (simp_all add: Let_def)
    have "length r < length s"
      using r starts_length [OF ae(2)] starts_length [OF ae(3)] json_ws_length [of "tl ?t"] lt by simp
    then show ?thesis by (rule fuel_ok_intro) (use ae r in \<open>simp add: Let_def\<close>)
  next
    case ar
    with h obtain vs where m: "parse_elems f (tl ?t) = Some (vs, r)" "v = JArr vs"
      by (auto simp: Let_def)
    have ok: "fuel_ok parse_elems (tl ?t) vs r" by (rule IHe [OF m(1)])
    have l: "length (tl ?t) < length s" using starts_length [OF ar(2)] lt by simp
    show ?thesis
    proof (rule fuel_ok_intro)
      show "length r < length s" using fuel_ok_length [OF ok] l by simp
      fix g assume "length s - length r \<le> Suc g"
      with l have "length (tl ?t) - length r \<le> g" by simp
      with fuel_okD [OF ok] ar m(2) show "parse_value (Suc g) s = Some (v, r)" by (simp add: Let_def)
    qed
  next
    case sc
    then have eq: "parse_value (Suc g) s = parse_value (Suc f) s" for g by (simp add: Let_def)
    have "length r < length ?t"
      using h sc
      by (auto simp: Let_def starts_def split: if_splits
          dest!: parse_str_body_length parse_number_length take_eq_length)
    with lt have "length r < length s" by simp
    then show ?thesis by (rule fuel_ok_intro) (use eq h in simp)
  qed
qed

lemma parse_elems_step:
  assumes IHv: "\<And>s v r. parse_value f s = Some (v, r) \<Longrightarrow> fuel_ok parse_value s v r"
    and IHe: "\<And>s vs r. parse_elems f s = Some (vs, r) \<Longrightarrow> fuel_ok parse_elems s vs r"
    and h: "parse_elems (Suc f) s = Some (vs, r)"
  shows "fuel_ok parse_elems s vs r"
proof -
  from h obtain v r0 where p: "parse_value f s = Some (v, r0)" by (auto split: option.splits)
  have okv: "fuel_ok parse_value s v r0" by (rule IHv [OF p])
  let ?r = "json_ws r0"
  have l0: "length ?r \<le> length r0" "length r0 < length s"
    using json_ws_length fuel_ok_length [OF okv] by auto
  consider (c) "starts CHR '','' ?r" | (b) "\<not> starts CHR '','' ?r" "starts CHR '']'' ?r"
    using h p by (auto simp: Let_def split: if_splits)
  then show ?thesis
  proof cases
    case c
    with h p obtain vs' where e: "parse_elems f (tl ?r) = Some (vs', r)" "vs = v # vs'"
      by (auto simp: Let_def)
    have oke: "fuel_ok parse_elems (tl ?r) vs' r" by (rule IHe [OF e(1)])
    have l1: "length (tl ?r) < length ?r" "length r < length (tl ?r)"
      using starts_length [OF c] fuel_ok_length [OF oke] by auto
    show ?thesis
    proof (rule fuel_ok_intro)
      show "length r < length s" using l0 l1 by simp
      fix g assume "length s - length r \<le> Suc g"
      with l0 l1 have "length s - length r0 \<le> g" "length (tl ?r) - length r \<le> g" by simp_all
      with fuel_okD [OF okv] fuel_okD [OF oke] c e(2) show "parse_elems (Suc g) s = Some (vs, r)"
        by (simp add: Let_def)
    qed
  next
    case b
    with h p have r: "r = tl ?r" "vs = [v]" by (auto simp: Let_def)
    have l1: "length (tl ?r) < length ?r" using starts_length [OF b(2)] .
    show ?thesis
    proof (rule fuel_ok_intro)
      show "length r < length s" using l0 l1 r by simp
      fix g assume "length s - length r \<le> Suc g"
      with l0 l1 r have "length s - length r0 \<le> g" by simp
      with fuel_okD [OF okv] b r show "parse_elems (Suc g) s = Some (vs, r)"
        by (simp add: Let_def)
    qed
  qed
qed

lemma parse_members_step:
  assumes IHv: "\<And>s v r. parse_value f s = Some (v, r) \<Longrightarrow> fuel_ok parse_value s v r"
    and IHm: "\<And>s kvs r. parse_members f s = Some (kvs, r) \<Longrightarrow> fuel_ok parse_members s kvs r"
    and h: "parse_members (Suc f) s = Some (kvs, r)"
  shows "fuel_ok parse_members s kvs r"
proof -
  let ?t = "json_ws s"
  from h have q: "starts (CHR 0x22) ?t" by (auto simp: Let_def split: if_splits)
  from h q obtain k r0 where k: "parse_str_body [] (tl ?t) = Some (k, r0)"
    by (auto simp: Let_def split: option.splits)
  let ?r1 = "json_ws r0"
  from h q k have c1: "starts CHR '':'' ?r1" by (auto simp: Let_def split: if_splits)
  from h q k c1 obtain v r2 where p: "parse_value f (tl ?r1) = Some (v, r2)"
    by (auto simp: Let_def split: option.splits)
  have okv: "fuel_ok parse_value (tl ?r1) v r2" by (rule IHv [OF p])
  let ?r3 = "json_ws r2"
  have l0: "length (tl ?r1) < length s" "length r2 < length (tl ?r1)" "length ?r3 \<le> length r2"
    using json_ws_length [of s] starts_length [OF q] parse_str_body_length [OF k]
      json_ws_length [of r0] starts_length [OF c1] fuel_ok_length [OF okv] json_ws_length [of r2]
    by simp_all
  consider (c) "starts CHR '','' ?r3" | (b) "\<not> starts CHR '','' ?r3" "starts CHR ''}'' ?r3"
    using h q k c1 p by (auto simp: Let_def split: if_splits)
  then show ?thesis
  proof cases
    case c
    with h q k c1 p obtain kvs' where m: "parse_members f (tl ?r3) = Some (kvs', r)" "kvs = (k, v) # kvs'"
      by (auto simp: Let_def)
    have okm: "fuel_ok parse_members (tl ?r3) kvs' r" by (rule IHm [OF m(1)])
    have l1: "length (tl ?r3) < length ?r3" "length r < length (tl ?r3)"
      using starts_length [OF c] fuel_ok_length [OF okm] by auto
    show ?thesis
    proof (rule fuel_ok_intro)
      show "length r < length s" using l0 l1 by simp
      fix g assume "length s - length r \<le> Suc g"
      with l0 l1 have "length (tl ?r1) - length r2 \<le> g" "length (tl ?r3) - length r \<le> g" by simp_all
      with fuel_okD [OF okv] fuel_okD [OF okm] q k c1 c m(2)
      show "parse_members (Suc g) s = Some (kvs, r)" by (simp add: Let_def)
    qed
  next
    case b
    with h q k c1 p have r: "r = tl ?r3" "kvs = [(k, v)]" by (auto simp: Let_def)
    have l1: "length (tl ?r3) < length ?r3" using starts_length [OF b(2)] .
    show ?thesis
    proof (rule fuel_ok_intro)
      show "length r < length s" using l0 l1 r by simp
      fix g assume "length s - length r \<le> Suc g"
      with l0 l1 r have "length (tl ?r1) - length r2 \<le> g" by simp
      with fuel_okD [OF okv] q k c1 b r show "parse_members (Suc g) s = Some (kvs, r)"
        by (simp add: Let_def)
    qed
  qed
qed

lemma parse_fuel_ok:
  "(\<forall>s v r. parse_value f s = Some (v, r) \<longrightarrow> fuel_ok parse_value s v r) \<and>
   (\<forall>s vs r. parse_elems f s = Some (vs, r) \<longrightarrow> fuel_ok parse_elems s vs r) \<and>
   (\<forall>s kvs r. parse_members f s = Some (kvs, r) \<longrightarrow> fuel_ok parse_members s kvs r)"
proof (induction f)
  case (Suc f)
  then show ?case
    using parse_value_step [of f] parse_elems_step [of f] parse_members_step [of f] by blast
qed simp

text \<open>
  \<open>JSON.parse\<close> is total on its fuel: the fuel \<open>json_parse\<close> gives (the input's length
  plus one) finds every value that any fuel finds.
\<close>

theorem json_parse_fuel:
  "json_parse s = Some v \<longleftrightarrow> (\<exists>f r. parse_value f s = Some (v, r) \<and> json_ws r = [])"
proof
  assume "json_parse s = Some v"
  then show "\<exists>f r. parse_value f s = Some (v, r) \<and> json_ws r = []"
    unfolding json_parse_def
    by (auto simp del: parse_value.simps split: option.splits if_splits intro!: exI [of _ "Suc (length s)"])
next
  assume "\<exists>f r. parse_value f s = Some (v, r) \<and> json_ws r = []"
  then obtain f r where p: "parse_value f s = Some (v, r)" "json_ws r = []" by blast
  have "fuel_ok parse_value s v r" using parse_fuel_ok p(1) by blast
  then have "parse_value (Suc (length s)) s = Some (v, r)" by (rule fuel_okD) simp
  with p(2) show "json_parse s = Some v" by (simp add: json_parse_def)
qed

end
