(* ===== verification/Gateway.thy ===== *)
theory Gateway
  imports JsString Json
begin

text \<open>
  The AI gateway of \<open>src/services/geminiService.ts\<close>. Each exported function issues
  one request to the provider (the \<open>@google/genai\<close> client, an external collaborator)
  and turns the provider's answer into a value; its \<open>try\<close>/\<open>catch\<close> turns every
  failure into a fallback value. The provider is not modelled: a request is a value of
  the datatype \<open>request\<close>, and the answer is an argument of the function that models
  the code after the \<open>await\<close>. A rejected call is \<open>Provider_error\<close>; a resolved one
  carries the fields the code reads (\<open>response.text\<close>, which the client leaves
  \<open>undefined\<close> when the reply has no text part, and \<open>response.generatedImages\<close>).
  The \<open>console.error\<close> diagnostics are not modelled.
\<close>

datatype 'a provider_result = Provider_error | Provider_ok 'a

subsection \<open>Start-up\<close>

text \<open>Lines 4 to 8: a missing or empty \<open>API_KEY\<close> throws when the module loads.\<close>

datatype startup_error = Missing_api_key

definition gateway_init :: "string option \<Rightarrow> startup_error + string" where
  "gateway_init key =
     (case key of
        None \<Rightarrow> Inl Missing_api_key
      | Some k \<Rightarrow> if k = [] then Inl Missing_api_key else Inr k)"

subsection \<open>Requests\<close>

text \<open>
  The response schema of the review (lines 12 to 37): objects with their properties
  and required keys, and string leaves. The \<open>description\<close> strings, which only
  guide the provider, are not modelled.
\<close>

datatype schema = SObject "(string \<times> schema) list" "string list" | SString

definition review_schema :: schema where
  "review_schema =
     SObject
       [(''feedback'',
         SObject [(''abntCompliance'', SString), (''originality'', SString),
                  (''cohesion'', SString), (''grammar'', SString)]
                 [''abntCompliance'', ''originality'', ''cohesion'', ''grammar'']),
        (''suggestions'',
         SObject [(''clarity'', SString), (''depth'', SString),
                  (''conclusion'', SString), (''resultsPresentation'', SString)]
                 [''clarity'', ''depth'', ''conclusion'', ''resultsPresentation''])]
       [''feedback'', ''suggestions'']"

datatype request =
    Generate_content string string "(string \<times> schema) option"
      \<comment> \<open>model, contents, \<open>responseMimeType\<close> and \<open>responseSchema\<close>\<close>
  | Generate_images string string nat string string
      \<comment> \<open>model, prompt, \<open>numberOfImages\<close>, \<open>outputMimeType\<close>, \<open>aspectRatio\<close>\<close>

subsection \<open>conductFinalReview\<close>

definition review_prompt :: "string \<Rightarrow> string" where
  "review_prompt fullText =
     ''Aja como um Mestre de Bancada Acad'' @ e_circ @ ''mica, um avaliador de TCC extremamente cr''
     @ i_acute @ ''tico e detalhista. Analise o seguinte trabalho acad'' @ e_circ @ ''mico e forne''
     @ c_cedil @ ''a um feedback estruturado.'' @ nl
     @ nl
     @ spaces 8 @ ''Texto do Trabalho:'' @ nl
     @ spaces 8 @ ''---'' @ nl
     @ spaces 8 @ fullText @ nl
     @ spaces 8 @ ''---'' @ nl
     @ nl
     @ spaces 8 @ ''Sua an'' @ a_acute @ ''lise deve ser dividida em duas partes: 'Identifica''
     @ c_cedil @ a_tilde @ ''o de Erros (Cr'' @ i_acute @ ''tica Fria)' e 'Sugest'' @ o_tilde
     @ ''es de Melhoria (Conselho de Mestre)'. Responda estritamente no formato JSON solicitado.''"

definition review_request :: "string \<Rightarrow> request" where
  "review_request fullText =
     Generate_content ''gemini-2.5-flash'' (review_prompt fullText)
       (Some (''application/json'', review_schema))"

text \<open>
  After the \<open>await\<close> (lines 59 to 65): \<open>response.text.trim()\<close> throws on an
  \<open>undefined\<close> text, \<open>JSON.parse\<close> throws on malformed text, and the \<open>catch\<close> returns
  \<open>null\<close> for both and for a rejected call. A parsed value is returned as it is: the cast
  \<open>as FinalReview\<close> checks nothing. The result is a JSON value, \<open>JNull\<close> for \<open>null\<close>.
\<close>

fun conductFinalReview_result :: "string option provider_result \<Rightarrow> json" where
  "conductFinalReview_result Provider_error = JNull"
| "conductFinalReview_result (Provider_ok None) = JNull"
| "conductFinalReview_result (Provider_ok (Some t)) =
     (case json_parse (js_trim t) of None \<Rightarrow> JNull | Some v \<Rightarrow> v)"

subsection \<open>generateText\<close>

definition text_request :: "string \<Rightarrow> request" where
  "text_request prompt = Generate_content ''gemini-2.5-flash'' prompt None"

definition text_fallback :: string where
  "text_fallback = ''Desculpe, n'' @ a_tilde @ ''o foi poss'' @ i_acute @ ''vel gerar o texto no momento.''"

text \<open>
  Lines 75 to 78: the reply's text, \<open>undefined\<close> (\<open>None\<close>) included, or the apology
  when the call is rejected.
\<close>

fun generateText_result :: "string option provider_result \<Rightarrow> string option" where
  "generateText_result Provider_error = Some text_fallback"
| "generateText_result (Provider_ok t) = t"

subsection \<open>generateImage\<close>

definition image_request :: "string \<Rightarrow> request" where
  "image_request prompt = Generate_images ''imagen-4.0-generate-001'' prompt 1 ''image/png'' ''1:1''"

text \<open>
  One entry of \<open>response.generatedImages\<close>: \<open>None\<close> when its \<open>image\<close> is
  \<open>undefined\<close>, \<open>Some None\<close> when the image has no \<open>imageBytes\<close>. An absent
  \<open>generatedImages\<close> behaves as the empty list (\<open>undefined && ...\<close> is falsy).
\<close>

type_synonym generated_image = "string option option"

text \<open>
  Lines 94 to 101: the bytes of the first image; \<open>null\<close> for no image and for a
  rejected call; reading \<open>imageBytes\<close> of an \<open>undefined\<close> image throws and is caught.
  \<open>None\<close> stands for both \<open>null\<close> and \<open>undefined\<close>, which the caller treats alike.
\<close>

fun generateImage_result :: "generated_image list provider_result \<Rightarrow> string option" where
  "generateImage_result Provider_error = None"
| "generateImage_result (Provider_ok []) = None"
| "generateImage_result (Provider_ok (img # _)) = (case img of None \<Rightarrow> None | Some b \<Rightarrow> b)"

subsection \<open>The shape the cast promises\<close>

fun json_conforms :: "schema \<Rightarrow> json \<Rightarrow> bool" where
  "json_conforms SString v = (case v of JStr _ \<Rightarrow> True | _ \<Rightarrow> False)"
| "json_conforms (SObject props req) v =
     (case v of
        JObj kvs \<Rightarrow>
          list_all (\<lambda>k. map_of (rev kvs) k \<noteq> None) req \<and>
          list_all (\<lambda>(k, s). case map_of (rev kvs) k of None \<Rightarrow> True | Some w \<Rightarrow> json_conforms s w) props
      | _ \<Rightarrow> False)"

subsection \<open>Lemmas\<close>

text \<open>A required property of a conforming object is present and conforms to its schema.\<close>

lemma json_conforms_member:
  assumes "json_conforms (SObject props req) v" "k \<in> set req" "(k, sc) \<in> set props"
  shows "\<exists>kvs w. v = JObj kvs \<and> map_of (rev kvs) k = Some w \<and> json_conforms sc w"
proof -
  from assms(1) obtain kvs where v: "v = JObj kvs"
    by (cases v) auto
  with assms(1,2) obtain w where w: "map_of (rev kvs) k = Some w"
    by (auto simp: list_all_iff)
  with assms(1,3) v have "json_conforms sc w"
    by (fastforce simp: list_all_iff)
  with v w show ?thesis by blast
qed

text \<open>
  C20: the \<open>JSON.parse\<close> of \<open>conductFinalReview\<close> never gives up for lack of fuel: when
  the trimmed reply parses to a value with some fuel, the gateway returns that value,
  and it returns \<open>null\<close> only for replies that no fuel parses.
\<close>

theorem review_parse_total:
  "((\<exists>f r. parse_value f (js_trim t) = Some (v, r) \<and> json_ws r = []) \<longrightarrow>
      conductFinalReview_result (Provider_ok (Some t)) = v) \<and>
   ((\<forall>f r w. \<not> (parse_value f (js_trim t) = Some (w, r) \<and> json_ws r = [])) \<longrightarrow>
      conductFinalReview_result (Provider_ok (Some t)) = JNull)"
proof (intro conjI impI)
  assume "\<exists>f r. parse_value f (js_trim t) = Some (v, r) \<and> json_ws r = []"
  then have "json_parse (js_trim t) = Some v" by (simp add: json_parse_fuel)
  then show "conductFinalReview_result (Provider_ok (Some t)) = v" by simp
next
  assume n: "\<forall>f r w. \<not> (parse_value f (js_trim t) = Some (w, r) \<and> json_ws r = [])"
  have "json_parse (js_trim t) = None"
  proof (cases "json_parse (js_trim t)")
    case (Some w)
    with json_parse_fuel [of "js_trim t" w] n show ?thesis by blast
  qed
  then show "conductFinalReview_result (Provider_ok (Some t)) = JNull" by simp
qed

theorem review_parse_total_witness:
  "(\<exists>f r. parse_value f (js_trim '' [true] '') = Some (JArr [JBool True], r) \<and> json_ws r = []) \<and>
   conductFinalReview_result (Provider_ok (Some '' [true] '')) = JArr [JBool True]"
proof -
  have "parse_value 3 (js_trim '' [true] '') = Some (JArr [JBool True], [])"
    by code_simp
  moreover have "json_ws [] = []" by (simp add: json_ws_def)
  ultimately have h: "\<exists>f r. parse_value f (js_trim '' [true] '') = Some (JArr [JBool True], r) \<and> json_ws r = []"
    by blast
  with review_parse_total [of " '' [true] ''" "JArr [JBool True]"] show ?thesis by blast
qed

end
