(* ===== verification/App.thy ===== *)
theory App
  imports Document Gateway
begin

text \<open>
  The editor component \<open>App\<close> of \<open>src/App.tsx\<close> as a state machine. Its state is the
  record of its React state variables (lines 22 to 28), the markup of the editing
  surface (\<open>editorRef\<close>, line 30), the closure the memoised \<open>handleGenerateImage\<close>
  was created in, the asynchronous continuations still waiting (an \<open>await\<close> on the
  provider, or a \<open>FileReader\<close> load), and whether rendering has thrown.

  An event is a user action on the rendered page, or the completion of a pending
  continuation. A step runs the handler's synchronous part, then React's render and
  commit (\<open>commit\<close>): the editing surface shows the active section's content, a
  callback memoised with \<open>useCallback\<close> is recreated only when one of its
  dependencies changed, and a \<open>TypeError\<close> during rendering unmounts the whole tree
  (there is no error boundary), after which nothing happens any more.
  A button the page renders \<open>disabled\<close> fires no event: its guard is the condition
  under which the step is defined. The effects a step has outside the state are listed:
  \<open>alert\<close> messages and the requests sent to the provider.
\<close>

datatype loading_action = Review | Text | Image

datatype pending =
    Pending_review
  | Pending_text section_id
      \<comment> \<open>the \<open>activeSectionId\<close> of the closure that awaits the text\<close>
  | Pending_image section_id "doc_section option"
      \<comment> \<open>\<open>activeSectionId\<close> and \<open>activeSection\<close> of the memoised image handler\<close>
  | Pending_file section_id "doc_section option" string
      \<comment> \<open>the same of \<open>handleFileSelected\<close>'s render, and the file's data URL\<close>

record app_state =
  project :: project
  activeSectionId :: section_id
  isLoading :: bool
  loadingAction :: "loading_action option"
  finalReview :: json
  imagePrompt :: string
  darkMode :: bool
  editor :: "html option"
  image_closure :: "section_id \<times> doc_section option"
  pending :: "pending list"
  crashed :: bool

datatype reply =
    Review_reply "string option provider_result"
  | Text_reply "string option provider_result"
  | Image_reply "generated_image list provider_result" year

datatype event =
    Edit_meta meta_field string
  | Select_section section_id
  | Type_content html
  | Edit_image_prompt string
  | Toggle_dark
  | Close_review
  | Click_review
  | Click_text
  | Click_image
  | Choose_file "string option"
  | File_loaded nat year
  | Provider_reply nat reply

datatype effect = Alert string | Call request

subsection \<open>Rendering\<close>

text \<open>
  The review modal (lines 231 to 257) is rendered when \<open>finalReview\<close> is truthy and
  reads the eight fields \<open>finalReview.feedback.*\<close> and \<open>finalReview.suggestions.*\<close>.
\<close>

definition review_fields :: "(string \<times> string) list" where
  "review_fields =
     [(''feedback'', ''abntCompliance''), (''feedback'', ''originality''),
      (''feedback'', ''cohesion''), (''feedback'', ''grammar''),
      (''suggestions'', ''clarity''), (''suggestions'', ''depth''),
      (''suggestions'', ''conclusion''), (''suggestions'', ''resultsPresentation'')]"

definition review_field :: "json \<Rightarrow> string \<times> string \<Rightarrow> js_error + json option" where
  "review_field v gk =
     (case json_get v (fst gk) of
        Inl e \<Rightarrow> Inl e
      | Inr None \<Rightarrow> Inl TypeError
      | Inr (Some g) \<Rightarrow> json_get g (snd gk))"

text \<open>
  A value React can render as a child: a string, number, boolean, \<open>null\<close> or \<open>undefined\<close>,
  or an array of such values; a plain object throws ("Objects are not valid as a React
  child").
\<close>

fun react_child_ok :: "json \<Rightarrow> bool" where
  "react_child_ok (JObj _) = False"
| "react_child_ok (JArr vs) = list_all react_child_ok vs"
| "react_child_ok _ = True"

text \<open>
  The modal renders when every field read succeeds (an \<open>undefined\<close> field renders
  nothing) and every field value is a valid child.
\<close>

definition review_renders :: "json \<Rightarrow> bool" where
  "review_renders v =
     (if json_truthy v then
        list_all (\<lambda>gk. case review_field v gk of Inl _ \<Rightarrow> False | Inr None \<Rightarrow> True | Inr (Some w) \<Rightarrow> react_child_ok w)
          review_fields
      else True)"

text \<open>
  What the page shows of the state (lines 142 to 223): the labels of the three AI buttons,
  which name the running action, the \<open>disabled\<close> attributes of the four trigger buttons,
  the highlighted entry of the sidebar (\<open>activeSectionId === section.id\<close>), and whether
  the review modal is open (\<open>{finalReview && ...}\<close>, line 231). \<open>!project.title\<close> is
  true for the empty title only.
\<close>

record view =
  review_label :: string
  text_label :: string
  image_label :: string
  review_disabled :: bool
  text_disabled :: bool
  image_disabled :: bool
  upload_disabled :: bool
  nav_highlight :: "bool list"
  modal_open :: bool

definition render_view :: "app_state \<Rightarrow> view" where
  "render_view s =
     \<lparr>review_label = (if loadingAction s = Some Review then ''Revisando...'' else ''Revis'' @ a_tilde @ ''o Final''),
      text_label = (if loadingAction s = Some Text then ''Gerando...'' else ''Continuar Escrita''),
      image_label = (if loadingAction s = Some Image then ''Criando...'' else ''Criar Imagem''),
      review_disabled = isLoading s,
      text_disabled = (isLoading s \<or> proj_title (project s) = []),
      image_disabled = isLoading s,
      upload_disabled = isLoading s,
      nav_highlight = map (\<lambda>sec. activeSectionId s = sec_id sec) (sections (project s)),
      modal_open = json_truthy (finalReview s)\<rparr>"

text \<open>
  Render and commit after a state change from \<open>old\<close> to \<open>new\<close>: line 33 looks the
  active section up, lines 181 to 190 read its title and content (a \<open>TypeError\<close> when
  it is missing) and mount the editing surface with its content; lines 99 to 113
  recreate \<open>handleGenerateImage\<close> only when \<open>imagePrompt\<close> changed.
\<close>

definition commit :: "app_state \<Rightarrow> app_state \<Rightarrow> app_state" where
  "commit old new =
     (let act = active_section (project new) (activeSectionId new) in
      new\<lparr>editor := map_option content act,
          image_closure := (if imagePrompt new = imagePrompt old then image_closure new
                            else (activeSectionId new, act)),
          crashed := (if act = None then True else \<not> review_renders (finalReview new))\<rparr>)"

definition initial_state :: app_state where
  "initial_state =
     (let act = active_section initial_project initial_active_id in
      \<lparr>project = initial_project, activeSectionId = initial_active_id, isLoading = False,
       loadingAction = None, finalReview = JNull, imagePrompt = [], darkMode = False,
       editor = map_option content act, image_closure = (initial_active_id, act),
       pending = [], crashed = False\<rparr>)"

subsection \<open>Prompts and messages built by the handlers\<close>

definition text_prompt :: "doc_section \<Rightarrow> string \<Rightarrow> string" where
  "text_prompt sec ptitle =
     ''Voc'' @ e_circ @ '' '' @ e_acute @ '' um assistente de escrita acad'' @ e_circ
     @ ''mica. Continue o seguinte trecho da se'' @ c_cedil @ a_tilde @ ''o '' @ dq @ sec_title sec @ dq
     @ '' de um TCC sobre '' @ dq @ ptitle @ dq
     @ ''. Mantenha um tom formal e focado no tema. Retorne apenas o novo texto, sem repetir o que foi enviado.''
     @ nl @ nl @ ''Trecho atual:'' @ nl @ strip_html (content sec)"

definition image_full_prompt :: "string \<Rightarrow> string" where
  "image_full_prompt p =
     ''Estilo de ilustra'' @ c_cedil @ a_tilde @ ''o conceitual para um trabalho acad'' @ e_circ @ ''mico. '' @ p"

definition title_alert :: string where
  "title_alert = ''Por favor, defina um t'' @ i_acute @ ''tulo para o trabalho antes de gerar texto.''"

definition image_alert :: string where
  "image_alert = ''Por favor, descreva a imagem que voc'' @ e_circ @ '' deseja gerar.''"

definition png_data_url :: "string \<Rightarrow> string" where
  "png_data_url b = ''data:image/png;base64,'' @ b"

subsection \<open>Handlers\<close>

definition idle :: "app_state \<Rightarrow> app_state" where
  "idle s = s\<lparr>isLoading := False, loadingAction := None\<rparr>"

text \<open>\<open>handleFinalReview\<close>, lines 69 to 82: the part before the \<open>await\<close> and the rest.\<close>

definition handleFinalReview :: "app_state \<Rightarrow> app_state \<times> effect list" where
  "handleFinalReview s =
     (s\<lparr>isLoading := True, loadingAction := Some Review, finalReview := JNull,
        pending := pending s @ [Pending_review]\<rparr>,
      [Call (review_request (strip_html (review_full_text (project s))))])"

definition handleFinalReview_resume :: "string option provider_result \<Rightarrow> app_state \<Rightarrow> app_state" where
  "handleFinalReview_resume r s = idle (s\<lparr>finalReview := conductFinalReview_result r\<rparr>)"

text \<open>
  \<open>handleGenerateText\<close>, lines 84 to 97. Reading \<open>activeSection.content\<close> of a
  missing section, and \<open>newText.replace\<close> of an \<open>undefined\<close> text, throw inside the
  async function: its promise rejects and the statements after the throw
  (\<open>setIsLoading(false)\<close> among them) never run.
\<close>

definition handleGenerateText :: "app_state \<Rightarrow> app_state \<times> effect list" where
  "handleGenerateText s =
     (if proj_title (project s) = [] then (s, [Alert title_alert])
      else
        (let s1 = s\<lparr>isLoading := True, loadingAction := Some Text\<rparr> in
         case active_section (project s) (activeSectionId s) of
           None \<Rightarrow> (s1, [])
         | Some sec \<Rightarrow>
             (s1\<lparr>pending := pending s @ [Pending_text (activeSectionId s)]\<rparr>,
              [Call (text_request (text_prompt sec (proj_title (project s))))])))"

definition handleGenerateText_resume ::
  "section_id \<Rightarrow> string option provider_result \<Rightarrow> app_state \<Rightarrow> app_state" where
  "handleGenerateText_resume aid r s =
     (case generateText_result r of
        None \<Rightarrow> s
      | Some t \<Rightarrow> idle (s\<lparr>project := insertHtmlAtEnd (editor s) aid (text_paragraphs t) (project s)\<rparr>))"

text \<open>
  \<open>handleGenerateImage\<close>, lines 99 to 113, runs as the closure memoised at the last
  change of \<open>imagePrompt\<close>: the \<open>handleInsertImage\<close> it calls sees that render's
  \<open>activeSectionId\<close> and \<open>activeSection\<close>. Its own \<open>imagePrompt\<close> is current,
  being its dependency.
\<close>

definition handleGenerateImage :: "app_state \<Rightarrow> app_state \<times> effect list" where
  "handleGenerateImage s =
     (if imagePrompt s = [] then (s, [Alert image_alert])
      else
        (s\<lparr>isLoading := True, loadingAction := Some Image,
           pending := pending s @ [Pending_image (fst (image_closure s)) (snd (image_closure s))]\<rparr>,
         [Call (image_request (image_full_prompt (imagePrompt s)))]))"

definition handleGenerateImage_resume ::
  "section_id \<Rightarrow> doc_section option \<Rightarrow> generated_image list provider_result \<Rightarrow> year \<Rightarrow>
   app_state \<Rightarrow> app_state" where
  "handleGenerateImage_resume aid sec r y s =
     (case generateImage_result r of
        None \<Rightarrow> idle s
      | Some b \<Rightarrow>
          if b = [] then idle s
          else
            (case handleInsertImage sec aid (editor s) (png_data_url b) y (project s) of
               Inl _ \<Rightarrow> s
             | Inr p \<Rightarrow> idle (s\<lparr>project := p\<rparr>)))"

text \<open>
  \<open>handleFileSelected\<close>, lines 119 to 130: the closure of the current render starts
  reading the file; its \<open>onload\<close> inserts the data URL through that render's
  \<open>handleInsertImage\<close>. A throw in \<open>onload\<close> leaves the state as it was.
\<close>

definition handleFileSelected :: "string option \<Rightarrow> app_state \<Rightarrow> app_state" where
  "handleFileSelected file s =
     (case file of
        None \<Rightarrow> s
      | Some url \<Rightarrow>
          s\<lparr>pending := pending s @
             [Pending_file (activeSectionId s) (active_section (project s) (activeSectionId s)) url]\<rparr>)"

definition file_onload :: "section_id \<Rightarrow> doc_section option \<Rightarrow> string \<Rightarrow> year \<Rightarrow> app_state \<Rightarrow> app_state" where
  "file_onload aid sec url y s =
     (if url = [] then s
      else
        (case handleInsertImage sec aid (editor s) url y (project s) of
           Inl _ \<Rightarrow> s
         | Inr p \<Rightarrow> s\<lparr>project := p\<rparr>))"

subsection \<open>Events\<close>

definition remove_nth :: "nat \<Rightarrow> 'a list \<Rightarrow> 'a list" where
  "remove_nth n xs = take n xs @ drop (Suc n) xs"

text \<open>The continuation a reply completes, when the reply is of its kind.\<close>

fun resume :: "pending \<Rightarrow> reply \<Rightarrow> (app_state \<Rightarrow> app_state) option" where
  "resume Pending_review (Review_reply r) = Some (handleFinalReview_resume r)"
| "resume (Pending_text aid) (Text_reply r) = Some (handleGenerateText_resume aid r)"
| "resume (Pending_image aid sec) (Image_reply r y) = Some (handleGenerateImage_resume aid sec r y)"
| "resume _ _ = None"

fun handle_event :: "app_state \<Rightarrow> event \<Rightarrow> (app_state \<times> effect list) option" where
  "handle_event s (Edit_meta f v) = Some (s\<lparr>project := handleProjectMetaChange f v (project s)\<rparr>, [])"
| "handle_event s (Select_section i) =
     (if i \<in> set (map sec_id (sections (project s))) then Some (s\<lparr>activeSectionId := i\<rparr>, []) else None)"
| "handle_event s (Type_content h) =
     (if editor s = None then None
      else Some (s\<lparr>project := handleSectionContentChange (activeSectionId s) h (project s)\<rparr>, []))"
| "handle_event s (Edit_image_prompt v) = Some (s\<lparr>imagePrompt := v\<rparr>, [])"
| "handle_event s Toggle_dark = Some (s\<lparr>darkMode := \<not> darkMode s\<rparr>, [])"
| "handle_event s Close_review =
     (if json_truthy (finalReview s) then Some (s\<lparr>finalReview := JNull\<rparr>, []) else None)"
| "handle_event s Click_review = (if isLoading s then None else Some (handleFinalReview s))"
| "handle_event s Click_text =
     (if isLoading s \<or> proj_title (project s) = [] then None else Some (handleGenerateText s))"
| "handle_event s Click_image = (if isLoading s then None else Some (handleGenerateImage s))"
| "handle_event s (Choose_file f) = (if isLoading s then None else Some (handleFileSelected f s, []))"
| "handle_event s (File_loaded n y) =
     (if n < length (pending s) then
        (case pending s ! n of
           Pending_file aid sec url \<Rightarrow>
             Some (file_onload aid sec url y (s\<lparr>pending := remove_nth n (pending s)\<rparr>), [])
         | _ \<Rightarrow> None)
      else None)"
| "handle_event s (Provider_reply n r) =
     (if n < length (pending s) then
        (case resume (pending s ! n) r of
           None \<Rightarrow> None
         | Some k \<Rightarrow> Some (k (s\<lparr>pending := remove_nth n (pending s)\<rparr>), []))
      else None)"

definition app_step :: "app_state \<Rightarrow> event \<Rightarrow> (app_state \<times> effect list) option" where
  "app_step s e =
     (if crashed s then None
      else map_option (\<lambda>(s', fx). (commit s s', fx)) (handle_event s e))"

fun app_run :: "app_state \<Rightarrow> event list \<Rightarrow> (app_state \<times> effect list) option" where
  "app_run s [] = Some (s, [])"
| "app_run s (e # es) =
     (case app_step s e of
        None \<Rightarrow> None
      | Some (s', fx) \<Rightarrow> map_option (\<lambda>(s'', fx'). (s'', fx @ fx')) (app_run s' es))"

text \<open>Reachable states: those a run of events from the initial render can produce.\<close>

inductive reach :: "app_state \<Rightarrow> bool" where
  start: "reach initial_state"
| step: "reach s \<Longrightarrow> app_step s e = Some (s', fx) \<Longrightarrow> reach s'"

subsection \<open>Invariants\<close>

text \<open>
  The busy flag: \<open>isLoading\<close> and \<open>loadingAction\<close> are set and cleared together,
  at most one provider call is awaited, and it is of the kind \<open>loadingAction\<close> names.
  The outline of the project is the seeded one, and the editing surface shows the
  stored content of the active section.
\<close>

fun ai_kind :: "pending \<Rightarrow> loading_action option" where
  "ai_kind Pending_review = Some Review"
| "ai_kind (Pending_text _) = Some Text"
| "ai_kind (Pending_image _ _) = Some Image"
| "ai_kind (Pending_file _ _ _) = None"

definition ai_pending :: "app_state \<Rightarrow> pending list" where
  "ai_pending s = filter (\<lambda>p. ai_kind p \<noteq> None) (pending s)"

definition busy_inv :: "app_state \<Rightarrow> bool" where
  "busy_inv s \<longleftrightarrow>
     isLoading s = (loadingAction s \<noteq> None) \<and> length (ai_pending s) \<le> 1 \<and>
     list_all (\<lambda>p. ai_kind p = loadingAction s) (ai_pending s)"

definition app_inv :: "app_state \<Rightarrow> bool" where
  "app_inv s \<longleftrightarrow>
     busy_inv s \<and> outline (project s) = outline initial_project \<and>
     editor s = map_option content (active_section (project s) (activeSectionId s)) \<and>
     crashed s = (if active_section (project s) (activeSectionId s) = None then True
                  else \<not> review_renders (finalReview s))"

fun is_call :: "effect \<Rightarrow> bool" where
  "is_call (Call _) = True"
| "is_call (Alert _) = False"

subsection \<open>Lemmas\<close>

lemma commit_simps [simp]:
  "project (commit o' n) = project n" "activeSectionId (commit o' n) = activeSectionId n"
  "isLoading (commit o' n) = isLoading n" "loadingAction (commit o' n) = loadingAction n"
  "finalReview (commit o' n) = finalReview n" "imagePrompt (commit o' n) = imagePrompt n"
  "darkMode (commit o' n) = darkMode n" "pending (commit o' n) = pending n"
  "editor (commit o' n) = map_option content (active_section (project n) (activeSectionId n))"
  by (simp_all add: commit_def Let_def)

lemma remove_nth_filter_other:
  "n < length xs \<Longrightarrow> \<not> P (xs ! n) \<Longrightarrow> filter P (remove_nth n xs) = filter P xs"
  by (metis filter_append filter.simps(2) id_take_nth_drop remove_nth_def)

lemma remove_nth_filter_same:
  "n < length xs \<Longrightarrow> P (xs ! n) \<Longrightarrow> length (filter P (remove_nth n xs)) = length (filter P xs) - 1"
proof -
  assume n: "n < length xs" and p: "P (xs ! n)"
  have "xs = take n xs @ xs ! n # drop (Suc n) xs" using n by (rule id_take_nth_drop)
  then have "length (filter P xs) = Suc (length (filter P (remove_nth n xs)))"
    using p by (metis filter_append filter.simps(2) length_append length_Cons add_Suc_right remove_nth_def)
  then show ?thesis by simp
qed

lemma outline_handleInsertImage:
  "handleInsertImage sec aid e url y p = Inr p' \<Longrightarrow> outline p' = outline p"
  by (auto simp: handleInsertImage_def split: option.splits)

lemma initial_state_inv: "app_inv initial_state"
  by (simp add: app_inv_def busy_inv_def ai_pending_def initial_state_def Let_def review_renders_def
      initial_project_props(3))

lemma app_inv_commit:
  "app_inv (commit o' n) \<longleftrightarrow> busy_inv n \<and> outline (project n) = outline initial_project"
  by (simp add: app_inv_def busy_inv_def ai_pending_def commit_def Let_def)

lemma busy_inv_idle: "busy_inv s \<Longrightarrow> \<not> isLoading s \<Longrightarrow> ai_pending s = []"
  by (auto simp: busy_inv_def ai_pending_def list_all_iff filter_empty_conv)

lemma busy_inv_start:
  "ai_pending s = [] \<Longrightarrow> ai_kind p = Some k \<Longrightarrow>
   busy_inv (s\<lparr>isLoading := True, loadingAction := Some k, pending := pending s @ [p]\<rparr>)"
  by (simp add: busy_inv_def ai_pending_def)

lemma handleFinalReview_inv:
  assumes "busy_inv s" "\<not> isLoading s"
  shows "busy_inv (fst (handleFinalReview s)) \<and> project (fst (handleFinalReview s)) = project s"
proof -
  have "ai_pending s = []" using assms by (rule busy_inv_idle)
  then show ?thesis
    using assms by (simp add: handleFinalReview_def busy_inv_def ai_pending_def)
qed

lemma handleGenerateText_inv:
  assumes "busy_inv s" "\<not> isLoading s"
  shows "busy_inv (fst (handleGenerateText s)) \<and> project (fst (handleGenerateText s)) = project s"
proof -
  have "ai_pending s = []" using assms by (rule busy_inv_idle)
  then show ?thesis
    using assms busy_inv_start [of s "Pending_text (activeSectionId s)" Text]
    by (auto simp: handleGenerateText_def busy_inv_def ai_pending_def Let_def split: option.split)
qed

lemma handleGenerateImage_inv:
  assumes "busy_inv s" "\<not> isLoading s"
  shows "busy_inv (fst (handleGenerateImage s)) \<and> project (fst (handleGenerateImage s)) = project s"
proof -
  have "ai_pending s = []" using assms by (rule busy_inv_idle)
  then show ?thesis
    using assms busy_inv_start [of s "Pending_image (fst (image_closure s)) (snd (image_closure s))" Image]
    by (auto simp: handleGenerateImage_def)
qed

lemma handleFileSelected_inv:
  "busy_inv s \<Longrightarrow> busy_inv (handleFileSelected f s) \<and> project (handleFileSelected f s) = project s"
  by (simp add: handleFileSelected_def busy_inv_def ai_pending_def split: option.split)

lemma file_onload_fields:
  "isLoading (file_onload aid sec url y s) = isLoading s"
  "loadingAction (file_onload aid sec url y s) = loadingAction s"
  "pending (file_onload aid sec url y s) = pending s"
  "outline (project (file_onload aid sec url y s)) = outline (project s)"
  by (auto simp: file_onload_def outline_handleInsertImage split: sum.split)

lemma busy_inv_fields:
  "isLoading s' = isLoading s \<Longrightarrow> loadingAction s' = loadingAction s \<Longrightarrow> ai_pending s' = ai_pending s \<Longrightarrow>
   busy_inv s' = busy_inv s"
  by (simp add: busy_inv_def)

lemma resume_ai: "resume p r = Some k \<Longrightarrow> ai_kind p \<noteq> None"
  by (cases p; cases r) auto

lemma idle_fields [simp]:
  "isLoading (idle s) = False" "loadingAction (idle s) = None" "pending (idle s) = pending s"
  "project (idle s) = project s" "activeSectionId (idle s) = activeSectionId s" "editor (idle s) = editor s"
  by (simp_all add: idle_def)

lemma resume_inv:
  assumes "resume p r = Some k" "ai_pending s = []" "isLoading s = (loadingAction s \<noteq> None)"
  shows "busy_inv (k s) \<and> outline (project (k s)) = outline (project s)"
  using assms
  by (cases p; cases r)
     (auto simp: busy_inv_def ai_pending_def handleFinalReview_resume_def handleGenerateText_resume_def
        handleGenerateImage_resume_def outline_handleInsertImage
        split: option.splits sum.splits if_splits)

lemma ai_pending_remove_nth:
  assumes "busy_inv s" "n < length (pending s)" "ai_kind (pending s ! n) \<noteq> None"
  shows "ai_pending (s\<lparr>pending := remove_nth n (pending s)\<rparr>) = []"
proof -
  have "length (filter (\<lambda>p. ai_kind p \<noteq> None) (remove_nth n (pending s))) =
        length (filter (\<lambda>p. ai_kind p \<noteq> None) (pending s)) - 1"
    using assms(2,3) by (rule remove_nth_filter_same)
  with assms(1) show ?thesis by (simp add: busy_inv_def ai_pending_def)
qed

lemma handle_event_inv:
  assumes "handle_event s e = Some (n, fx)" "app_inv s"
  shows "busy_inv n \<and> outline (project n) = outline initial_project"
proof -
  from assms(2) have b: "busy_inv s" and o: "outline (project s) = outline initial_project"
    by (simp_all add: app_inv_def)
  show ?thesis
  proof (cases e)
    case (Edit_meta f v)
    with assms(1) b o show ?thesis by (auto simp: busy_inv_def ai_pending_def outline_def)
  next
    case (Select_section i)
    with assms(1) b o show ?thesis by (auto simp: busy_inv_def ai_pending_def split: if_splits)
  next
    case (Type_content h)
    with assms(1) b o show ?thesis by (auto simp: busy_inv_def ai_pending_def split: if_splits)
  next
    case (Edit_image_prompt v)
    with assms(1) b o show ?thesis by (auto simp: busy_inv_def ai_pending_def)
  next
    case Toggle_dark
    with assms(1) b o show ?thesis by (auto simp: busy_inv_def ai_pending_def)
  next
    case Close_review
    with assms(1) b o show ?thesis by (auto simp: busy_inv_def ai_pending_def split: if_splits)
  next
    case Click_review
    with assms(1) b o handleFinalReview_inv [OF b] show ?thesis by (auto split: if_splits)
  next
    case Click_text
    with assms(1) b o handleGenerateText_inv [OF b] show ?thesis by (auto split: if_splits)
  next
    case Click_image
    with assms(1) b o handleGenerateImage_inv [OF b] show ?thesis by (auto split: if_splits)
  next
    case (Choose_file f)
    with assms(1) b o handleFileSelected_inv [OF b, of f] show ?thesis by (auto split: if_splits)
  next
    case (File_loaded m y)
    then obtain aid sec url where m: "m < length (pending s)" "pending s ! m = Pending_file aid sec url"
      and n: "n = file_onload aid sec url y (s\<lparr>pending := remove_nth m (pending s)\<rparr>)"
      using assms(1) by (auto split: if_splits pending.splits)
    have "ai_pending (s\<lparr>pending := remove_nth m (pending s)\<rparr>) = ai_pending s"
      using m by (simp add: ai_pending_def remove_nth_filter_other)
    then have "busy_inv (s\<lparr>pending := remove_nth m (pending s)\<rparr>)"
      using b by (simp add: busy_inv_def)
    with n o show ?thesis
      by (simp add: busy_inv_def ai_pending_def file_onload_fields)
  next
    case (Provider_reply m r)
    then obtain k where m: "m < length (pending s)" "resume (pending s ! m) r = Some k"
      and n: "n = k (s\<lparr>pending := remove_nth m (pending s)\<rparr>)"
      using assms(1) by (auto split: if_splits option.splits)
    have "ai_pending (s\<lparr>pending := remove_nth m (pending s)\<rparr>) = []"
      using b m(1) resume_ai [OF m(2)] by (rule ai_pending_remove_nth)
    moreover have "isLoading s = (loadingAction s \<noteq> None)"
      using b by (simp add: busy_inv_def)
    ultimately show ?thesis
      using resume_inv [OF m(2)] n o by simp
  qed
qed

theorem app_step_inv: "app_step s e = Some (s', fx) \<Longrightarrow> app_inv s \<Longrightarrow> app_inv s'"
  by (auto simp: app_step_def app_inv_commit dest: handle_event_inv split: if_splits)

theorem reach_inv: "reach s \<Longrightarrow> app_inv s"
  by (induction rule: reach.induct) (auto intro: initial_state_inv app_step_inv)

lemma ai_pending_nth:
  "n < length (pending s) \<Longrightarrow> ai_kind (pending s ! n) \<noteq> None \<Longrightarrow> ai_pending s \<noteq> []"
  by (auto simp: ai_pending_def filter_empty_conv)

subsubsection \<open>The active section id names a section\<close>

lemma handlers_activeSectionId:
  "activeSectionId (fst (handleFinalReview s)) = activeSectionId s"
  "activeSectionId (fst (handleGenerateText s)) = activeSectionId s"
  "activeSectionId (fst (handleGenerateImage s)) = activeSectionId s"
  "activeSectionId (handleFileSelected f s) = activeSectionId s"
  "activeSectionId (file_onload aid sec url y s) = activeSectionId s"
  by (auto simp: handleFinalReview_def handleGenerateText_def handleGenerateImage_def Let_def
      handleFileSelected_def file_onload_def split: option.split sum.split)

lemma resume_activeSectionId: "resume p r = Some k \<Longrightarrow> activeSectionId (k s) = activeSectionId s"
  by (cases p; cases r)
     (auto simp: handleFinalReview_resume_def handleGenerateText_resume_def handleGenerateImage_resume_def
        split: option.splits sum.splits)

lemma handlers_activeSectionId_eq:
  "handleFinalReview s = (n, fx) \<Longrightarrow> activeSectionId n = activeSectionId s"
  "handleGenerateText s = (n, fx) \<Longrightarrow> activeSectionId n = activeSectionId s"
  "handleGenerateImage s = (n, fx) \<Longrightarrow> activeSectionId n = activeSectionId s"
  using handlers_activeSectionId(1-3) [of s] by simp_all

lemma handle_event_activeSectionId:
  assumes "handle_event s e = Some (n, fx)"
  shows "activeSectionId n = (case e of Select_section i \<Rightarrow> i | _ \<Rightarrow> activeSectionId s)"
proof (cases e)
  case (File_loaded m y)
  with assms show ?thesis by (auto simp: handlers_activeSectionId split: if_splits pending.splits)
next
  case (Provider_reply m r)
  with assms obtain k where "resume (pending s ! m) r = Some k"
    "n = k (s\<lparr>pending := remove_nth m (pending s)\<rparr>)"
    by (auto split: if_splits option.splits)
  with Provider_reply show ?thesis by (simp add: resume_activeSectionId)
qed (use assms in \<open>auto simp: handlers_activeSectionId dest: handlers_activeSectionId_eq split: if_splits\<close>)

lemma reach_ids: "reach s \<Longrightarrow> map sec_id (sections (project s)) = map sec_id (sections initial_project)"
proof -
  assume "reach s"
  from reach_inv [OF this] have "outline (project s) = outline initial_project" by (simp add: app_inv_def)
  then show ?thesis by (rule outline_map_sec_id)
qed

lemma reach_active_id: "reach s \<Longrightarrow> activeSectionId s \<in> set (map sec_id (sections (project s)))"
proof (induction rule: reach.induct)
  case start
  have "activeSectionId initial_state = initial_active_id" "project initial_state = initial_project"
    by (simp_all add: initial_state_def Let_def)
  moreover have "sections initial_project ! 2 \<in> set (sections initial_project) \<and>
      sec_id (sections initial_project ! 2) = initial_active_id"
    by (rule active_section_Some [OF initial_project_props(3)])
  ultimately show ?case by (metis image_eqI set_map)
next
  case (step s e s' fx)
  from step.hyps(2) obtain n where h: "handle_event s e = Some (n, fx)" "s' = commit s n"
    by (auto simp: app_step_def split: if_splits)
  have ids: "map sec_id (sections (project s')) = map sec_id (sections (project s))"
    using reach_ids [OF reach.step [OF step.hyps]] reach_ids [OF step.hyps(1)] by simp
  show ?case
  proof (cases "\<exists>i. e = Select_section i")
    case True
    then obtain i where e: "e = Select_section i" by blast
    with h have "i \<in> set (map sec_id (sections (project s)))" "activeSectionId s' = i"
      by (auto split: if_splits)
    with ids show ?thesis by simp
  next
    case False
    then have "activeSectionId n = activeSectionId s"
      using handle_event_activeSectionId [OF h(1)] by (cases e) simp_all
    then have "activeSectionId s' = activeSectionId s" using h(2) by simp
    with ids step.IH show ?thesis by simp
  qed
qed


text \<open>A text continuation started from an idle, reachable state, resumed with a reply that yields a text.\<close>

lemma text_reply_appends:
  assumes "reach s" "\<not> isLoading s" "proj_title (project s) \<noteq> []"
    "active_section (project s) (activeSectionId s) = Some sec"
    "app_step s Click_text = Some (s1, fx1)"
    "app_step s1 (Provider_reply (length (pending s)) (Text_reply r)) = Some (s2, fx2)"
    "generateText_result r = Some t"
  shows "active_section (project s2) (activeSectionId s) =
           Some (sec\<lparr>content := content sec @ text_paragraphs t\<rparr>) \<and> \<not> isLoading s2 \<and>
         fx1 = [Call (text_request (text_prompt sec (proj_title (project s))))]"
proof -
  from reach_inv [OF assms(1)] assms(4) have ed: "editor s = Some (content sec)"
    by (simp add: app_inv_def)
  let ?aid = "activeSectionId s"
  from assms(2-5) have s1: "s1 = commit s (s\<lparr>isLoading := True, loadingAction := Some Text,
        pending := pending s @ [Pending_text ?aid]\<rparr>)"
    and fx1: "fx1 = [Call (text_request (text_prompt sec (proj_title (project s))))]"
    by (auto simp: app_step_def handleGenerateText_def split: if_splits)
  then have p1: "pending s1 ! length (pending s) = Pending_text ?aid" "length (pending s) < length (pending s1)"
    and e1: "editor s1 = Some (content sec)" and pr1: "project s1 = project s" "activeSectionId s1 = ?aid"
    using assms(4) by simp_all
  from assms(6) p1 have "s2 = commit s1 (handleGenerateText_resume ?aid r
       (s1\<lparr>pending := remove_nth (length (pending s)) (pending s1)\<rparr>))"
    by (auto simp: app_step_def split: if_splits)
  with assms(4,7) e1 pr1 fx1 show ?thesis
    by (simp add: handleGenerateText_resume_def)
qed

end
