(* ===== verification/App_Properties.thy ===== *)
theory App_Properties
  imports App
begin

text \<open>
  Properties of the editor of \<open>src/App.tsx\<close>, stated over the model of \<open>App\<close>: what
  a text continuation, a review and an image do to the document, the single-flight
  discipline of the busy flag, its failure modes (a stuck flag, an unvalidated review),
  the shape every reachable state keeps, and the completion of awaited calls.
\<close>

subsection \<open>Properties of the editor\<close>

lemmas app_eval = app_step_def commit_def Let_def initial_state_def initial_project_def
  initial_active_id_def active_section_def handleFinalReview_def handleFinalReview_resume_def
  handleGenerateText_def handleGenerateText_resume_def handleGenerateImage_def
  handleGenerateImage_resume_def handleFileSelected_def file_onload_def idle_def remove_nth_def
  insertHtmlAtEnd_def handleSectionContentChange_def handleInsertImage_def review_renders_def


lemma reach_app_run: "reach s \<Longrightarrow> app_run s es = Some (s', fx) \<Longrightarrow> reach s'"
proof (induction es arbitrary: s fx)
  case (Cons e es)
  then obtain t fx1 fx2 where "app_step s e = Some (t, fx1)" "app_run t es = Some (s', fx2)"
    by (auto split: option.splits)
  with Cons show ?case by (blast intro: reach.step)
qed simp

lemma busy_loading: "busy_inv s \<Longrightarrow> ai_pending s \<noteq> [] \<Longrightarrow> isLoading s"
  using busy_inv_idle by blast

lemma handle_event_loading_no_call:
  "isLoading s \<Longrightarrow> handle_event s e = Some (n, fx) \<Longrightarrow> fx = []"
  by (cases e) (auto split: if_splits option.splits pending.splits)

lemma app_step_loading_no_call:
  "isLoading s \<Longrightarrow> app_step s e = Some (s', fx) \<Longrightarrow> fx = []"
  by (auto simp: app_step_def dest: handle_event_loading_no_call split: if_splits)

lemma stuck_step:
  assumes "isLoading s" "ai_pending s = []" "app_step s e = Some (s', fx)"
  shows "isLoading s' \<and> ai_pending s' = [] \<and> fx = []"
proof -
  from assms(3) obtain n where h: "handle_event s e = Some (n, fx)" "s' = commit s n"
    by (auto simp: app_step_def split: if_splits)
  have "isLoading n \<and> ai_pending n = []"
  proof (cases e)
    case (File_loaded m y)
    then obtain aid sec url where m: "m < length (pending s)" "pending s ! m = Pending_file aid sec url"
      and n: "n = file_onload aid sec url y (s\<lparr>pending := remove_nth m (pending s)\<rparr>)"
      using h(1) by (auto split: if_splits pending.splits)
    with assms(1,2) show ?thesis
      by (simp add: file_onload_fields ai_pending_def remove_nth_filter_other)
  next
    case (Provider_reply m r)
    with h(1) obtain k where "m < length (pending s)" "resume (pending s ! m) r = Some k"
      by (auto split: if_splits option.splits)
    with assms(2) show ?thesis by (auto dest: resume_ai ai_pending_nth)
  qed (use h(1) assms(1,2) in \<open>auto simp: ai_pending_def handleFileSelected_def split: if_splits option.splits\<close>)
  with h assms(1) show ?thesis
    by (auto simp: ai_pending_def dest: handle_event_loading_no_call)
qed

lemma app_inv_active: "app_inv s \<Longrightarrow> \<not> crashed s \<Longrightarrow> active_section (project s) (activeSectionId s) \<noteq> None"
  by (auto simp: app_inv_def split: if_splits)

lemma review_renders_JNull [simp]: "review_renders JNull"
  by (simp add: review_renders_def)

lemma review_field_conforming:
  assumes "json_conforms (SObject props req) v" "g \<in> set req" "(g, SObject props2 req2) \<in> set props"
    "k \<in> set req2" "(k, SString) \<in> set props2"
  shows "case review_field v (g, k) of Inl _ \<Rightarrow> False | Inr None \<Rightarrow> True | Inr (Some x) \<Rightarrow> react_child_ok x"
proof -
  from json_conforms_member [OF assms(1-3)] obtain kvs w where
    v: "v = JObj kvs" "map_of (rev kvs) g = Some w" and c: "json_conforms (SObject props2 req2) w"
    by blast
  from json_conforms_member [OF c assms(4,5)] obtain kvs2 x where
    w: "w = JObj kvs2" "map_of (rev kvs2) k = Some x" and x: "json_conforms SString x"
    by blast
  from x obtain t where "x = JStr t" by (cases x) auto
  with v w show ?thesis by (simp add: review_field_def)
qed

lemma review_conforming_renders:
  "json_conforms review_schema v \<Longrightarrow> review_renders v"
  unfolding review_schema_def review_renders_def review_fields_def
  by (simp add: review_field_conforming del: json_conforms.simps)

text \<open>
  C1: after \<open>Continuar Escrita\<close> in an idle, reachable state with a title, the provider is asked once with the prompt built from the active section, and when it answers with a text the active section's content becomes its old content followed by the text as HTML paragraphs, and the editor is idle again.
\<close>

theorem continue_text_appends:
  assumes "reach s" "\<not> isLoading s" "proj_title (project s) \<noteq> []"
    "active_section (project s) (activeSectionId s) = Some sec"
    "app_step s Click_text = Some (s1, fx1)"
    "app_step s1 (Provider_reply (length (pending s)) (Text_reply (Provider_ok (Some t)))) = Some (s2, fx2)"
  shows "active_section (project s2) (activeSectionId s) =
           Some (sec\<lparr>content := content sec @ text_paragraphs t\<rparr>) \<and> \<not> isLoading s2 \<and>
         fx1 = [Call (text_request (text_prompt sec (proj_title (project s))))]"
  using assms text_reply_appends [of s sec s1 fx1 "Provider_ok (Some t)" s2 fx2 t] by simp

text \<open>
  C4: when the provider call for a text continuation fails, the editor does not leave the document unchanged as the specification says: it appends the apology \<open>text_fallback\<close> ("Desculpe, ...") as a paragraph to the active section.
\<close>

theorem continue_text_error_inserts_apology:
  assumes "reach s" "\<not> isLoading s" "proj_title (project s) \<noteq> []"
    "active_section (project s) (activeSectionId s) = Some sec"
    "app_step s Click_text = Some (s1, fx1)"
    "app_step s1 (Provider_reply (length (pending s)) (Text_reply Provider_error)) = Some (s2, fx2)"
  shows "active_section (project s2) (activeSectionId s) =
           Some (sec\<lparr>content := content sec @ text_paragraphs text_fallback\<rparr>) \<and> \<not> isLoading s2"
  using assms text_reply_appends [of s sec s1 fx1 Provider_error s2 fx2 text_fallback] by simp

text \<open>
  C5: with an empty project title the text handler only raises the alert and changes nothing, with no provider request, and the page offers no click on the disabled button.
\<close>

theorem continue_text_empty_title:
  "proj_title (project s) = [] \<Longrightarrow> handleGenerateText s = (s, [Alert title_alert]) \<and> app_step s Click_text = None"
  by (simp add: handleGenerateText_def app_step_def)

text \<open>
  C2: in every reachable state at most one provider call is awaited.
\<close>

theorem single_flight: "reach s \<Longrightarrow> length (ai_pending s) \<le> 1"
  using reach_inv by (auto simp: app_inv_def busy_inv_def)

text \<open>
  C3: while a provider call is awaited in a reachable state, no event sends another request (no step has any effect outside the state).
\<close>

theorem busy_no_new_request:
  "reach s \<Longrightarrow> ai_pending s \<noteq> [] \<Longrightarrow> app_step s e = Some (s', fx) \<Longrightarrow> fx = []"
  using reach_inv busy_loading app_step_loading_no_call by (metis app_inv_def)

text \<open>A state that is busy with no call awaited stays busy under every run and sends nothing.\<close>

lemma stuck_run:
  "isLoading s \<Longrightarrow> ai_pending s = [] \<Longrightarrow> app_run s es = Some (s', fx) \<Longrightarrow> isLoading s' \<and> fx = []"
proof (induction es arbitrary: s fx)
  case (Cons e es)
  then obtain t fx1 fx2 where "app_step s e = Some (t, fx1)" "app_run t es = Some (s', fx2)"
    "fx = fx1 @ fx2" by (auto split: option.splits)
  with Cons show ?case using stuck_step by blast
qed simp

text \<open>
  C10: a review reply whose text is not JSON yields no review, leaves the document untouched, clears the busy flag and does not break rendering.
\<close>

theorem review_malformed_reply:
  assumes "reach s" "n < length (pending s)" "pending s ! n = Pending_review"
    "json_parse (js_trim t) = None"
    "app_step s (Provider_reply n (Review_reply (Provider_ok (Some t)))) = Some (s', fx)"
  shows "finalReview s' = JNull \<and> project s' = project s \<and> \<not> isLoading s' \<and> \<not> crashed s' \<and> fx = []"
proof -
  from assms(5) have nc: "\<not> crashed s" by (simp add: app_step_def split: if_splits)
  with reach_inv [OF assms(1)] have "active_section (project s) (activeSectionId s) \<noteq> None"
    by (rule app_inv_active)
  with assms(2-5) show ?thesis
    by (auto simp: app_step_def handleFinalReview_resume_def commit_def Let_def idle_def split: if_splits)
qed

text \<open>
  C12: an image reply that yields no image (a failed call, no generated image, an image without bytes) leaves the document untouched and clears the busy flag.
\<close>

theorem image_no_result_unchanged:
  assumes "n < length (pending s)" "pending s ! n = Pending_image aid sec" "generateImage_result r = None"
    "app_step s (Provider_reply n (Image_reply r y)) = Some (s', fx)"
  shows "project s' = project s \<and> \<not> isLoading s' \<and> fx = []"
  using assms by (auto simp: app_step_def handleGenerateImage_resume_def split: if_splits)

text \<open>
  C13: every reachable state keeps the seeded outline (ids, titles and types of the sections), hence unique ids, and its editing surface shows the stored content of the active section.
\<close>

theorem reach_outline:
  "reach s \<Longrightarrow> outline (project s) = outline initial_project \<and> wf_project (project s) \<and>
     editor s = map_option content (active_section (project s) (activeSectionId s))"
  using reach_inv wf_project_outline initial_project_props(1) by (metis app_inv_def)

text \<open>
  C19: a review reply whose text parses to a value of the shape the response schema asks for is stored as the review, leaves the document untouched, clears the busy flag, and the modal renders without error.
\<close>

theorem review_conforming_reply:
  assumes "reach s" "n < length (pending s)" "pending s ! n = Pending_review"
    "json_parse (js_trim t) = Some v" "json_conforms review_schema v"
    "app_step s (Provider_reply n (Review_reply (Provider_ok (Some t)))) = Some (s', fx)"
  shows "finalReview s' = v \<and> project s' = project s \<and> \<not> isLoading s' \<and> \<not> crashed s' \<and> fx = []"
proof -
  from assms(6) have nc: "\<not> crashed s" by (simp add: app_step_def split: if_splits)
  with reach_inv [OF assms(1)] have "active_section (project s) (activeSectionId s) \<noteq> None"
    by (rule app_inv_active)
  with assms(2-6) review_conforming_renders [OF assms(5)] show ?thesis
    by (auto simp: app_step_def handleFinalReview_resume_def commit_def Let_def idle_def split: if_splits)
qed

lemma reply_step:
  assumes "\<not> crashed s" "n < length (pending s)" "resume (pending s ! n) rep = Some k"
  shows "app_step s (Provider_reply n rep) = Some (commit s (k (s\<lparr>pending := remove_nth n (pending s)\<rparr>)), [])"
  using assms by (simp add: app_step_def)

text \<open>
  C22: an awaited call completes: in a reachable, running state a review reply of any kind, and a text reply that carries a text (or fails), is accepted and leaves the editor idle with no provider call awaited.
\<close>

theorem reply_completes:
  assumes "reach s" "\<not> crashed s" "n < length (pending s)"
  shows "(pending s ! n = Pending_review \<longrightarrow>
            (\<exists>s' fx. app_step s (Provider_reply n (Review_reply r)) = Some (s', fx) \<and>
               \<not> isLoading s' \<and> ai_pending s' = [])) \<and>
         (\<forall>aid t. pending s ! n = Pending_text aid \<and> generateText_result r' = Some t \<longrightarrow>
            (\<exists>s' fx. app_step s (Provider_reply n (Text_reply r')) = Some (s', fx) \<and>
               \<not> isLoading s' \<and> ai_pending s' = []))"
proof -
  have b: "busy_inv s" using reach_inv [OF assms(1)] by (simp add: app_inv_def)
  let ?s0 = "s\<lparr>pending := remove_nth n (pending s)\<rparr>"
  have e: "ai_kind (pending s ! n) \<noteq> None \<Longrightarrow> ai_pending ?s0 = []"
    by (rule ai_pending_remove_nth [OF b assms(3)])
  show ?thesis
  proof (intro conjI impI allI)
    assume p: "pending s ! n = Pending_review"
    have "app_step s (Provider_reply n (Review_reply r)) = Some (commit s (handleFinalReview_resume r ?s0), [])"
      using reply_step [OF assms(2,3)] p by simp
    moreover have "ai_pending (handleFinalReview_resume r ?s0) = []"
      using e p by (simp add: ai_pending_def handleFinalReview_resume_def idle_def)
    ultimately show "\<exists>s' fx. app_step s (Provider_reply n (Review_reply r)) = Some (s', fx) \<and>
               \<not> isLoading s' \<and> ai_pending s' = []"
      by (simp add: ai_pending_def handleFinalReview_resume_def)
  next
    fix aid t assume p: "pending s ! n = Pending_text aid \<and> generateText_result r' = Some t"
    have "app_step s (Provider_reply n (Text_reply r')) = Some (commit s (handleGenerateText_resume aid r' ?s0), [])"
      using reply_step [OF assms(2,3)] p by simp
    moreover have "ai_pending (handleGenerateText_resume aid r' ?s0) = []"
      using e p by (simp add: ai_pending_def handleGenerateText_resume_def idle_def)
    ultimately show "\<exists>s' fx. app_step s (Provider_reply n (Text_reply r')) = Some (s', fx) \<and>
               \<not> isLoading s' \<and> ai_pending s' = []"
      using p by (simp add: ai_pending_def handleGenerateText_resume_def)
  qed
qed

lemma continuations_frame:
  "k \<noteq> aid \<Longrightarrow> contents (project (handleGenerateText_resume aid r s)) k = contents (project s) k"
  "k \<noteq> aid \<Longrightarrow> contents (project (handleGenerateImage_resume aid sec r' y s)) k = contents (project s) k"
  "k \<noteq> aid \<Longrightarrow> contents (project (file_onload aid sec url y s)) k = contents (project s) k"
  "project (handleFinalReview_resume r'' s) = project s"
  by (auto simp: handleGenerateText_resume_def handleGenerateImage_resume_def file_onload_def
      handleFinalReview_resume_def contents_insertHtmlAtEnd_other contents_handleInsertImage_other
      split: option.splits sum.splits)

lemma resume_frame:
  assumes "resume p r = Some f"
  shows "\<exists>aid. \<forall>k. k \<noteq> aid \<longrightarrow> contents (project (f s)) k = contents (project s) k"
proof (cases p)
  case Pending_review
  with assms show ?thesis by (cases r) (auto simp: continuations_frame(4))
next
  case (Pending_text aid)
  with assms show ?thesis by (cases r) (auto intro: continuations_frame(1))
next
  case (Pending_image aid sec)
  with assms show ?thesis by (cases r) (auto intro: continuations_frame(2))
next
  case (Pending_file aid sec url)
  with assms show ?thesis by (cases r) auto
qed

lemma handle_event_frame:
  assumes "handle_event s e = Some (n, fx)"
  shows "\<exists>aid. \<forall>k. k \<noteq> aid \<longrightarrow> contents (project n) k = contents (project s) k"
proof (cases e)
  case (Edit_meta f v)
  with assms show ?thesis by (auto simp: contents_def)
next
  case (Type_content h)
  with assms have "project n = handleSectionContentChange (activeSectionId s) h (project s)"
    by (auto split: if_splits)
  then show ?thesis using contents_handleSectionContentChange_other by metis
next
  case Click_review
  with assms show ?thesis by (auto simp: handleFinalReview_def split: if_splits)
next
  case Click_text
  with assms show ?thesis by (auto simp: handleGenerateText_def Let_def split: if_splits option.splits)
next
  case Click_image
  with assms show ?thesis by (auto simp: handleGenerateImage_def split: if_splits)
next
  case (Choose_file f)
  with assms show ?thesis by (auto simp: handleFileSelected_def split: if_splits option.splits)
next
  case (File_loaded m y)
  with assms obtain aid sec url where
    "n = file_onload aid sec url y (s\<lparr>pending := remove_nth m (pending s)\<rparr>)"
    by (auto split: if_splits pending.splits)
  then have "\<forall>k. k \<noteq> aid \<longrightarrow> contents (project n) k = contents (project s) k"
    using continuations_frame(3) [of _ aid sec url y "s\<lparr>pending := remove_nth m (pending s)\<rparr>"] by simp
  then show ?thesis by blast
next
  case (Provider_reply m r)
  with assms obtain f where f: "resume (pending s ! m) r = Some f"
    and n: "n = f (s\<lparr>pending := remove_nth m (pending s)\<rparr>)"
    by (auto split: if_splits option.splits)
  from resume_frame [OF f, of "s\<lparr>pending := remove_nth m (pending s)\<rparr>"] n show ?thesis by simp
qed (use assms in \<open>auto split: if_splits\<close>)

text \<open>
  C24: every step changes the content of at most one section; all other sections keep their content.
\<close>

theorem step_changes_one_section:
  "app_step s e = Some (s', fx) \<Longrightarrow>
   \<exists>aid. \<forall>k. k \<noteq> aid \<longrightarrow> contents (project s') k = contents (project s) k"
  by (auto simp: app_step_def split: if_splits dest: handle_event_frame)

lemma nav_highlight_count:
  "length (filter id (nav_highlight (render_view s))) =
   length (filter (\<lambda>i. i = activeSectionId s) (map sec_id (sections (project s))))"
  by (simp add: render_view_def filter_map comp_def eq_commute)

text \<open>
  C26: in every reachable state the page shows the busy state as the specification describes it: a button shows its busy label exactly while an action runs, all four trigger buttons are disabled while it runs and the review, image and upload buttons are enabled otherwise, and exactly one entry of the sidebar is highlighted.
\<close>

theorem reach_view_busy:
  assumes "reach s"
  shows "(isLoading s \<longleftrightarrow> review_label (render_view s) = ''Revisando...'' \<or>
            text_label (render_view s) = ''Gerando...'' \<or> image_label (render_view s) = ''Criando...'') \<and>
         (isLoading s \<longrightarrow> review_disabled (render_view s) \<and> text_disabled (render_view s) \<and>
            image_disabled (render_view s) \<and> upload_disabled (render_view s)) \<and>
         (\<not> isLoading s \<longrightarrow> \<not> review_disabled (render_view s) \<and> \<not> image_disabled (render_view s) \<and>
            \<not> upload_disabled (render_view s)) \<and>
         length (filter id (nav_highlight (render_view s))) = 1"
proof -
  have b: "isLoading s = (loadingAction s \<noteq> None)"
    using reach_inv [OF assms] by (simp add: app_inv_def busy_inv_def)
  have r: "review_label (render_view s) = ''Revisando...'' \<longleftrightarrow> loadingAction s = Some Review"
    "text_label (render_view s) = ''Gerando...'' \<longleftrightarrow> loadingAction s = Some Text"
    "image_label (render_view s) = ''Criando...'' \<longleftrightarrow> loadingAction s = Some Image"
    by (simp_all add: render_view_def)
  have l: "isLoading s \<longleftrightarrow> review_label (render_view s) = ''Revisando...'' \<or>
            text_label (render_view s) = ''Gerando...'' \<or> image_label (render_view s) = ''Criando...''"
  proof (cases "loadingAction s")
    case (Some a)
    with b r show ?thesis by (cases a) simp_all
  qed (use b r in simp)
  have o: "outline (project s) = outline initial_project"
    using reach_inv [OF assms] by (simp add: app_inv_def)
  have d: "distinct (map sec_id (sections (project s)))"
    using wf_project_outline [OF o] initial_project_props(1) by (simp add: wf_project_def)
  have n: "length (filter id (nav_highlight (render_view s))) = 1"
    unfolding nav_highlight_count by (rule length_filter_distinct_member [OF d reach_active_id [OF assms]])
  have v: "review_disabled (render_view s) = isLoading s" "image_disabled (render_view s) = isLoading s"
    "upload_disabled (render_view s) = isLoading s"
    "text_disabled (render_view s) = (isLoading s \<or> proj_title (project s) = [])"
    by (simp_all add: render_view_def)
  from l n v show ?thesis by blast
qed

text \<open>The synchronous part of \<open>Continuar Escrita\<close> from an idle state, as the step commits it.\<close>

lemma click_text_step:
  assumes "\<not> isLoading s" "proj_title (project s) \<noteq> []"
    "active_section (project s) (activeSectionId s) = Some sec"
    "app_step s Click_text = Some (s1, fx1)"
  shows "s1 = commit s (s\<lparr>isLoading := True, loadingAction := Some Text,
            pending := pending s @ [Pending_text (activeSectionId s)]\<rparr>) \<and>
         fx1 = [Call (text_request (text_prompt sec (proj_title (project s))))]"
  using assms by (auto simp: app_step_def handleGenerateText_def split: if_splits)

text \<open>
  C9: a text reply that carries no text (the provider returned none) throws in the continuation before the busy flag is reset: the document is unchanged, and the editor stays busy for good, sending no request under any later run.
\<close>

theorem text_reply_without_text_stuck:
  assumes "reach s" "\<not> isLoading s" "proj_title (project s) \<noteq> []"
    "active_section (project s) (activeSectionId s) = Some sec"
    "app_step s Click_text = Some (s1, fx1)"
    "app_step s1 (Provider_reply (length (pending s)) (Text_reply (Provider_ok None))) = Some (s2, fx2)"
  shows "isLoading s2 \<and> project s2 = project s \<and>
         (\<forall>es s' fx. app_run s2 es = Some (s', fx) \<longrightarrow> isLoading s' \<and> fx = [])"
proof -
  have b: "busy_inv s" using reach_inv [OF assms(1)] by (simp add: app_inv_def)
  have e: "ai_pending s = []" using b assms(2) by (rule busy_inv_idle)
  let ?aid = "activeSectionId s"
  from click_text_step [OF assms(2-5)] have s1: "s1 = commit s (s\<lparr>isLoading := True,
      loadingAction := Some Text, pending := pending s @ [Pending_text ?aid]\<rparr>)" by blast
  then have p1: "pending s1 ! length (pending s) = Pending_text ?aid" "length (pending s) < length (pending s1)"
    by simp_all
  from assms(6) p1 have "s2 = commit s1 (handleGenerateText_resume ?aid (Provider_ok None)
      (s1\<lparr>pending := remove_nth (length (pending s)) (pending s1)\<rparr>))"
    by (auto simp: app_step_def split: if_splits)
  with s1 have l: "isLoading s2" "project s2 = project s" "pending s2 = pending s"
    by (simp_all add: handleGenerateText_resume_def remove_nth_def)
  then have "ai_pending s2 = []" using e by (simp add: ai_pending_def)
  with l stuck_run show ?thesis by blast
qed

text \<open>
  C6: a text continuation writes into the section that was active at the click, with the markup of the section active when the reply arrives: after switching to another section while the call is awaited, the clicked section is overwritten by the other section's content followed by the text, and the other section is unchanged.
\<close>

theorem stale_text_overwrites:
  assumes "reach s" "\<not> isLoading s" "proj_title (project s) \<noteq> []"
    "active_section (project s) (activeSectionId s) = Some sa"
    "active_section (project s) b = Some sb" "b \<noteq> activeSectionId s"
    "app_step s Click_text = Some (s1, fx1)"
    "app_step s1 (Select_section b) = Some (s2, fx2)"
    "app_step s2 (Provider_reply (length (pending s)) (Text_reply (Provider_ok (Some t)))) = Some (s3, fx3)"
  shows "active_section (project s3) (activeSectionId s) = Some (sa\<lparr>content := content sb @ text_paragraphs t\<rparr>) \<and>
         active_section (project s3) b = Some sb"
proof -
  let ?aid = "activeSectionId s"
  from click_text_step [OF assms(2-4,7)] have s1: "s1 = commit s (s\<lparr>isLoading := True,
      loadingAction := Some Text, pending := pending s @ [Pending_text ?aid]\<rparr>)" by blast
  from assms(8) have s2: "s2 = commit s1 (s1\<lparr>activeSectionId := b\<rparr>)"
    by (auto simp: app_step_def split: if_splits)
  from s1 s2 assms(5) have e2: "editor s2 = Some (content sb)" "project s2 = project s"
    "pending s2 ! length (pending s) = Pending_text ?aid" "length (pending s) < length (pending s2)"
    by simp_all
  from assms(9) e2(3,4) have "s3 = commit s2 (handleGenerateText_resume ?aid (Provider_ok (Some t))
      (s2\<lparr>pending := remove_nth (length (pending s)) (pending s2)\<rparr>))"
    by (auto simp: app_step_def split: if_splits)
  then have "project s3 = handleSectionContentChange ?aid (content sb @ text_paragraphs t) (project s)"
    using e2(1,2) by (simp add: handleGenerateText_resume_def insertHtmlAtEnd_def)
  with assms(4,5,6) show ?thesis
    by (simp add: active_section_handleSectionContentChange_other)
qed

text \<open>
  C7: the image handler is memoised on the image prompt, so a generated image is labelled from the section captured at the render where the prompt last changed, not from the current content, and the captured section survives the generation: generating again with the same prompt repeats the same figure number.
\<close>

theorem image_label_from_closure:
  assumes "reach s" "\<not> isLoading s" "imagePrompt s \<noteq> []" "image_closure s = (aid, Some sec)" "b \<noteq> []"
    "app_step s Click_image = Some (s1, fx1)"
    "app_step s1 (Provider_reply (length (pending s)) (Image_reply (Provider_ok (Some (Some b) # imgs)) y)) = Some (s2, fx2)"
  shows "project s2 = insertHtmlAtEnd (editor s) aid (image_html (png_data_url b) (figure_count sec) y) (project s) \<and>
         image_closure s2 = (aid, Some sec) \<and> \<not> isLoading s2"
proof -
  have ed: "editor s = map_option content (active_section (project s) (activeSectionId s))"
    using reach_inv [OF assms(1)] by (simp add: app_inv_def)
  from assms(2,3,4,6) have s1: "s1 = commit s (s\<lparr>isLoading := True, loadingAction := Some Image,
      pending := pending s @ [Pending_image aid (Some sec)]\<rparr>)"
    by (auto simp: app_step_def handleGenerateImage_def split: if_splits)
  then have p1: "pending s1 ! length (pending s) = Pending_image aid (Some sec)"
    "length (pending s) < length (pending s1)" "editor s1 = editor s" "project s1 = project s"
    "image_closure s1 = (aid, Some sec)" "imagePrompt s1 = imagePrompt s"
    using ed assms(4) by (simp_all add: commit_def Let_def)
  from assms(7) p1(1,2) have "s2 = commit s1 (handleGenerateImage_resume aid (Some sec)
      (Provider_ok (Some (Some b) # imgs)) y (s1\<lparr>pending := remove_nth (length (pending s)) (pending s1)\<rparr>))"
    by (auto simp: app_step_def split: if_splits)
  with p1 assms(5) show ?thesis
    by (simp add: handleGenerateImage_resume_def handleInsertImage_def commit_def Let_def idle_def)
qed

text \<open>
  C11: a review reply that parses as JSON but does not have the shape the modal reads is stored unvalidated, rendering the modal throws, and the page is unmounted: no later event is handled.
\<close>

theorem review_wrong_shape_crash:
  assumes "n < length (pending s)" "pending s ! n = Pending_review"
    "json_parse (js_trim t) = Some v" "\<not> review_renders v"
    "app_step s (Provider_reply n (Review_reply (Provider_ok (Some t)))) = Some (s', fx)"
  shows "finalReview s' = v \<and> crashed s' \<and> (\<forall>e. app_step s' e = None)"
proof -
  from assms(1,2,5) have "s' = commit s (handleFinalReview_resume (Provider_ok (Some t))
      (s\<lparr>pending := remove_nth n (pending s)\<rparr>))"
    by (auto simp: app_step_def split: if_splits)
  with assms(3,4) have "finalReview s' = v" "crashed s'"
    by (simp_all add: handleFinalReview_resume_def commit_def Let_def idle_def)
  then show ?thesis by (simp add: app_step_def)
qed

text \<open>
  C23: two uploads chosen before either file has been read are both labelled from the section captured at the choice, so both get the same figure number, and both are appended to the section in the order the files were read.
\<close>

theorem upload_race_same_label:
  assumes "reach s" "\<not> isLoading s" "active_section (project s) (activeSectionId s) = Some sec"
    "u1 \<noteq> []" "u2 \<noteq> []"
    "app_step s (Choose_file (Some u1)) = Some (s1, fx1)" "app_step s1 (Choose_file (Some u2)) = Some (s2, fx2)"
    "app_step s2 (File_loaded (length (pending s)) y) = Some (s3, fx3)"
    "app_step s3 (File_loaded (length (pending s)) y) = Some (s4, fx4)"
  shows "active_section (project s4) (activeSectionId s) =
           Some (sec\<lparr>content := content sec @ image_html u1 (figure_count sec) y @ image_html u2 (figure_count sec) y\<rparr>)"
proof -
  let ?a = "activeSectionId s" and ?n = "length (pending s)"
  let ?i1 = "image_html u1 (figure_count sec) y" and ?i2 = "image_html u2 (figure_count sec) y"
  from assms(2,6) have s1: "s1 = commit s (s\<lparr>pending := pending s @ [Pending_file ?a (Some sec) u1]\<rparr>)"
    using assms(3) by (auto simp: app_step_def handleFileSelected_def split: if_splits)
  then have "\<not> isLoading s1" "activeSectionId s1 = ?a" "project s1 = project s" using assms(2) by simp_all
  with assms(7) have s2: "s2 = commit s1 (s1\<lparr>pending := pending s1 @ [Pending_file ?a (Some sec) u2]\<rparr>)"
    using assms(3) by (auto simp: app_step_def handleFileSelected_def split: if_splits)
  from s1 s2 assms(3) have p2: "pending s2 = pending s @ [Pending_file ?a (Some sec) u1, Pending_file ?a (Some sec) u2]"
    "editor s2 = Some (content sec)" "project s2 = project s" "activeSectionId s2 = ?a"
    by simp_all
  from assms(8) p2(1) have "s3 = commit s2 (file_onload ?a (Some sec) u1 y (s2\<lparr>pending := remove_nth ?n (pending s2)\<rparr>))"
    by (auto simp: app_step_def nth_append split: if_splits)
  with p2 assms(3,4) have p3: "project s3 = handleSectionContentChange ?a (content sec @ ?i1) (project s)"
    "pending s3 = pending s @ [Pending_file ?a (Some sec) u2]" "activeSectionId s3 = ?a"
    and e3: "editor s3 = Some (content sec @ ?i1)"
    by (simp_all add: file_onload_def handleInsertImage_def insertHtmlAtEnd_def remove_nth_def commit_def Let_def)
  from assms(9) p3(2) have "s4 = commit s3 (file_onload ?a (Some sec) u2 y (s3\<lparr>pending := remove_nth ?n (pending s3)\<rparr>))"
    by (auto simp: app_step_def split: if_splits)
  with p3 e3 assms(5) have "project s4 = handleSectionContentChange ?a (content sec @ ?i1 @ ?i2)
      (handleSectionContentChange ?a (content sec @ ?i1) (project s))"
    by (simp add: file_onload_def handleInsertImage_def insertHtmlAtEnd_def)
  with assms(3) show ?thesis by simp
qed

theorem continue_text_appends_witness:
  "\<exists>s fx s1 fx1 s2 fx2 sec. app_run initial_state [Edit_meta Title ''T''] = Some (s, fx) \<and>
     reach s \<and> \<not> isLoading s \<and> proj_title (project s) \<noteq> [] \<and>
     active_section (project s) (activeSectionId s) = Some sec \<and>
     app_step s Click_text = Some (s1, fx1) \<and>
     app_step s1 (Provider_reply (length (pending s)) (Text_reply (Provider_ok (Some ''x'')))) = Some (s2, fx2) \<and>
     active_section (project s2) (activeSectionId s) = Some (sec\<lparr>content := content sec @ text_paragraphs ''x''\<rparr>)"
proof -
  have "\<exists>s fx. app_run initial_state [Edit_meta Title ''T''] = Some (s, fx)" by (simp add: app_eval)
  then obtain s fx where r: "app_run initial_state [Edit_meta Title ''T''] = Some (s, fx)" by blast
  have reach: "reach s" using reach.start r by (rule reach_app_run)
  have h: "\<not> isLoading s" "proj_title (project s) \<noteq> []" "pending s = []"
    using r by (auto simp: app_eval)
  have "\<exists>sec. active_section (project s) (activeSectionId s) = Some sec" using r by (auto simp: app_eval)
  then obtain sec where sec: "active_section (project s) (activeSectionId s) = Some sec" by blast
  have "\<exists>s1 fx1. app_step s Click_text = Some (s1, fx1)" using r by (auto simp: app_eval)
  then obtain s1 fx1 where a: "app_step s Click_text = Some (s1, fx1)" by blast
  have "\<exists>s2 fx2. app_step s1 (Provider_reply 0 (Text_reply (Provider_ok (Some ''x'')))) = Some (s2, fx2)"
    using r a by (auto simp: app_eval)
  then obtain s2 fx2 where b: "app_step s1 (Provider_reply (length (pending s)) (Text_reply (Provider_ok (Some ''x'')))) = Some (s2, fx2)"
    using h(3) by auto
  from continue_text_appends [OF reach h(1,2) sec a b] r reach h sec a b show ?thesis by blast
qed

theorem continue_text_error_inserts_apology_witness:
  "\<exists>s fx s1 fx1 s2 fx2 sec. app_run initial_state [Edit_meta Title ''T''] = Some (s, fx) \<and>
     reach s \<and> \<not> isLoading s \<and> proj_title (project s) \<noteq> [] \<and>
     active_section (project s) (activeSectionId s) = Some sec \<and>
     app_step s Click_text = Some (s1, fx1) \<and>
     app_step s1 (Provider_reply (length (pending s)) (Text_reply Provider_error)) = Some (s2, fx2) \<and>
     active_section (project s2) (activeSectionId s) =
       Some (sec\<lparr>content := content sec @ text_paragraphs text_fallback\<rparr>)"
proof -
  have "\<exists>s fx. app_run initial_state [Edit_meta Title ''T''] = Some (s, fx)" by (simp add: app_eval)
  then obtain s fx where r: "app_run initial_state [Edit_meta Title ''T''] = Some (s, fx)" by blast
  have reach: "reach s" using reach.start r by (rule reach_app_run)
  have h: "\<not> isLoading s" "proj_title (project s) \<noteq> []" "pending s = []"
    using r by (auto simp: app_eval)
  have "\<exists>sec. active_section (project s) (activeSectionId s) = Some sec" using r by (auto simp: app_eval)
  then obtain sec where sec: "active_section (project s) (activeSectionId s) = Some sec" by blast
  have "\<exists>s1 fx1. app_step s Click_text = Some (s1, fx1)" using r by (auto simp: app_eval)
  then obtain s1 fx1 where a: "app_step s Click_text = Some (s1, fx1)" by blast
  have "\<exists>s2 fx2. app_step s1 (Provider_reply 0 (Text_reply Provider_error)) = Some (s2, fx2)"
    using r a by (auto simp: app_eval)
  then obtain s2 fx2 where b: "app_step s1 (Provider_reply (length (pending s)) (Text_reply Provider_error)) = Some (s2, fx2)"
    using h(3) by auto
  from continue_text_error_inserts_apology [OF reach h(1,2) sec a b] r reach h sec a b show ?thesis by blast
qed

theorem continue_text_empty_title_witness:
  "proj_title (project initial_state) = [] \<and>
   handleGenerateText initial_state = (initial_state, [Alert title_alert]) \<and> app_step initial_state Click_text = None"
proof -
  have t: "proj_title (project initial_state) = []" by (simp add: initial_state_def initial_project_def Let_def)
  from t continue_text_empty_title [OF t] show ?thesis by blast
qed

theorem single_flight_witness:
  "\<exists>s fx. app_run initial_state [Click_review] = Some (s, fx) \<and> reach s \<and>
     ai_pending s = [Pending_review] \<and> length (ai_pending s) \<le> 1"
proof -
  have "\<exists>s fx. app_run initial_state [Click_review] = Some (s, fx)" by (simp add: app_eval)
  then obtain s fx where r: "app_run initial_state [Click_review] = Some (s, fx)" by blast
  have reach: "reach s" using reach.start r by (rule reach_app_run)
  have "ai_pending s = [Pending_review]" using r by (auto simp: app_eval ai_pending_def)
  with r reach single_flight [OF reach] show ?thesis by blast
qed

theorem busy_no_new_request_witness:
  "\<exists>s fx s' fx'. app_run initial_state [Click_review] = Some (s, fx) \<and> reach s \<and> ai_pending s \<noteq> [] \<and>
     app_step s (Edit_meta Title ''T'') = Some (s', fx') \<and> fx' = []"
proof -
  have "\<exists>s fx. app_run initial_state [Click_review] = Some (s, fx)" by (simp add: app_eval)
  then obtain s fx where r: "app_run initial_state [Click_review] = Some (s, fx)" by blast
  have reach: "reach s" using reach.start r by (rule reach_app_run)
  have p: "ai_pending s \<noteq> []" using r by (auto simp: app_eval ai_pending_def)
  have "\<exists>s' fx'. app_step s (Edit_meta Title ''T'') = Some (s', fx')" using r by (auto simp: app_eval)
  then obtain s' fx' where a: "app_step s (Edit_meta Title ''T'') = Some (s', fx')" by blast
  from busy_no_new_request [OF reach p a] r reach p a show ?thesis by blast
qed

theorem review_malformed_reply_witness:
  "\<exists>s fx s' fx'. app_run initial_state [Click_review] = Some (s, fx) \<and> reach s \<and>
     0 < length (pending s) \<and> pending s ! 0 = Pending_review \<and> json_parse (js_trim ''Desculpe'') = None \<and>
     app_step s (Provider_reply 0 (Review_reply (Provider_ok (Some ''Desculpe'')))) = Some (s', fx') \<and>
     finalReview s' = JNull \<and> project s' = project s \<and> \<not> isLoading s' \<and> \<not> crashed s'"
proof -
  have "\<exists>s fx. app_run initial_state [Click_review] = Some (s, fx)" by (simp add: app_eval)
  then obtain s fx where r: "app_run initial_state [Click_review] = Some (s, fx)" by blast
  have reach: "reach s" using reach.start r by (rule reach_app_run)
  have h: "0 < length (pending s)" "pending s ! 0 = Pending_review" using r by (auto simp: app_eval)
  have j: "json_parse (js_trim ''Desculpe'') = None"
    by (simp add: json_parse_def js_trim_def js_is_space_def json_ws_def json_is_ws_def starts_def
        parse_number_def parse_int_part_def is_digit_def)
  have "\<exists>s' fx'. app_step s (Provider_reply 0 (Review_reply (Provider_ok (Some ''Desculpe'')))) = Some (s', fx')"
    using r by (auto simp: app_eval)
  then obtain s' fx' where a: "app_step s (Provider_reply 0 (Review_reply (Provider_ok (Some ''Desculpe'')))) = Some (s', fx')"
    by blast
  from review_malformed_reply [OF reach h j a] r reach h j a show ?thesis by blast
qed

theorem image_no_result_unchanged_witness:
  "\<exists>s fx s' fx' aid sec. app_run initial_state [Edit_image_prompt ''x'', Click_image] = Some (s, fx) \<and>
     0 < length (pending s) \<and> pending s ! 0 = Pending_image aid sec \<and>
     generateImage_result (Provider_ok []) = None \<and>
     app_step s (Provider_reply 0 (Image_reply (Provider_ok []) 2025)) = Some (s', fx') \<and>
     project s' = project s \<and> \<not> isLoading s'"
proof -
  have "\<exists>s fx. app_run initial_state [Edit_image_prompt ''x'', Click_image] = Some (s, fx)" by (simp add: app_eval)
  then obtain s fx where r: "app_run initial_state [Edit_image_prompt ''x'', Click_image] = Some (s, fx)" by blast
  have "\<exists>aid sec. 0 < length (pending s) \<and> pending s ! 0 = Pending_image aid sec" using r by (auto simp: app_eval)
  then obtain aid sec where h: "0 < length (pending s)" "pending s ! 0 = Pending_image aid sec" by blast
  have g: "generateImage_result (Provider_ok []) = None" by simp
  have "\<exists>s' fx'. app_step s (Provider_reply 0 (Image_reply (Provider_ok []) 2025)) = Some (s', fx')"
    using r by (auto simp: app_eval)
  then obtain s' fx' where a: "app_step s (Provider_reply 0 (Image_reply (Provider_ok []) 2025)) = Some (s', fx')"
    by blast
  from image_no_result_unchanged [OF h g a] r h g a show ?thesis by blast
qed

theorem reach_outline_witness:
  "reach initial_state \<and> outline (project initial_state) = outline initial_project \<and>
   wf_project (project initial_state) \<and>
   editor initial_state = map_option content (active_section (project initial_state) (activeSectionId initial_state))"
  using reach.start reach_outline [OF reach.start] by blast

theorem review_conforming_reply_witness:
  \<open>\<exists>s fx s' fx' v. app_run initial_state [Click_review] = Some (s, fx) \<and>
     reach s \<and> 0 < length (pending s) \<and> pending s ! 0 = Pending_review \<and>
     json_parse (js_trim ''{"feedback": {"abntCompliance": "a", "originality": "b", "cohesion": "c", "grammar": "d"}, "suggestions": {"clarity": "e", "depth": "f", "conclusion": "g", "resultsPresentation": "h"}}'') = Some v \<and> json_conforms review_schema v \<and>
     app_step s (Provider_reply 0 (Review_reply (Provider_ok (Some ''{"feedback": {"abntCompliance": "a", "originality": "b", "cohesion": "c", "grammar": "d"}, "suggestions": {"clarity": "e", "depth": "f", "conclusion": "g", "resultsPresentation": "h"}}'')))) = Some (s', fx') \<and>
     finalReview s' = v \<and> \<not> crashed s'\<close>
proof -
  define t where \<open>t = ''{"feedback": {"abntCompliance": "a", "originality": "b", "cohesion": "c", "grammar": "d"}, "suggestions": {"clarity": "e", "depth": "f", "conclusion": "g", "resultsPresentation": "h"}}''\<close>
  have "\<exists>s fx. app_run initial_state [Click_review] = Some (s, fx)" by (simp add: app_eval)
  then obtain s fx where r: "app_run initial_state [Click_review] = Some (s, fx)" by blast
  have re: "reach s" using reach_app_run [OF reach.start r] .
  have p: "0 < length (pending s)" "pending s ! 0 = Pending_review" using r by (auto simp: app_eval)
  let ?v = "JObj [(''feedback'', JObj [(''abntCompliance'', JStr ''a''), (''originality'', JStr ''b''),
      (''cohesion'', JStr ''c''), (''grammar'', JStr ''d'')]),
    (''suggestions'', JObj [(''clarity'', JStr ''e''), (''depth'', JStr ''f''),
      (''conclusion'', JStr ''g''), (''resultsPresentation'', JStr ''h'')])]"
  have v: "json_parse (js_trim t) = Some ?v" "json_conforms review_schema ?v"
    unfolding t_def by code_simp+
  have "\<exists>s' fx'. app_step s (Provider_reply 0 (Review_reply (Provider_ok (Some t)))) = Some (s', fx')"
    using r v(1) by (auto simp: app_eval)
  then obtain s' fx' where st: "app_step s (Provider_reply 0 (Review_reply (Provider_ok (Some t)))) = Some (s', fx')"
    by blast
  from review_conforming_reply [OF re p v st] r re p v st show ?thesis
    unfolding t_def [symmetric] by blast
qed

theorem reply_completes_witness:
  "(\<exists>s fx s' fx'. app_run initial_state [Click_review] = Some (s, fx) \<and> reach s \<and> \<not> crashed s \<and>
      0 < length (pending s) \<and> pending s ! 0 = Pending_review \<and>
      app_step s (Provider_reply 0 (Review_reply Provider_error)) = Some (s', fx') \<and> \<not> isLoading s') \<and>
   (\<exists>s fx s' fx'. app_run initial_state [Edit_meta Title ''T'', Click_text] = Some (s, fx) \<and> reach s \<and>
      \<not> crashed s \<and> 0 < length (pending s) \<and> pending s ! 0 = Pending_text ''s3'' \<and>
      generateText_result (Provider_ok (Some ''x'')) = Some ''x'' \<and>
      app_step s (Provider_reply 0 (Text_reply (Provider_ok (Some ''x'')))) = Some (s', fx') \<and> \<not> isLoading s')"
proof (rule conjI)
  have "\<exists>s fx. app_run initial_state [Click_review] = Some (s, fx)" by (simp add: app_eval)
  then obtain s fx where r: "app_run initial_state [Click_review] = Some (s, fx)" by blast
  have re: "reach s" using reach_app_run [OF reach.start r] .
  have x: "\<not> crashed s" "0 < length (pending s)" "pending s ! 0 = Pending_review"
    using r by (auto simp: app_eval)
  from reply_completes [OF re x(1,2), of Provider_error] r re x
  show "\<exists>s fx s' fx'. app_run initial_state [Click_review] = Some (s, fx) \<and> reach s \<and> \<not> crashed s \<and>
      0 < length (pending s) \<and> pending s ! 0 = Pending_review \<and>
      app_step s (Provider_reply 0 (Review_reply Provider_error)) = Some (s', fx') \<and> \<not> isLoading s'"
    by blast
next
  have "\<exists>s fx. app_run initial_state [Edit_meta Title ''T'', Click_text] = Some (s, fx)" by (simp add: app_eval)
  then obtain s fx where r: "app_run initial_state [Edit_meta Title ''T'', Click_text] = Some (s, fx)" by blast
  have re: "reach s" using reach_app_run [OF reach.start r] .
  have x: "\<not> crashed s" "0 < length (pending s)" "pending s ! 0 = Pending_text ''s3''"
    using r by (auto simp: app_eval)
  have g: "generateText_result (Provider_ok (Some ''x'')) = Some ''x''" by simp
  from reply_completes [OF re x(1,2), of _ "Provider_ok (Some ''x'')"] r re x g
  show "\<exists>s fx s' fx'. app_run initial_state [Edit_meta Title ''T'', Click_text] = Some (s, fx) \<and> reach s \<and>
      \<not> crashed s \<and> 0 < length (pending s) \<and> pending s ! 0 = Pending_text ''s3'' \<and>
      generateText_result (Provider_ok (Some ''x'')) = Some ''x'' \<and>
      app_step s (Provider_reply 0 (Text_reply (Provider_ok (Some ''x'')))) = Some (s', fx') \<and> \<not> isLoading s'"
    by blast
qed

theorem step_changes_one_section_witness:
  "\<exists>s fx s' fx'. app_run initial_state [Edit_meta Title ''T'', Click_text] = Some (s, fx) \<and>
     app_step s (Provider_reply 0 (Text_reply (Provider_ok (Some ''x'')))) = Some (s', fx') \<and>
     (\<exists>aid. \<forall>k. k \<noteq> aid \<longrightarrow> contents (project s') k = contents (project s) k) \<and>
     contents (project s') ''s3'' \<noteq> contents (project s) ''s3''"
proof -
  have "\<exists>s fx. app_run initial_state [Edit_meta Title ''T'', Click_text] = Some (s, fx)" by (simp add: app_eval)
  then obtain s fx where r: "app_run initial_state [Edit_meta Title ''T'', Click_text] = Some (s, fx)" by blast
  have "\<exists>s' fx'. app_step s (Provider_reply 0 (Text_reply (Provider_ok (Some ''x'')))) = Some (s', fx')"
    using r by (auto simp: app_eval)
  then obtain s' fx' where st: "app_step s (Provider_reply 0 (Text_reply (Provider_ok (Some ''x'')))) = Some (s', fx')"
    by blast
  have d: "contents (project s') ''s3'' \<noteq> contents (project s) ''s3''"
    using r st by (auto simp: app_eval contents_def text_paragraphs_def)
  from step_changes_one_section [OF st] r st d show ?thesis by blast
qed

theorem reach_view_busy_witness:
  "\<exists>s fx. app_run initial_state [Click_review] = Some (s, fx) \<and> reach s \<and> isLoading s \<and>
     review_label (render_view s) = ''Revisando...'' \<and> text_disabled (render_view s) \<and>
     length (filter id (nav_highlight (render_view s))) = 1"
proof -
  have "\<exists>s fx. app_run initial_state [Click_review] = Some (s, fx)" by (simp add: app_eval)
  then obtain s fx where r: "app_run initial_state [Click_review] = Some (s, fx)" by blast
  have re: "reach s" using reach_app_run [OF reach.start r] .
  have x: "isLoading s" "loadingAction s = Some Review" using r by (auto simp: app_eval)
  from reach_view_busy [OF re] r re x show ?thesis by (simp add: render_view_def)
qed


theorem text_reply_without_text_stuck_witness:
  "\<exists>s fx s1 fx1 s2 fx2 sec. app_run initial_state [Edit_meta Title ''T''] = Some (s, fx) \<and>
     reach s \<and> \<not> isLoading s \<and> proj_title (project s) \<noteq> [] \<and>
     active_section (project s) (activeSectionId s) = Some sec \<and>
     app_step s Click_text = Some (s1, fx1) \<and>
     app_step s1 (Provider_reply (length (pending s)) (Text_reply (Provider_ok None))) = Some (s2, fx2) \<and>
     isLoading s2 \<and> app_step s2 Click_review = None"
proof -
  have "\<exists>s fx. app_run initial_state [Edit_meta Title ''T''] = Some (s, fx)" by (simp add: app_eval)
  then obtain s fx where r: "app_run initial_state [Edit_meta Title ''T''] = Some (s, fx)" by blast
  have reach: "reach s" using reach.start r by (rule reach_app_run)
  have h: "\<not> isLoading s" "proj_title (project s) \<noteq> []" "pending s = []"
    using r by (auto simp: app_eval)
  have "\<exists>sec. active_section (project s) (activeSectionId s) = Some sec" using r by (auto simp: app_eval)
  then obtain sec where sec: "active_section (project s) (activeSectionId s) = Some sec" by blast
  have "\<exists>s1 fx1. app_step s Click_text = Some (s1, fx1)" using r by (auto simp: app_eval)
  then obtain s1 fx1 where a: "app_step s Click_text = Some (s1, fx1)" by blast
  have "\<exists>s2 fx2. app_step s1 (Provider_reply 0 (Text_reply (Provider_ok None))) = Some (s2, fx2)"
    using r a by (auto simp: app_eval)
  then obtain s2 fx2 where b: "app_step s1 (Provider_reply (length (pending s)) (Text_reply (Provider_ok None))) = Some (s2, fx2)"
    using h(3) by auto
  have c: "isLoading s2" using text_reply_without_text_stuck [OF reach h(1,2) sec a b] by blast
  then have "app_step s2 Click_review = None" by (simp add: app_step_def)
  with text_reply_without_text_stuck [OF reach h(1,2) sec a b] r reach h sec a b show ?thesis by blast
qed

theorem stale_text_overwrites_witness:
  "\<exists>s fx s1 fx1 s2 fx2 s3 fx3 sa sb. app_run initial_state [Edit_meta Title ''T''] = Some (s, fx) \<and>
     reach s \<and> \<not> isLoading s \<and> proj_title (project s) \<noteq> [] \<and>
     active_section (project s) (activeSectionId s) = Some sa \<and>
     active_section (project s) ''s4'' = Some sb \<and> ''s4'' \<noteq> activeSectionId s \<and>
     app_step s Click_text = Some (s1, fx1) \<and> app_step s1 (Select_section ''s4'') = Some (s2, fx2) \<and>
     app_step s2 (Provider_reply (length (pending s)) (Text_reply (Provider_ok (Some ''x'')))) = Some (s3, fx3) \<and>
     active_section (project s3) (activeSectionId s) = Some (sa\<lparr>content := content sb @ text_paragraphs ''x''\<rparr>)"
proof -
  have "\<exists>s fx. app_run initial_state [Edit_meta Title ''T''] = Some (s, fx)" by (simp add: app_eval)
  then obtain s fx where r: "app_run initial_state [Edit_meta Title ''T''] = Some (s, fx)" by blast
  have reach: "reach s" using reach.start r by (rule reach_app_run)
  have h: "\<not> isLoading s" "proj_title (project s) \<noteq> []" "pending s = []" "''s4'' \<noteq> activeSectionId s"
    using r by (auto simp: app_eval)
  have "\<exists>sa sb. active_section (project s) (activeSectionId s) = Some sa \<and> active_section (project s) ''s4'' = Some sb"
    using r by (auto simp: app_eval)
  then obtain sa sb where sa: "active_section (project s) (activeSectionId s) = Some sa"
    and sb: "active_section (project s) ''s4'' = Some sb" by blast
  have "\<exists>s1 fx1. app_step s Click_text = Some (s1, fx1)" using r by (auto simp: app_eval)
  then obtain s1 fx1 where a: "app_step s Click_text = Some (s1, fx1)" by blast
  have "\<exists>s2 fx2. app_step s1 (Select_section ''s4'') = Some (s2, fx2)" using r a by (auto simp: app_eval)
  then obtain s2 fx2 where c: "app_step s1 (Select_section ''s4'') = Some (s2, fx2)" by blast
  have "\<exists>s3 fx3. app_step s2 (Provider_reply 0 (Text_reply (Provider_ok (Some ''x'')))) = Some (s3, fx3)"
    using r a c by (auto simp: app_eval)
  then obtain s3 fx3 where d: "app_step s2 (Provider_reply (length (pending s)) (Text_reply (Provider_ok (Some ''x'')))) = Some (s3, fx3)"
    using h(3) by auto
  from stale_text_overwrites [OF reach h(1,2) sa sb h(4) a c d] r reach h sa sb a c d show ?thesis by blast
qed

theorem image_label_from_closure_witness:
  "\<exists>s fx s1 fx1 s2 fx2 aid sec. app_run initial_state [Edit_image_prompt ''p''] = Some (s, fx) \<and>
     reach s \<and> \<not> isLoading s \<and> imagePrompt s \<noteq> [] \<and> image_closure s = (aid, Some sec) \<and>
     app_step s Click_image = Some (s1, fx1) \<and>
     app_step s1 (Provider_reply (length (pending s)) (Image_reply (Provider_ok [Some (Some ''b'')]) 2025)) = Some (s2, fx2) \<and>
     image_closure s2 = (aid, Some sec) \<and> \<not> isLoading s2"
proof -
  have "\<exists>s fx. app_run initial_state [Edit_image_prompt ''p''] = Some (s, fx)" by (simp add: app_eval)
  then obtain s fx where r: "app_run initial_state [Edit_image_prompt ''p''] = Some (s, fx)" by blast
  have reach: "reach s" using reach.start r by (rule reach_app_run)
  have h: "\<not> isLoading s" "imagePrompt s \<noteq> []" "pending s = []" using r by (auto simp: app_eval)
  have "\<exists>aid sec. image_closure s = (aid, Some sec)" using r by (auto simp: app_eval)
  then obtain aid sec where c: "image_closure s = (aid, Some sec)" by blast
  have "\<exists>s1 fx1. app_step s Click_image = Some (s1, fx1)" using r by (auto simp: app_eval handleGenerateImage_def)
  then obtain s1 fx1 where a: "app_step s Click_image = Some (s1, fx1)" by blast
  have "\<exists>s2 fx2. app_step s1 (Provider_reply 0 (Image_reply (Provider_ok [Some (Some ''b'')]) 2025)) = Some (s2, fx2)"
    using r a by (auto simp: app_eval handleGenerateImage_def)
  then obtain s2 fx2 where b: "app_step s1 (Provider_reply (length (pending s)) (Image_reply (Provider_ok [Some (Some ''b'')]) 2025)) = Some (s2, fx2)"
    using h(3) by auto
  have nb: "''b'' \<noteq> []" by simp
  from image_label_from_closure [OF reach h(1,2) c nb a b] r reach h c a b show ?thesis by blast
qed

theorem review_wrong_shape_crash_witness:
  "\<exists>s fx s' fx'. app_run initial_state [Click_review] = Some (s, fx) \<and>
     0 < length (pending s) \<and> pending s ! 0 = Pending_review \<and>
     json_parse (js_trim ''{}'') = Some (JObj []) \<and> \<not> review_renders (JObj []) \<and>
     app_step s (Provider_reply 0 (Review_reply (Provider_ok (Some ''{}'')))) = Some (s', fx') \<and>
     crashed s' \<and> app_step s' Close_review = None"
proof -
  have "\<exists>s fx. app_run initial_state [Click_review] = Some (s, fx)" by (simp add: app_eval)
  then obtain s fx where r: "app_run initial_state [Click_review] = Some (s, fx)" by blast
  have h: "0 < length (pending s)" "pending s ! 0 = Pending_review" using r by (auto simp: app_eval)
  have j: "json_parse (js_trim ''{}'') = Some (JObj [])" "\<not> review_renders (JObj [])" by code_simp+
  have "\<exists>s' fx'. app_step s (Provider_reply 0 (Review_reply (Provider_ok (Some ''{}'')))) = Some (s', fx')"
    using r by (auto simp: app_eval)
  then obtain s' fx' where a: "app_step s (Provider_reply 0 (Review_reply (Provider_ok (Some ''{}'')))) = Some (s', fx')"
    by blast
  from review_wrong_shape_crash [OF h j a] r h j a show ?thesis by blast
qed

theorem upload_race_same_label_witness:
  "\<exists>sec s1 fx1 s2 fx2 s3 fx3 s4 fx4. reach initial_state \<and> \<not> isLoading initial_state \<and>
     active_section (project initial_state) (activeSectionId initial_state) = Some sec \<and>
     app_step initial_state (Choose_file (Some ''u'')) = Some (s1, fx1) \<and>
     app_step s1 (Choose_file (Some ''v'')) = Some (s2, fx2) \<and>
     app_step s2 (File_loaded 0 2025) = Some (s3, fx3) \<and> app_step s3 (File_loaded 0 2025) = Some (s4, fx4) \<and>
     active_section (project s4) (activeSectionId initial_state) =
       Some (sec\<lparr>content := content sec @ image_html ''u'' (figure_count sec) 2025 @ image_html ''v'' (figure_count sec) 2025\<rparr>)"
proof -
  have h: "\<not> isLoading initial_state" "pending initial_state = []" by (simp_all add: app_eval)
  have "\<exists>sec. active_section (project initial_state) (activeSectionId initial_state) = Some sec"
    by (simp add: app_eval)
  then obtain sec where sec: "active_section (project initial_state) (activeSectionId initial_state) = Some sec" by blast
  have "\<exists>s1 fx1. app_step initial_state (Choose_file (Some ''u'')) = Some (s1, fx1)" by (simp add: app_eval)
  then obtain s1 fx1 where a: "app_step initial_state (Choose_file (Some ''u'')) = Some (s1, fx1)" by blast
  have "\<exists>s2 fx2. app_step s1 (Choose_file (Some ''v'')) = Some (s2, fx2)" using a by (auto simp: app_eval)
  then obtain s2 fx2 where b: "app_step s1 (Choose_file (Some ''v'')) = Some (s2, fx2)" by blast
  have "\<exists>s3 fx3. app_step s2 (File_loaded 0 2025) = Some (s3, fx3)" using a b by (auto simp: app_eval)
  then obtain s3 fx3 where c: "app_step s2 (File_loaded 0 2025) = Some (s3, fx3)" by blast
  have "\<exists>s4 fx4. app_step s3 (File_loaded 0 2025) = Some (s4, fx4)" using a b c by (auto simp: app_eval)
  then obtain s4 fx4 where d: "app_step s3 (File_loaded 0 2025) = Some (s4, fx4)" by blast
  have nu: "''u'' \<noteq> []" "''v'' \<noteq> []" by simp_all
  from upload_race_same_label [OF reach.start h(1) sec nu a b, of 2025 s3 fx3 s4 fx4] h(2) c d sec a b reach.start h(1)
  show ?thesis by auto
qed

end
