(* ===== verification/Editor_Refinement.thy ===== *)
theory Editor_Refinement
  imports App
begin

text \<open>
  The contract of the editor as the specification states it, and the refinement of that
  contract by the model of \<open>src/App.tsx\<close>. The abstract state is the document store (section
  id to content) and the global busy state \<open>Idle\<close> or \<open>Busy(action)\<close>. An abstract step
  leaves everything as it is, edits the content of one existing section, starts an action
  from \<open>Idle\<close>, or ends the running action with or without merging a result into one existing
  section. The abstraction \<open>abs_state\<close> reads the store through \<open>contents\<close> and the busy
  state from \<open>loadingAction\<close>; every step of the editor from a reachable state is one
  abstract step, so every run is an abstract run.
\<close>

type_synonym doc_abs = "(section_id \<rightharpoonup> html) \<times> loading_action option"

text \<open>The abstract store and busy state, and the steps the specification allows.\<close>

inductive spec_step :: "doc_abs \<Rightarrow> doc_abs \<Rightarrow> bool" where
  stay: "spec_step a a"
| edit: "k \<in> dom c \<Longrightarrow> spec_step (c, m) (c(k \<mapsto> h), m)"
| start: "spec_step (c, None) (c, Some act)"
| finish: "spec_step (c, Some act) (c, None)"
| merge: "k \<in> dom c \<Longrightarrow> spec_step (c, Some act) (c(k \<mapsto> h), None)"

text \<open>
  The abstraction function, and the relation of two stores of which the second differs
  from the first at most in the content of one existing section.
\<close>

definition abs_state :: "app_state \<Rightarrow> doc_abs" where
  "abs_state s = (contents (project s), loadingAction s)"

definition one_change :: "(section_id \<rightharpoonup> html) \<Rightarrow> (section_id \<rightharpoonup> html) \<Rightarrow> bool" where
  "one_change c c' \<longleftrightarrow> c' = c \<or> (\<exists>k h. k \<in> dom c \<and> c' = c(k \<mapsto> h))"

inductive_cases spec_step_from_idle: "spec_step (c, None) a'"
inductive_cases spec_step_busy: "spec_step (c, Some act) a'"

subsection \<open>The abstract machine\<close>

text \<open>
  No abstract step adds or removes a section; starting an action changes no content; a
  busy state only changes its action by going idle.
\<close>

lemma spec_step_dom: "spec_step a a' \<Longrightarrow> dom (fst a') = dom (fst a)"
  by (induction rule: spec_step.induct) (auto simp: dom_def)

lemma spec_steps_dom: "spec_step\<^sup>*\<^sup>* a a' \<Longrightarrow> dom (fst a') = dom (fst a)"
proof (induction rule: rtranclp_induct)
  case (step b b')
  from spec_step_dom [OF step.hyps(2)] step.IH show ?case by simp
qed simp

lemma spec_step_idle:
  "spec_step (c, None) (c', m') \<Longrightarrow> m' \<noteq> None \<Longrightarrow> c' = c"
  by (erule spec_step_from_idle) auto

lemma spec_step_busy_same:
  "spec_step (c, Some act) (c', Some act') \<Longrightarrow> act' = act"
  by (erule spec_step_busy) auto

subsection \<open>Each operation is an abstract step\<close>

lemma one_change_refl [simp]: "one_change c c"
  by (simp add: one_change_def)

lemma dom_contents: "dom (contents p) = set (map sec_id (sections p))"
  by (simp add: contents_def dom_map_of_conv_image_fst image_image)

lemma one_change_handleSectionContentChange:
  "one_change (contents p) (contents (handleSectionContentChange aid c p))"
proof -
  have s: "sections (handleSectionContentChange aid c p) =
           map (\<lambda>s. if sec_id s = aid then s\<lparr>content := c\<rparr> else s) (sections p)"
    by (simp add: handleSectionContentChange_def)
  have "contents (handleSectionContentChange aid c p) =
        (if aid \<in> set (map sec_id (sections p)) then (contents p)(aid \<mapsto> c) else contents p)"
    by (simp only: contents_def s map_of_map_update)
  then show ?thesis by (auto simp: one_change_def dom_contents)
qed

lemma one_change_insertHtmlAtEnd: "one_change (contents p) (contents (insertHtmlAtEnd e aid h p))"
  by (cases e) (simp_all add: insertHtmlAtEnd_def one_change_handleSectionContentChange)

lemma one_change_handleInsertImage:
  "handleInsertImage sec aid e url y p = Inr p' \<Longrightarrow> one_change (contents p) (contents p')"
  by (auto simp: handleInsertImage_def one_change_insertHtmlAtEnd split: option.splits)

lemma spec_step_one_change:
  "one_change c c' \<Longrightarrow> spec_step (c, m) (c', m)"
  "one_change c c' \<Longrightarrow> m \<noteq> None \<Longrightarrow> spec_step (c, m) (c', None)"
  "m' \<noteq> None \<Longrightarrow> spec_step (c, None) (c, m')"
  by (auto simp: one_change_def intro: spec_step.intros)

lemma resume_spec:
  assumes "resume p r = Some f"
  shows "one_change (contents (project s)) (contents (project (f s))) \<and> (loadingAction (f s) = None \<or> f s = s)"
proof (cases p)
  case Pending_review
  with assms show ?thesis by (cases r) (auto simp: handleFinalReview_resume_def)
next
  case (Pending_text aid)
  with assms show ?thesis
    by (cases r) (auto simp: handleGenerateText_resume_def one_change_insertHtmlAtEnd split: option.split)
next
  case (Pending_image aid sec)
  with assms show ?thesis
    by (cases r) (auto simp: handleGenerateImage_resume_def one_change_handleInsertImage split: option.split sum.split)
next
  case (Pending_file aid sec url)
  with assms show ?thesis by (cases r) auto
qed

lemma file_onload_spec:
  "one_change (contents (project s)) (contents (project (file_onload aid sec url y s))) \<and>
   loadingAction (file_onload aid sec url y s) = loadingAction s"
  by (auto simp: file_onload_def one_change_handleInsertImage split: sum.split)

lemma start_spec:
  assumes "busy_inv s" "\<not> isLoading s"
  shows "loadingAction s = None"
    "loadingAction (fst (handleFinalReview s)) \<noteq> None" "project (fst (handleFinalReview s)) = project s"
    "proj_title (project s) \<noteq> [] \<Longrightarrow> loadingAction (fst (handleGenerateText s)) \<noteq> None"
    "project (fst (handleGenerateText s)) = project s"
    "imagePrompt s \<noteq> [] \<Longrightarrow> loadingAction (fst (handleGenerateImage s)) \<noteq> None"
    "project (fst (handleGenerateImage s)) = project s"
  using assms
  by (auto simp: busy_inv_def handleFinalReview_def handleGenerateText_def handleGenerateImage_def Let_def
      split: option.split)

lemma handle_event_spec:
  assumes b: "busy_inv s" and h: "handle_event s e = Some (n, fx)"
  shows "spec_step (contents (project s), loadingAction s) (contents (project n), loadingAction n)"
proof (cases e)
  case (Edit_meta f v)
  with h have "contents (project n) = contents (project s)" "loadingAction n = loadingAction s"
    by (auto simp: contents_def)
  then show ?thesis by (simp add: spec_step.stay)
next
  case (Type_content c)
  with h have "project n = handleSectionContentChange (activeSectionId s) c (project s)"
    "loadingAction n = loadingAction s" by (auto split: if_splits)
  then show ?thesis using one_change_handleSectionContentChange spec_step_one_change(1) by metis
next
  case Click_review
  with h have "\<not> isLoading s" "n = fst (handleFinalReview s)" by (auto split: if_splits)
  with start_spec [OF b] show ?thesis by (metis spec_step_one_change(3))
next
  case Click_text
  with h have "\<not> isLoading s" "proj_title (project s) \<noteq> []" "n = fst (handleGenerateText s)"
    by (auto split: if_splits)
  with start_spec [OF b] show ?thesis by (metis spec_step_one_change(3))
next
  case Click_image
  with h have l: "\<not> isLoading s" "n = fst (handleGenerateImage s)" by (auto split: if_splits)
  show ?thesis
  proof (cases "imagePrompt s = []")
    case True
    with l have "n = s" by (simp add: handleGenerateImage_def)
    then show ?thesis by (simp add: spec_step.stay)
  next
    case False
    with l start_spec [OF b] show ?thesis by (metis spec_step_one_change(3))
  qed
next
  case (File_loaded m y)
  with h obtain aid sec url where "n = file_onload aid sec url y (s\<lparr>pending := remove_nth m (pending s)\<rparr>)"
    by (auto split: if_splits pending.splits)
  with file_onload_spec [of "s\<lparr>pending := remove_nth m (pending s)\<rparr>" aid sec url y] show ?thesis
    by (simp add: spec_step_one_change(1))
next
  case (Provider_reply m r)
  with h obtain f where f: "m < length (pending s)" "resume (pending s ! m) r = Some f"
    and n: "n = f (s\<lparr>pending := remove_nth m (pending s)\<rparr>)"
    by (auto split: if_splits option.splits)
  have "ai_kind (pending s ! m) \<noteq> None" using f(2) by (rule resume_ai)
  with f(1) have "ai_pending s \<noteq> []" by (rule ai_pending_nth)
  with busy_inv_idle [OF b] have "isLoading s" by blast
  with b have busy: "loadingAction s \<noteq> None" by (simp add: busy_inv_def)
  from resume_spec [OF f(2), of "s\<lparr>pending := remove_nth m (pending s)\<rparr>"] n
  have c: "one_change (contents (project s)) (contents (project n))"
    and l: "loadingAction n = None \<or> n = s\<lparr>pending := remove_nth m (pending s)\<rparr>" by simp_all
  from l show ?thesis
  proof
    assume "loadingAction n = None"
    with spec_step_one_change(2) [OF c busy] show ?thesis by simp
  next
    assume "n = s\<lparr>pending := remove_nth m (pending s)\<rparr>"
    then show ?thesis by (simp add: spec_step.stay)
  qed
qed (use h in \<open>auto simp: handleFileSelected_def spec_step.stay split: if_splits option.splits\<close>)

lemma app_step_spec:
  assumes "busy_inv s" "app_step s e = Some (s', fx)"
  shows "spec_step (abs_state s) (abs_state s')"
proof -
  from assms(2) obtain n where h: "handle_event s e = Some (n, fx)" "s' = commit s n"
    by (auto simp: app_step_def split: if_splits)
  from handle_event_spec [OF assms(1) h(1)] h(2) show ?thesis by (simp add: abs_state_def)
qed

subsection \<open>Refinement\<close>

text \<open>
  C25: every run of the editor from a reachable state is a run of the specification's
  machine: each step is a stutter, an edit of one existing section, a start from Idle, or
  the end of the running action with at most one merge. The stale closures of C7 and C8
  stay within this contract: they merge into an existing section, only not the intended one.
\<close>

theorem app_run_refines_spec:
  "reach s \<Longrightarrow> app_run s es = Some (s', fx) \<Longrightarrow> spec_step\<^sup>*\<^sup>* (abs_state s) (abs_state s')"
proof (induction es arbitrary: s fx)
  case (Cons e es)
  then obtain t fx1 fx2 where st: "app_step s e = Some (t, fx1)" and r: "app_run t es = Some (s', fx2)"
    by (auto split: option.splits)
  have b: "busy_inv s" using reach_inv [OF Cons.prems(1)] by (simp add: app_inv_def)
  have "spec_step (abs_state s) (abs_state t)" by (rule app_step_spec [OF b st])
  moreover have "spec_step\<^sup>*\<^sup>* (abs_state t) (abs_state s')"
    using Cons.IH [OF reach.step [OF Cons.prems(1) st] r] .
  ultimately show ?case by (rule converse_rtranclp_into_rtranclp)
qed simp

theorem app_run_refines_spec_witness:
  "\<exists>s fx. app_run initial_state [Edit_meta Title ''T'', Click_text,
       Provider_reply 0 (Text_reply (Provider_ok (Some ''x'')))] = Some (s, fx) \<and>
     reach initial_state \<and> spec_step\<^sup>*\<^sup>* (abs_state initial_state) (abs_state s)"
proof -
  have "\<exists>s fx. app_run initial_state [Edit_meta Title ''T'', Click_text,
       Provider_reply 0 (Text_reply (Provider_ok (Some ''x'')))] = Some (s, fx)"
    by (simp add: initial_state_def initial_project_def initial_active_id_def active_section_def
        app_step_def commit_def Let_def handleGenerateText_def handleGenerateText_resume_def idle_def
        remove_nth_def insertHtmlAtEnd_def handleSectionContentChange_def review_renders_def)
  then obtain s fx where r: "app_run initial_state [Edit_meta Title ''T'', Click_text,
       Provider_reply 0 (Text_reply (Provider_ok (Some ''x'')))] = Some (s, fx)" by blast
  from app_run_refines_spec [OF reach.start r] r reach.start show ?thesis by blast
qed

end
