(* ===== verification/Spec2Isabelle.thy ===== *)
theory Spec2Isabelle
  imports App_Properties Editor_Refinement
begin

text \<open>
  \<^bold>\<open>A verification model of Monograf.IA.\<close>
  Monograf.IA is a browser editor for academic monographs (\<open>src/App.tsx\<close>) that calls a
  generative-AI provider through a small gateway (\<open>src/services/geminiService.ts\<close>) over the
  data model of \<open>src/types.ts\<close>. The component \<open>App\<close> owns all state: the project (title,
  author, six seeded sections), the id of the active section, a busy flag with the kind of
  the running action, the last review, the image prompt and the theme. Typing, navigation
  and title edits change the project synchronously; three buttons start an asynchronous
  provider call (review, text continuation, image), and an upload reads a file; each
  continuation merges its result into the project when it resumes.

  \<^bold>\<open>Theories.\<close>
  \<^item> \<open>Prelude\<close>: named theorem collections, the \<open>TypeError\<close> value, type synonyms, the
    UTF-8 byte sequences of the Portuguese literals, list lemmas on the
    \<open>map (if id = ... then update else keep)\<close> shape all handlers share.
  \<^item> \<open>Types\<close> (\<open>src/types.ts\<close>): \<open>section_type\<close>, \<open>doc_section\<close>, \<open>project\<close>,
    \<open>review_feedback\<close>, \<open>improvement_suggestions\<close>, \<open>final_review\<close>; \<open>section_type\<close>
    is a linear order by its enum value.
  \<^item> \<open>JsString\<close>: the JavaScript builtins the code relies on, at byte level: global
    \<open>replace\<close> and \<open>match\<close> with a regular expression (\<open>js_replace_all\<close>,
    \<open>js_match_count\<close>), the three literals of the program (\<open>re_tag\<close> for
    \<open>/<[^>]*>?/gm\<close>, \<open>re_figure\<close> for \<open>/<figure/g\<close>, \<open>re_newline\<close> for \<open>/\n/g\<close>),
    \<open>join\<close>, \<open>trim\<close>, decimal rendering of numbers; executable scanners proved equal to
    the regular-expression forms, and the counting of \<open><figure\<close> across concatenations.
  \<^item> \<open>Document\<close> (\<open>src/App.tsx\<close> lines 6 to 97): \<open>initial_project\<close>, the active-section
    lookup, \<open>handleProjectMetaChange\<close>, \<open>handleSectionContentChange\<close>,
    \<open>insertHtmlAtEnd\<close>, \<open>handleInsertImage\<close> with its figure template, the markup
    helpers (tag stripping, paragraphs, review text). An abstraction \<open>contents\<close> (id to
    content) is the store the specification describes; the outline (ids, titles, types) is
    what no handler may change.
  \<^item> \<open>Json\<close>: JSON values, \<open>JSON.parse\<close> from the JSON grammar (a library the gateway calls),
    truthiness and property access as JavaScript has them.
  \<^item> \<open>Gateway\<close> (\<open>src/services/geminiService.ts\<close>): the start-up check of the key, the
    requests (a datatype, as the provider is external), and for each of
    \<open>conductFinalReview\<close>, \<open>generateText\<close>, \<open>generateImage\<close> the code after the \<open>await\<close>
    as a function of the provider's answer, every \<open>catch\<close> as a branch.
  \<^item> \<open>App\<close> (\<open>src/App.tsx\<close>): the state record, the events (user actions and completions
    of awaited calls and file reads), each handler split at its \<open>await\<close> into a
    synchronous part and a continuation that carries the values its closure captured,
    React's render and commit (\<open>commit\<close>: the editing surface shows the active content,
    \<open>handleGenerateImage\<close> is recreated only when \<open>imagePrompt\<close> changes, a \<open>TypeError\<close>
    while rendering unmounts the page), what the page shows (\<open>render_view\<close>: busy labels,
    disabled buttons, sidebar highlight, modal), whether the review modal renders
    (\<open>review_renders\<close>: a field read of a missing object throws, and React refuses a plain
    object as a child, \<open>react_child_ok\<close>), the step function \<open>app_step\<close>, runs \<open>app_run\<close> and
    the reachable states \<open>reach\<close>. The invariant \<open>app_inv\<close> (busy flag consistent, at most
    one awaited provider call, outline kept, surface in sync, crash flag exact) holds in
    every reachable state, by rule induction, and so does the fact that the active id
    names a section.
  \<^item> \<open>App_Properties\<close>: the editor's properties over that model, each a few steps over
    the invariant and the handlers' field lemmas.
  \<^item> \<open>Editor_Refinement\<close>: the specification's contract as an abstract machine (store of
    section contents, \<open>Idle\<close> or \<open>Busy(action)\<close>; an inductive step relation), the
    abstraction \<open>abs_state\<close> of an editor state, and the simulation of every editor step.
  \<^item> \<open>Spec2Isabelle\<close>: this overview.

  \<^bold>\<open>What the lemmas show.\<close>
  Text continuation asks once with the active section's prompt and appends the provider's
  text as paragraphs (C1); a failed call appends an apology instead of changing nothing
  (C4, a divergence from the specification); an empty title stops before any request
  (C5). At most one provider call is awaited (C2) and none is started while one is (C3).
  The bugs the model exposes, each proved over every reachable state where it applies:
  switching sections during a text continuation overwrites the section active at the
  click with the other section's content (C6); the memoised image handler labels from the
  section captured when the prompt last changed, so generating again repeats the figure
  number (C7), as do two uploads chosen before either file is read (C23); a text reply
  without text leaves the editor busy for good (C9); well-formed review JSON of the wrong
  shape is stored and unmounts the page (C11). The image handler itself numbers figures
  correctly from the content it is given (C8). Malformed review JSON yields no review
  (C10); an image reply without an image changes nothing (C12); a review of the schema's
  shape is stored and renders (C19); the gateway's \<open>JSON.parse\<close> never fails for lack of
  fuel (C20); an awaited review, and a text reply carrying text, always completes and
  frees the editor (C22). The document keeps its outline (C13), appends in order (C14)
  and refines the id-to-content map (C15); tag stripping equals a scanner (C16) and
  removes every \<open><\<close> (C17); the review only reads textual sections (C18); stripping the
  markup of a continued text gives back the provider's text up to spacing (C21). Every
  step changes the content of at most one section (C24), every run refines the
  specification's busy-state machine (C25), and the page shows the busy state
  consistently and highlights exactly one section (C26).

  \<^bold>\<open>Bounds and fuel.\<close> Only the JSON parser uses fuel: \<open>json_parse\<close> gives one unit per
  input byte plus one. Every parser consumes at least one byte, and a parse needs no more
  fuel than the bytes it consumes (\<open>fuel_ok\<close> in \<open>Json\<close>), so this fuel finds every
  parse any fuel finds (\<open>json_parse_fuel\<close>). All other
  recursion is structural or by a length measure. Numbers of the program (figure counts,
  years) are naturals; JavaScript strings are byte lists.

  \<^bold>\<open>Not modelled.\<close> Layout, styling, icons and the theme's effect on the page; the provider's
  behaviour (its answers are inputs); \<open>console.error\<close>; the browser's normalisation of
  \<open>innerHTML\<close>; JSON numbers beyond their
  zero test and surrogate pairs in \<open>\u\<close> escapes; the \<open>description\<close> strings of the schema;
  the file picker (a chosen file's data URL is an input of the event). The overlay of the
  open review modal stops pointer clicks only: the buttons behind it can still be focused
  and pressed from the keyboard, so every event stays possible while the modal is open.
\<close>

end
